theory Spec2Isabelle
  imports Complex_Main "HOL-Library.AList" "HOL-Library.Log_Nat"
begin

section \<open>The timetable optimizer of app.py\<close>

text \<open>
  A shallow embedding of the class \<open>ScheduleOptimizer\<close> of \<^verbatim>\<open>src/app.py\<close>:
  its constructor, \<open>generate_optimized_schedule\<close> and \<open>suggest_improvements\<close>.

  Conventions of the embedding:
  \<^item> a Python exception is a value \<open>Inl e\<close> of a sum type, a normal return is \<open>Inr v\<close>;
  \<^item> the module \<open>random\<close> is an explicit source of natural numbers that the state
    carries along; \<open>random.choice\<close> and \<open>random.randint\<close> reduce the next number into
    their range, so that every outcome the library can produce is the outcome for some
    source, and an empty range raises as the library does;
  \<^item> a Python \<open>float\<close> is the binary64 number it is: the model holds the rational
    that the float denotes, and every operation on floats rounds its exact result to the
    nearest binary64 number, a tie to the even significand; \<open>round(x, 1)\<close> is the
    decimal rounding of the library, converted back to binary64;
  \<^item> the configuration is the JSON value the caller passes in. A dict is a record:
    its nested keys are the fields, \<open>None\<close> for an absent key, and its numbers are
    integers. The entry \<open>'academic'\<close>, which the constructor reads, may also be a value
    that is not a dict, and so may the whole configuration.
\<close>

subsection \<open>Exceptions\<close>

datatype error = ValueError | IndexError | KeyError | ZeroDivisionError | AttributeError
  | InvalidConfigError

subsection \<open>The configuration and the constructor\<close>

record config_data =
  cfg_subject_list :: "string list option"      \<comment> \<open>\<open>config['subject_list']\<close>\<close>
  cfg_classrooms :: "int option"                \<comment> \<open>\<open>config['infrastructure']['classrooms']\<close>\<close>
  cfg_batches :: "int option"                   \<comment> \<open>\<open>config['students']['batches']\<close>\<close>
  cfg_count :: "int option"                     \<comment> \<open>\<open>config['faculty']['count']\<close>\<close>
  cfg_max_load :: "int option"                  \<comment> \<open>\<open>config['faculty']['max_load']\<close>\<close>
  cfg_max_classes_day :: "int option"           \<comment> \<open>\<open>config['academic']['max_classes_day']\<close>\<close>
  cfg_classes_per_week :: "int option"          \<comment> \<open>\<open>config['academic']['classes_per_week']\<close>\<close>
  cfg_days_week :: "int option"                 \<comment> \<open>\<open>config['academic']['days_week']\<close>\<close>
  cfg_academic_not_dict :: bool     \<comment> \<open>\<open>config['academic']\<close> is present and is not a dict\<close>

text \<open>What \<open>request.get_json()\<close> hands to the constructor: a dict, or a JSON value of
  another type (\<open>null\<close>, a number, a string, a list).\<close>

datatype json_value = Not_A_Dict | Dict config_data

record optimizer =
  config :: config_data
  time_slots :: "string list"
  days :: "string list"

definition all_time_slots :: "string list" where
  "all_time_slots = [''9:00-10:00'', ''10:00-11:00'', ''11:15-12:15'', ''12:15-1:15'',
     ''2:15-3:15'', ''3:15-4:15'']"

definition all_days :: "string list" where
  "all_days = [''Monday'', ''Tuesday'', ''Wednesday'', ''Thursday'', ''Friday'', ''Saturday'']"

text \<open>\<open>ScheduleOptimizer.__init__\<close> on a dict: it stores the configuration as it is and
  picks the days. It has no \<open>raise\<close> and no test of the fields; the chained \<open>get\<close> of its
  test on \<open>days_week\<close> raises \<open>AttributeError\<close> when \<open>config['academic']\<close> is not a
  dict.\<close>

definition optimizer_init :: "config_data \<Rightarrow> error + optimizer" where
  "optimizer_init config_data =
     (if cfg_academic_not_dict config_data then Inl AttributeError
      else Inr \<lparr>config = config_data,
          time_slots = all_time_slots,
          days = (if cfg_days_week config_data = Some 5 then take 5 all_days else all_days)\<rparr>)"

text \<open>The constructor on any JSON value: a value that is not a dict has no \<open>get\<close>, so
  the same test raises \<open>AttributeError\<close>.\<close>

definition new_optimizer :: "json_value \<Rightarrow> error + optimizer" where
  "new_optimizer v = (case v of Not_A_Dict \<Rightarrow> Inl AttributeError | Dict c \<Rightarrow> optimizer_init c)"

text \<open>The reads of the configuration at the head of \<open>generate_optimized_schedule\<close>,
  each with the default of its \<open>get\<close>.\<close>

definition get_default :: "'a option \<Rightarrow> 'a \<Rightarrow> 'a" where
  "get_default v d = (case v of None \<Rightarrow> d | Some x \<Rightarrow> x)"

definition subjects :: "config_data \<Rightarrow> string list" where
  "subjects c = get_default (cfg_subject_list c)
     [''Math'', ''Physics'', ''Chemistry'', ''CS'', ''English'']"

definition classrooms :: "config_data \<Rightarrow> int" where
  "classrooms c = get_default (cfg_classrooms c) 10"

definition batches :: "config_data \<Rightarrow> int" where
  "batches c = get_default (cfg_batches c) 15"

definition faculty_count :: "config_data \<Rightarrow> int" where
  "faculty_count c = get_default (cfg_count c) 30"

definition max_classes_per_day :: "config_data \<Rightarrow> int" where
  "max_classes_per_day c = get_default (cfg_max_classes_day c) 8"

definition classes_per_week :: "config_data \<Rightarrow> int" where
  "classes_per_week c = get_default (cfg_classes_per_week c) 4"

definition max_daily_load :: "config_data \<Rightarrow> int" where
  "max_daily_load c = get_default (cfg_max_load c) 6"

definition faculty_names :: "string list" where
  "faculty_names = map (\<lambda>name. ''Dr. '' @ name)
     [''Smith'', ''Johnson'', ''Williams'', ''Brown'', ''Davis'', ''Wilson'',
      ''Miller'', ''Moore'', ''Taylor'', ''Anderson'', ''Thomas'', ''Jackson'',
      ''White'', ''Harris'', ''Martin'', ''Thompson'', ''Garcia'', ''Martinez'']"

text \<open>Python's slice \<open>xs[:n]\<close>: a negative \<open>n\<close> counts from the end.\<close>

definition slice_to :: "'a list \<Rightarrow> int \<Rightarrow> 'a list" where
  "slice_to xs n = (if 0 \<le> n then take (nat n) xs else take (nat (int (length xs) + n)) xs)"

definition faculty_pool :: "config_data \<Rightarrow> string list" where
  "faculty_pool c = slice_to faculty_names (faculty_count c)"

text \<open>The validation that the specification describes for a Configuration, written
  from its words, for comparison with \<open>optimizer_init\<close>: an empty subject list or a
  negative numeric field is an \<open>InvalidConfigError\<close>.\<close>

definition spec_negative :: "int option \<Rightarrow> bool" where
  "spec_negative v = (case v of None \<Rightarrow> False | Some n \<Rightarrow> n < 0)"

definition spec_build_configuration :: "config_data \<Rightarrow> error + optimizer" where
  "spec_build_configuration raw =
     (if cfg_subject_list raw = Some [] \<or> spec_negative (cfg_classrooms raw)
         \<or> spec_negative (cfg_batches raw) \<or> spec_negative (cfg_count raw)
         \<or> spec_negative (cfg_max_load raw) \<or> spec_negative (cfg_classes_per_week raw)
         \<or> spec_negative (cfg_days_week raw)
      then Inl InvalidConfigError
      else optimizer_init raw)"

subsection \<open>Sessions, rejected attempts, metrics\<close>

record session =
  subject :: string
  room :: string
  batch :: string
  faculty :: string

record conflict =
  conflict_subject :: string
  conflict_day :: string
  conflict_slot :: string
  reasons :: "string list"

record metrics =
  classroom_utilization :: rat
  faculty_load_balance :: rat
  conflict_count :: int
  optimization_score :: rat
  total_classes_scheduled :: int
  faculty_utilization :: rat

subsection \<open>The suggestion generator\<close>

definition suggestion_utilization :: string where
  "suggestion_utilization =
     ''Consider reducing the number of classrooms or increasing class frequency''"

definition suggestion_balance :: string where
  "suggestion_balance = ''Redistribute faculty workload for better balance''"

definition suggestion_conflicts :: string where
  "suggestion_conflicts = ''Review and resolve scheduling conflicts manually''"

definition suggestion_score :: string where
  "suggestion_score = ''Consider adjusting time slots or adding more resources''"

text \<open>\<open>suggest_improvements\<close> reads only \<open>timetable['metrics']\<close>; the list
  \<open>suggestions\<close> grows by one \<open>append\<close> per test that holds.\<close>

definition suggest_improvements :: "metrics \<Rightarrow> string list" where
  "suggest_improvements m =
     (let suggestions = [];
          suggestions = (if classroom_utilization m < 70
                         then suggestions @ [suggestion_utilization] else suggestions);
          suggestions = (if faculty_load_balance m < 80
                         then suggestions @ [suggestion_balance] else suggestions);
          suggestions = (if conflict_count m > 5
                         then suggestions @ [suggestion_conflicts] else suggestions);
          suggestions = (if optimization_score m < 85
                         then suggestions @ [suggestion_score] else suggestions)
      in suggestions)"

text \<open>The metrics that make exactly a chosen set of the four tests hold.\<close>

definition metrics_firing :: "bool \<Rightarrow> bool \<Rightarrow> bool \<Rightarrow> bool \<Rightarrow> metrics" where
  "metrics_firing u b c s =
     \<lparr>classroom_utilization = (if u then 50 else 90),
      faculty_load_balance = (if b then 60 else 90),
      conflict_count = (if c then 10 else 2),
      optimization_score = (if s then 70 else 90),
      total_classes_scheduled = 0,
      faculty_utilization = 0\<rparr>"

subsection \<open>The random source\<close>

type_synonym random_source = "nat \<Rightarrow> nat"

definition next_random :: "random_source \<Rightarrow> nat \<times> random_source" where
  "next_random g = (g 0, \<lambda>n. g (Suc n))"

text \<open>\<open>random.choice(seq)\<close> raises \<open>IndexError\<close> on an empty sequence.\<close>

definition random_choice :: "'a list \<Rightarrow> random_source \<Rightarrow> error + ('a \<times> random_source)" where
  "random_choice seq g =
     (if seq = [] then Inl IndexError
      else (case next_random g of (r, g') \<Rightarrow> Inr (seq ! (r mod length seq), g')))"

text \<open>\<open>random.randint(a, b)\<close> returns some \<open>a \<le> n \<le> b\<close> and raises \<open>ValueError\<close>
  when there is none.\<close>

definition random_randint :: "int \<Rightarrow> int \<Rightarrow> random_source \<Rightarrow> error + (int \<times> random_source)" where
  "random_randint a b g =
     (if b < a then Inl ValueError
      else (case next_random g of (r, g') \<Rightarrow> Inr (a + int (r mod nat (b - a + 1)), g')))"

subsection \<open>Formatting numbers\<close>

definition digit_char :: "nat \<Rightarrow> char" where
  "digit_char d = ''0123456789'' ! d"

fun str_nat :: "nat \<Rightarrow> string" where
  "str_nat n = (if n < 10 then [digit_char n] else str_nat (n div 10) @ [digit_char (n mod 10)])"

declare str_nat.simps [simp del]

text \<open>What an f-string makes of an integer.\<close>

definition str_int :: "int \<Rightarrow> string" where
  "str_int i = (if i < 0 then CHR ''-'' # str_nat (nat (- i)) else str_nat (nat i))"

subsection \<open>The state of one run\<close>

type_synonym cell = "(string \<times> session) list"

text \<open>The local variables of \<open>generate_optimized_schedule\<close> that the loops change.
  The dictionaries that are only indexed are maps; \<open>faculty_load\<close> and the innermost
  dictionary of \<open>schedule\<close> are iterated as well, so they are association lists in
  insertion order, updated with \<open>AList.update\<close> as a \<open>dict\<close> assignment does.\<close>

record state =
  schedule :: "string \<rightharpoonup> (string \<rightharpoonup> cell)"
  room_usage :: "string \<rightharpoonup> (string \<rightharpoonup> string set)"
  batch_schedule :: "string \<rightharpoonup> (string \<rightharpoonup> string set)"
  faculty_load :: "(string \<times> (string \<times> int) list) list"
  conflicts :: "conflict list"
  total_scheduled :: int                       \<comment> \<open>\<open>total_classes_scheduled\<close>\<close>
  rng :: random_source

record timetable =
  tt_id :: int
  tt_name :: string
  tt_schedule :: "string \<rightharpoonup> (string \<rightharpoonup> cell)"
  tt_metrics :: metrics
  tt_conflicts :: "conflict list"

text \<open>\<open>d[k]\<close> on a dictionary raises \<open>KeyError\<close> for a missing key.\<close>

definition dict_get :: "('k \<rightharpoonup> 'v) \<Rightarrow> 'k \<Rightarrow> error + 'v" where
  "dict_get m k = (case m k of None \<Rightarrow> Inl KeyError | Some v \<Rightarrow> Inr v)"

definition alist_get :: "('k \<times> 'v) list \<Rightarrow> 'k \<Rightarrow> error + 'v" where
  "alist_get al k = dict_get (map_of al) k"

text \<open>A dictionary filled by assignments in the order of a list.\<close>

definition dict_of_list :: "('k \<times> 'v) list \<Rightarrow> ('k \<times> 'v) list" where
  "dict_of_list kvs = foldl (\<lambda>al (k, v). AList.update k v al) [] kvs"

definition initial_state :: "optimizer \<Rightarrow> random_source \<Rightarrow> state" where
  "initial_state opt g =
     \<lparr>schedule = map_of (map (\<lambda>day. (day, Map.empty)) (days opt)),
      room_usage = map_of (map (\<lambda>day.
          (day, map_of (map (\<lambda>slot. (slot, {})) (time_slots opt)))) (days opt)),
      batch_schedule = map_of (map (\<lambda>day.
          (day, map_of (map (\<lambda>slot. (slot, {})) (time_slots opt)))) (days opt)),
      faculty_load = dict_of_list (map (\<lambda>faculty.
          (faculty, dict_of_list (map (\<lambda>day. (day, 0)) (days opt))))
          (faculty_pool (config opt))),
      conflicts = [],
      total_scheduled = 0,
      rng = g\<rparr>"

subsection \<open>One placement attempt\<close>

text \<open>The five random draws of an attempt, in the order of the source: day, slot,
  room number, batch number, faculty. The result is
  \<open>(day, slot, room_name, batch_name, faculty)\<close>.\<close>

type_synonym draw = "string \<times> string \<times> string \<times> string \<times> string"

definition draw_candidate :: "optimizer \<Rightarrow> random_source \<Rightarrow> error + (draw \<times> random_source)" where
  "draw_candidate opt g =
     (case random_choice (days opt) g of Inl e \<Rightarrow> Inl e | Inr (day, g1) \<Rightarrow>
      case random_choice (time_slots opt) g1 of Inl e \<Rightarrow> Inl e | Inr (slot, g2) \<Rightarrow>
      case random_randint 1 (classrooms (config opt)) g2 of Inl e \<Rightarrow> Inl e | Inr (room_num, g3) \<Rightarrow>
      case random_randint 1 (batches (config opt)) g3 of Inl e \<Rightarrow> Inl e | Inr (batch_num, g4) \<Rightarrow>
      case random_choice (faculty_pool (config opt)) g4 of Inl e \<Rightarrow> Inl e | Inr (fac, g5) \<Rightarrow>
        Inr ((day, slot, ''Room '' @ str_int room_num, ''Batch '' @ str_int batch_num, fac), g5))"

text \<open>The scan of the sessions already in the slot for the drawn faculty.\<close>

definition faculty_busy :: "state \<Rightarrow> string \<Rightarrow> string \<Rightarrow> string \<Rightarrow> bool" where
  "faculty_busy st day slot fac =
     (case schedule st day of None \<Rightarrow> False
      | Some sd \<Rightarrow> (case sd slot of None \<Rightarrow> False
          | Some c \<Rightarrow> list_ex (\<lambda>existing_class. faculty existing_class = fac) (map snd c)))"

text \<open>The four checks; the result is \<open>(can_schedule, conflict_reasons)\<close>.\<close>

definition check_constraints :: "optimizer \<Rightarrow> state \<Rightarrow> draw \<Rightarrow> error + (bool \<times> string list)" where
  "check_constraints opt st dr =
     (case dr of (day, slot, room_name, batch_name, fac) \<Rightarrow>
      case dict_get (room_usage st) day of Inl e \<Rightarrow> Inl e | Inr ru_day \<Rightarrow>
      case dict_get ru_day slot of Inl e \<Rightarrow> Inl e | Inr rooms \<Rightarrow>
      case dict_get (batch_schedule st) day of Inl e \<Rightarrow> Inl e | Inr bs_day \<Rightarrow>
      case dict_get bs_day slot of Inl e \<Rightarrow> Inl e | Inr bs \<Rightarrow>
      case alist_get (faculty_load st) fac of Inl e \<Rightarrow> Inl e | Inr fl_fac \<Rightarrow>
      case alist_get fl_fac day of Inl e \<Rightarrow> Inl e | Inr load \<Rightarrow>
        (let (can_schedule, conflict_reasons) = (True, []);
             (can_schedule, conflict_reasons) =
               (if room_name \<in> rooms then (False, conflict_reasons @ [''Room occupied''])
                else (can_schedule, conflict_reasons));
             (can_schedule, conflict_reasons) =
               (if batch_name \<in> bs then (False, conflict_reasons @ [''Batch has another class''])
                else (can_schedule, conflict_reasons));
             (can_schedule, conflict_reasons) =
               (if load \<ge> max_daily_load (config opt)
                then (False, conflict_reasons @ [''Faculty overloaded''])
                else (can_schedule, conflict_reasons));
             (can_schedule, conflict_reasons) =
               (if faculty_busy st day slot fac
                then (False, conflict_reasons @ [''Faculty conflict''])
                else (can_schedule, conflict_reasons))
         in Inr (can_schedule, conflict_reasons)))"

definition class_id :: "string \<Rightarrow> string \<Rightarrow> string \<Rightarrow> string" where
  "class_id subj batch_name room_name = subj @ ''_'' @ batch_name @ ''_'' @ room_name"

text \<open>The branch that adds the class and updates the tracking structures.\<close>

definition commit :: "string \<Rightarrow> draw \<Rightarrow> state \<Rightarrow> error + state" where
  "commit subj dr st =
     (case dr of (day, slot, room_name, batch_name, fac) \<Rightarrow>
      case dict_get (schedule st) day of Inl e \<Rightarrow> Inl e | Inr sd \<Rightarrow>
      case dict_get (room_usage st) day of Inl e \<Rightarrow> Inl e | Inr ru_day \<Rightarrow>
      case dict_get ru_day slot of Inl e \<Rightarrow> Inl e | Inr rooms \<Rightarrow>
      case dict_get (batch_schedule st) day of Inl e \<Rightarrow> Inl e | Inr bs_day \<Rightarrow>
      case dict_get bs_day slot of Inl e \<Rightarrow> Inl e | Inr bs \<Rightarrow>
      case alist_get (faculty_load st) fac of Inl e \<Rightarrow> Inl e | Inr fl_fac \<Rightarrow>
      case alist_get fl_fac day of Inl e \<Rightarrow> Inl e | Inr load \<Rightarrow>
        (let c = (case sd slot of None \<Rightarrow> [] | Some c \<Rightarrow> c);
             c' = AList.update (class_id subj batch_name room_name)
                    \<lparr>subject = subj, room = room_name, batch = batch_name, faculty = fac\<rparr> c
         in Inr (st\<lparr>schedule := (schedule st)(day \<mapsto> sd(slot \<mapsto> c')),
                   room_usage := (room_usage st)(day \<mapsto> ru_day(slot \<mapsto> insert room_name rooms)),
                   batch_schedule :=
                     (batch_schedule st)(day \<mapsto> bs_day(slot \<mapsto> insert batch_name bs)),
                   faculty_load :=
                     AList.update fac (AList.update day (load + 1) fl_fac) (faculty_load st),
                   total_scheduled := total_scheduled st + 1\<rparr>)))"

text \<open>One pass through the body of the \<open>while\<close> loop, after \<open>attempts += 1\<close>. The
  result says whether a class was placed.\<close>

definition attempt :: "optimizer \<Rightarrow> string \<Rightarrow> state \<Rightarrow> error + (bool \<times> state)" where
  "attempt opt subj st =
     (case draw_candidate opt (rng st) of Inl e \<Rightarrow> Inl e | Inr (dr, g') \<Rightarrow>
      case check_constraints opt (st\<lparr>rng := g'\<rparr>) dr of Inl e \<Rightarrow> Inl e
      | Inr (can_schedule, conflict_reasons) \<Rightarrow>
          if can_schedule
          then (case commit subj dr (st\<lparr>rng := g'\<rparr>) of Inl e \<Rightarrow> Inl e
                | Inr st' \<Rightarrow> Inr (True, st'))
          else Inr (False, st\<lparr>rng := g',
                 conflicts := conflicts st @
                   [\<lparr>conflict_subject = subj, conflict_day = fst dr,
                     conflict_slot = fst (snd dr), reasons = conflict_reasons\<rparr>]\<rparr>))"

subsection \<open>The loops\<close>

text \<open>The \<open>while\<close> loop of one subject. It returns the final values of
  \<open>classes_scheduled_for_subject\<close> and \<open>attempts\<close> with the state.\<close>

function place_subject ::
  "optimizer \<Rightarrow> string \<Rightarrow> int \<Rightarrow> nat \<Rightarrow> state \<Rightarrow> error + (int \<times> nat \<times> state)" where
  "place_subject opt subj classes_scheduled_for_subject attempts st =
     (if classes_scheduled_for_subject < classes_per_week (config opt) \<and> attempts < 100
      then (case attempt opt subj st of Inl e \<Rightarrow> Inl e
            | Inr (placed, st') \<Rightarrow>
                place_subject opt subj
                  (if placed then classes_scheduled_for_subject + 1
                   else classes_scheduled_for_subject)
                  (attempts + 1) st')
      else Inr (classes_scheduled_for_subject, attempts, st))"
  by pat_completeness auto
termination
  by (relation "measure (\<lambda>(opt, subj, c, attempts, st). 100 - attempts)") auto

declare place_subject.simps [simp del]

text \<open>The \<open>for\<close> loop over the subjects.\<close>

fun schedule_subjects :: "optimizer \<Rightarrow> string list \<Rightarrow> state \<Rightarrow> error + state" where
  "schedule_subjects opt [] st = Inr st"
| "schedule_subjects opt (subj # rest) st =
     (case place_subject opt subj 0 0 st of Inl e \<Rightarrow> Inl e
      | Inr (c, a, st') \<Rightarrow> schedule_subjects opt rest st')"

subsection \<open>Floating-point numbers\<close>

text \<open>
  A binary64 number has a significand of 53 bits; below \<open>2 ^ -1022\<close> the numbers are the
  multiples of \<open>2 ^ -1074\<close>. A float is modelled by the rational it denotes, the two
  zeros by \<open>0\<close>. An operation of the arithmetic returns the float nearest to its exact
  result, a tie going to the even significand: \<open>nearest_float\<close> of the exact result.
  Magnitudes of \<open>2 ^ 1024\<close> and more have no float; the quantities of a run, which are
  bounded by 100 times the number of sessions, stay far below.
\<close>

definition pow2 :: "int \<Rightarrow> rat" where
  "pow2 k = (if 0 \<le> k then 2 ^ nat k else 1 / 2 ^ nat (- k))"

text \<open>For \<open>x > 0\<close>, the exponent \<open>e\<close> with \<open>2 ^ e \<le> x < 2 ^ (e + 1)\<close>, from the bit lengths
  of numerator and denominator.\<close>

definition floor_log2 :: "rat \<Rightarrow> int" where
  "floor_log2 x =
     (case quotient_of x of (p, q) \<Rightarrow>
        (let d = bitlen p - bitlen q in if pow2 d \<le> x then d else d - 1))"

text \<open>Rounding to an integer, a tie to the even neighbour.\<close>

definition round_half_even :: "rat \<Rightarrow> int" where
  "round_half_even x =
     (let f = \<lfloor>x\<rfloor>; d = x - of_int f
      in if d < 1 / 2 then f else if 1 / 2 < d then f + 1 else if even f then f else f + 1)"

text \<open>Rounding to the nearest binary64 number: to a multiple of the unit in the last
  place of \<open>x\<close>.\<close>

definition nearest_float :: "rat \<Rightarrow> rat" where
  "nearest_float x =
     (if x = 0 then 0
      else (let ulp = pow2 (max (floor_log2 \<bar>x\<bar> - 52) (- 1074))
            in of_int (round_half_even (x / ulp)) * ulp))"

definition fmul :: "rat \<Rightarrow> rat \<Rightarrow> rat" where
  "fmul x y = nearest_float (x * y)"

definition fadd :: "rat \<Rightarrow> rat \<Rightarrow> rat" where
  "fadd x y = nearest_float (x + y)"

text \<open>The conversion of an \<open>int\<close> operand of a float operation.\<close>

definition float_of_int :: "int \<Rightarrow> rat" where
  "float_of_int n = nearest_float (of_int n)"

text \<open>The true division \<open>a / b\<close> of two integers: the float nearest to the quotient.\<close>

definition true_div :: "int \<Rightarrow> int \<Rightarrow> error + rat" where
  "true_div a b =
     (if b = 0 then Inl ZeroDivisionError else Inr (nearest_float (of_int a / of_int b)))"

text \<open>\<open>round(x, 1)\<close> of a float: the decimal with one place nearest to \<open>x\<close>, a tie to the
  even digit, and then the float nearest to that decimal. \<open>round(n, 1)\<close> of an \<open>int\<close> is
  \<open>n\<close>.\<close>

definition round1 :: "rat \<Rightarrow> rat" where
  "round1 x = nearest_float (of_int (round_half_even (x * 10)) / 10)"

definition round1_int :: "int \<Rightarrow> int" where
  "round1_int n = n"

subsection \<open>Metrics\<close>

text \<open>\<open>sum(len(room_usage[day][slot]) for day in self.days for slot in self.time_slots)\<close>,
  over the pairs in that order.\<close>

fun sum_room_usage ::
  "(string \<rightharpoonup> (string \<rightharpoonup> string set)) \<Rightarrow> (string \<times> string) list \<Rightarrow> error + int" where
  "sum_room_usage ru [] = Inr 0"
| "sum_room_usage ru ((day, slot) # rest) =
     (case dict_get ru day of Inl e \<Rightarrow> Inl e | Inr ru_day \<Rightarrow>
      case dict_get ru_day slot of Inl e \<Rightarrow> Inl e | Inr rooms \<Rightarrow>
      case sum_room_usage ru rest of Inl e \<Rightarrow> Inl e | Inr n \<Rightarrow> Inr (int (card rooms) + n))"

definition total_possible_slots :: "optimizer \<Rightarrow> int" where
  "total_possible_slots opt =
     int (length (days opt)) * int (length (time_slots opt)) * classrooms (config opt)"

text \<open>\<open>(sum(...) / total_possible_slots) * 100\<close>: a true division of two integers, and
  a float product with \<open>100.0\<close>.\<close>

definition classroom_utilization_raw :: "optimizer \<Rightarrow> state \<Rightarrow> error + rat" where
  "classroom_utilization_raw opt st =
     (case sum_room_usage (room_usage st) (List.product (days opt) (time_slots opt)) of
        Inl e \<Rightarrow> Inl e
      | Inr n \<Rightarrow> (case true_div n (total_possible_slots opt) of Inl e \<Rightarrow> Inl e
                  | Inr q \<Rightarrow> Inr (fmul q 100)))"

definition faculty_loads :: "state \<Rightarrow> int list" where
  "faculty_loads st = map (\<lambda>(f, fl_f). sum_list (map snd fl_f)) (faculty_load st)"

text \<open>\<open>max\<close> and \<open>min\<close> of a list that is not empty.\<close>

definition max_list :: "int list \<Rightarrow> int" where
  "max_list xs = foldl max (hd xs) (tl xs)"

definition min_list :: "int list \<Rightarrow> int" where
  "min_list xs = foldl min (hd xs) (tl xs)"

definition faculty_balance :: "state \<Rightarrow> int" where
  "faculty_balance st =
     (if faculty_loads st \<noteq> []
      then (let load_variance = max_list (faculty_loads st) - min_list (faculty_loads st)
            in max 0 (100 - load_variance * 5))
      else 100)"

definition conflict_count_raw :: "state \<Rightarrow> int" where
  "conflict_count_raw st = int (length (conflicts st))"

text \<open>The score: three float products, added from the left. The literals \<open>0.3\<close> and
  \<open>0.4\<close> are the floats nearest to them, and an integer factor is converted to a float
  first.\<close>

definition optimization_score_raw :: "rat \<Rightarrow> int \<Rightarrow> int \<Rightarrow> rat" where
  "optimization_score_raw utilization balance n_conflicts =
     fadd (fadd (fmul utilization (nearest_float (3 / 10)))
                (fmul (float_of_int balance) (nearest_float (3 / 10))))
          (fmul (float_of_int (max 0 (100 - n_conflicts * 5))) (nearest_float (4 / 10)))"

text \<open>\<open>sum(faculty_loads) / len(faculty_loads) if faculty_loads else 0\<close>.\<close>

definition faculty_utilization_raw :: "state \<Rightarrow> error + rat" where
  "faculty_utilization_raw st =
     (if faculty_loads st \<noteq> []
      then true_div (sum_list (faculty_loads st)) (int (length (faculty_loads st)))
      else Inr 0)"

text \<open>The dictionary \<open>metrics\<close>. The balance is an integer, which \<open>round\<close> returns as
  it is; so it does the \<open>0\<close> of an empty pool, which is \<open>round1 0\<close> as well.\<close>

definition compute_metrics :: "optimizer \<Rightarrow> state \<Rightarrow> error + metrics" where
  "compute_metrics opt st =
     (case classroom_utilization_raw opt st of Inl e \<Rightarrow> Inl e
      | Inr utilization \<Rightarrow>
      case faculty_utilization_raw st of Inl e \<Rightarrow> Inl e
      | Inr mean_load \<Rightarrow>
          Inr \<lparr>classroom_utilization = round1 utilization,
               faculty_load_balance = of_int (round1_int (faculty_balance st)),
               conflict_count = conflict_count_raw st,
               optimization_score = round1 (optimization_score_raw utilization
                  (faculty_balance st) (conflict_count_raw st)),
               total_classes_scheduled = total_scheduled st,
               faculty_utilization = round1 mean_load\<rparr>)"

subsection \<open>The whole run\<close>

definition final_state :: "optimizer \<Rightarrow> random_source \<Rightarrow> error + state" where
  "final_state opt g = schedule_subjects opt (subjects (config opt)) (initial_state opt g)"

text \<open>\<open>generate_optimized_schedule\<close>. The reads of \<open>'academic'\<close> at its head are the
  chained \<open>get\<close> of the constructor again, and raise as it does on an entry that is not
  a dict (which no optimizer that the constructor returned holds).\<close>

definition generate_optimized_schedule ::
  "optimizer \<Rightarrow> int \<Rightarrow> random_source \<Rightarrow> error + timetable" where
  "generate_optimized_schedule opt option_num g =
     (if cfg_academic_not_dict (config opt) then Inl AttributeError
      else
      case final_state opt g of Inl e \<Rightarrow> Inl e
      | Inr st \<Rightarrow> (case compute_metrics opt st of Inl e \<Rightarrow> Inl e
          | Inr m \<Rightarrow> Inr \<lparr>tt_id = option_num,
                          tt_name = ''Timetable Option '' @ str_int option_num,
                          tt_schedule = schedule st,
                          tt_metrics = m,
                          tt_conflicts = conflicts st\<rparr>))"

text \<open>The two steps of a caller: build the optimizer, generate one candidate.\<close>

definition run :: "config_data \<Rightarrow> int \<Rightarrow> random_source \<Rightarrow> error + timetable" where
  "run c option_num g =
     (case optimizer_init c of Inl e \<Rightarrow> Inl e
      | Inr opt \<Rightarrow> generate_optimized_schedule opt option_num g)"

subsection \<open>Notions used in the properties\<close>

text \<open>The characters of a decimal numeral.\<close>

definition digits :: "char set" where
  "digits = set ''0123456789''"

text \<open>The sessions of the grid at a day and a slot; a missing key is an empty cell.\<close>

definition cell_at :: "(string \<rightharpoonup> (string \<rightharpoonup> cell)) \<Rightarrow> string \<Rightarrow> string \<Rightarrow> cell" where
  "cell_at sched day slot =
     (case sched day of None \<Rightarrow> []
      | Some sd \<Rightarrow> (case sd slot of None \<Rightarrow> [] | Some c \<Rightarrow> c))"

text \<open>The set that a tracking structure holds at a day and a slot.\<close>

definition set_at :: "(string \<rightharpoonup> (string \<rightharpoonup> string set)) \<Rightarrow> string \<Rightarrow> string \<Rightarrow> string set" where
  "set_at ru day slot =
     (case ru day of None \<Rightarrow> {}
      | Some ru_day \<Rightarrow> (case ru_day slot of None \<Rightarrow> {} | Some x \<Rightarrow> x))"

text \<open>The running count of a faculty member on a day.\<close>

definition load_at :: "(string \<times> (string \<times> int) list) list \<Rightarrow> string \<Rightarrow> string \<Rightarrow> int" where
  "load_at fl fac day =
     (case map_of fl fac of None \<Rightarrow> 0
      | Some fl_fac \<Rightarrow> (case map_of fl_fac day of None \<Rightarrow> 0 | Some n \<Rightarrow> n))"

text \<open>The room and batch names that a draw can produce.\<close>

definition is_room_name :: "string \<Rightarrow> bool" where
  "is_room_name r = (take 5 r = ''Room '' \<and> set (drop 5 r) \<subseteq> digits)"

definition is_batch_name :: "string \<Rightarrow> bool" where
  "is_batch_name b = (take 6 b = ''Batch '' \<and> set (drop 6 b) \<subseteq> digits)"

text \<open>Every key that the loops look up is present.\<close>

definition keys_ok :: "optimizer \<Rightarrow> state \<Rightarrow> bool" where
  "keys_ok opt st =
     ((\<forall>d \<in> set (days opt). schedule st d \<noteq> None) \<and>
      (\<forall>d \<in> set (days opt). \<forall>s \<in> set (time_slots opt).
          \<exists>ru_day x. room_usage st d = Some ru_day \<and> ru_day s = Some x) \<and>
      (\<forall>d \<in> set (days opt). \<forall>s \<in> set (time_slots opt).
          \<exists>bs_day x. batch_schedule st d = Some bs_day \<and> bs_day s = Some x) \<and>
      map fst (faculty_load st) = faculty_pool (config opt) \<and>
      (\<forall>(f, fl_f) \<in> set (faculty_load st). map fst fl_f = days opt))"

text \<open>The number of sessions in the grid, and those of one faculty member on one day.\<close>

definition grid_size :: "(string \<rightharpoonup> (string \<rightharpoonup> cell)) \<Rightarrow> string list \<Rightarrow> string list \<Rightarrow> int" where
  "grid_size sched ds slots =
     sum_list (map (\<lambda>d. sum_list (map (\<lambda>s. int (length (cell_at sched d s))) slots)) ds)"

definition taught_by :: "string \<Rightarrow> cell \<Rightarrow> int" where
  "taught_by f c = int (length (filter (\<lambda>kv. faculty (snd kv) = f) c))"

definition faculty_day_count ::
  "(string \<rightharpoonup> (string \<rightharpoonup> cell)) \<Rightarrow> string list \<Rightarrow> string \<Rightarrow> string \<Rightarrow> int" where
  "faculty_day_count sched slots f d = sum_list (map (\<lambda>s. taught_by f (cell_at sched d s)) slots)"

text \<open>A cell agrees with the occupancy sets of its slot, without repeated room or batch.\<close>

definition cell_ok :: "string set \<Rightarrow> string set \<Rightarrow> cell \<Rightarrow> bool" where
  "cell_ok rooms bs c =
     (rooms = set (map (room \<circ> snd) c) \<and> bs = set (map (batch \<circ> snd) c) \<and>
      distinct (map (room \<circ> snd) c) \<and> distinct (map (batch \<circ> snd) c) \<and>
      (\<forall>kv \<in> set c. fst kv = class_id (subject (snd kv)) (batch (snd kv)) (room (snd kv))
          \<and> is_batch_name (batch (snd kv)) \<and> is_room_name (room (snd kv))))"

definition grid_ok :: "optimizer \<Rightarrow> state \<Rightarrow> bool" where
  "grid_ok opt st =
     (\<forall>d s. cell_ok (set_at (room_usage st) d s) (set_at (batch_schedule st) d s)
               (cell_at (schedule st) d s) \<and>
            (cell_at (schedule st) d s \<noteq> [] \<longrightarrow>
               d \<in> set (days opt) \<and> s \<in> set (time_slots opt)))"

text \<open>The running counts agree with the grid and respect the daily maximum.\<close>

definition load_ok :: "optimizer \<Rightarrow> state \<Rightarrow> bool" where
  "load_ok opt st =
     (\<forall>f d. load_at (faculty_load st) f d =
               faculty_day_count (schedule st) (time_slots opt) f d \<and>
            load_at (faculty_load st) f d \<le> max 0 (max_daily_load (config opt)))"

definition counts_ok :: "optimizer \<Rightarrow> state \<Rightarrow> bool" where
  "counts_ok opt st =
     (total_scheduled st = grid_size (schedule st) (days opt) (time_slots opt) \<and>
      sum_list (faculty_loads st) = total_scheduled st)"

text \<open>The invariant of the placement loops.\<close>

definition run_inv :: "optimizer \<Rightarrow> state \<Rightarrow> bool" where
  "run_inv opt st = (keys_ok opt st \<and> grid_ok opt st \<and> load_ok opt st \<and> counts_ok opt st)"

text \<open>Configurations used as concrete inputs.\<close>

definition example_config :: config_data where
  "example_config =
     \<lparr>cfg_subject_list = Some [''Math''], cfg_classrooms = Some 1,
      cfg_batches = Some 1, cfg_count = Some 1, cfg_max_load = Some 6,
      cfg_max_classes_day = None, cfg_classes_per_week = Some 1, cfg_days_week = None,
      cfg_academic_not_dict = False\<rparr>"

definition example_optimizer :: optimizer where
  "example_optimizer = \<lparr>config = example_config, time_slots = all_time_slots, days = all_days\<rparr>"

text \<open>The weekly session totals of the faculty pool, counted in the grid.\<close>

definition weekly_totals ::
  "(string \<rightharpoonup> (string \<rightharpoonup> cell)) \<Rightarrow> string list \<Rightarrow> string list \<Rightarrow> string list \<Rightarrow> int list" where
  "weekly_totals sched ds slots pool =
     map (\<lambda>f. sum_list (map (\<lambda>d. faculty_day_count sched slots f d) ds)) pool"

definition default_config :: config_data where
  "default_config =
     \<lparr>cfg_subject_list = None, cfg_classrooms = None, cfg_batches = None, cfg_count = None,
      cfg_max_load = None, cfg_max_classes_day = None, cfg_classes_per_week = None,
      cfg_days_week = None, cfg_academic_not_dict = False\<rparr>"

definition two_faculty_config :: config_data where
  "two_faculty_config =
     \<lparr>cfg_subject_list = Some [''Math''], cfg_classrooms = Some 1,
      cfg_batches = Some 1, cfg_count = Some 2, cfg_max_load = Some 6,
      cfg_max_classes_day = None, cfg_classes_per_week = Some 1, cfg_days_week = None,
      cfg_academic_not_dict = False\<rparr>"

definition two_faculty_optimizer :: optimizer where
  "two_faculty_optimizer =
     \<lparr>config = two_faculty_config, time_slots = all_time_slots, days = all_days\<rparr>"

definition five_day_config :: "int \<Rightarrow> int \<Rightarrow> config_data" where
  "five_day_config n_rooms target =
     \<lparr>cfg_subject_list = Some [''Math''], cfg_classrooms = Some n_rooms,
      cfg_batches = Some 1, cfg_count = Some 2, cfg_max_load = Some 6,
      cfg_max_classes_day = None, cfg_classes_per_week = Some target, cfg_days_week = Some 5,
      cfg_academic_not_dict = False\<rparr>"

definition five_day_optimizer :: "int \<Rightarrow> int \<Rightarrow> optimizer" where
  "five_day_optimizer n_rooms target =
     \<lparr>config = five_day_config n_rooms target, time_slots = all_time_slots,
      days = take 5 all_days\<rparr>"

section \<open>Properties\<close>

subsection \<open>Days, names and keys\<close>

lemma optimizer_init_days:
  "optimizer_init c = Inr opt \<Longrightarrow>
     config opt = c \<and> time_slots opt = all_time_slots \<and> distinct (days opt) \<and> days opt \<noteq> []
     \<and> distinct (time_slots opt) \<and> time_slots opt \<noteq> []
     \<and> \<not> cfg_academic_not_dict (config opt)"
  by (auto simp add: optimizer_init_def all_days_def all_time_slots_def split: if_splits)

lemma distinct_faculty_names: "distinct faculty_names"
  by (simp add: faculty_names_def)

lemma distinct_faculty_pool: "distinct (faculty_pool c)"
  by (simp add: faculty_pool_def slice_to_def distinct_faculty_names)

lemma update_fresh: "k \<notin> fst ` set al \<Longrightarrow> AList.update k v al = al @ [(k, v)]"
  by (induction al) auto

lemma foldl_update_distinct:
  "distinct (map fst (acc @ kvs)) \<Longrightarrow>
     foldl (\<lambda>al (k, v). AList.update k v al) acc kvs = acc @ kvs"
proof (induction kvs arbitrary: acc)
  case Nil
  then show ?case by simp
next
  case (Cons kv kvs)
  obtain k v where kv: "kv = (k, v)" by (cases kv)
  from Cons.prems kv have fresh: "k \<notin> fst ` set acc" by auto
  from Cons.prems kv have "distinct (map fst ((acc @ [(k, v)]) @ kvs))" by simp
  from Cons.IH [OF this] show ?case
    by (simp add: kv update_fresh [OF fresh])
qed

lemma dict_of_list_distinct: "distinct (map fst kvs) \<Longrightarrow> dict_of_list kvs = kvs"
  using foldl_update_distinct [of "[]" kvs] by (simp add: dict_of_list_def)

lemma digit_char_digits: "d < 10 \<Longrightarrow> digit_char d \<in> digits"
proof -
  assume "d < 10"
  then have "d \<in> {0, 1, 2, 3, 4, 5, 6, 7, 8, 9}" by auto
  then show ?thesis by (auto simp add: digit_char_def digits_def)
qed

lemma str_nat_digits: "set (str_nat n) \<subseteq> digits"
proof (induction n rule: str_nat.induct)
  case (1 n)
  show ?case
  proof (cases "n < 10")
    case True
    then show ?thesis by (simp add: str_nat.simps [of n] digit_char_digits)
  next
    case False
    with 1 have "set (str_nat (n div 10)) \<subseteq> digits" by simp
    moreover have "digit_char (n mod 10) \<in> digits" by (simp add: digit_char_digits)
    ultimately show ?thesis using False by (simp add: str_nat.simps [of n])
  qed
qed

lemma str_int_digits: "0 \<le> i \<Longrightarrow> set (str_int i) \<subseteq> digits"
  by (simp add: str_int_def str_nat_digits)

lemma takeWhile_until: "sep \<notin> set as \<Longrightarrow> takeWhile (\<lambda>c. c \<noteq> sep) (as @ sep # bs) = as"
  by (induction as) auto

lemma split_last_sep:
  assumes "sep \<notin> set ds" "sep \<notin> set ds'" "xs @ sep # ds = xs' @ sep # ds'"
  shows "xs = xs' \<and> ds = ds'"
proof -
  have "takeWhile (\<lambda>c. c \<noteq> sep) (rev ds @ sep # rev xs) = rev ds" if "sep \<notin> set ds" for ds xs
    using that by (simp add: takeWhile_until)
  moreover have "rev (xs @ sep # ds) = rev (xs' @ sep # ds')" using assms(3) by simp
  then have "rev ds @ sep # rev xs = rev ds' @ sep # rev xs'" by simp
  ultimately have "rev ds = rev ds'" using assms(1,2) by metis
  then have "ds = ds'" by simp
  with assms(3) show ?thesis by simp
qed

lemma space_not_digit: "CHR '' '' \<notin> digits"
  by (simp add: digits_def)

lemma class_id_inject:
  assumes "set db \<subseteq> digits" "set dr \<subseteq> digits" "set db' \<subseteq> digits" "set dr' \<subseteq> digits"
    and "class_id s (''Batch '' @ db) (''Room '' @ dr) = class_id s' (''Batch '' @ db') (''Room '' @ dr')"
  shows "s = s' \<and> db = db' \<and> dr = dr'"
proof -
  have n: "CHR '' '' \<notin> set db" "CHR '' '' \<notin> set dr" "CHR '' '' \<notin> set db'" "CHR '' '' \<notin> set dr'"
    using assms(1-4) space_not_digit by auto
  from assms(5) have "(s @ ''_Batch '' @ db @ ''_Room'') @ CHR '' '' # dr
      = (s' @ ''_Batch '' @ db' @ ''_Room'') @ CHR '' '' # dr'"
    by (simp add: class_id_def)
  from split_last_sep [OF n(2) n(4) this]
  have r: "dr = dr'" and "s @ ''_Batch '' @ db @ ''_Room'' = s' @ ''_Batch '' @ db' @ ''_Room''"
    by simp_all
  then have "(s @ ''_Batch'') @ CHR '' '' # db = (s' @ ''_Batch'') @ CHR '' '' # db'"
    by simp
  from split_last_sep [OF n(1) n(3) this] r show ?thesis by simp
qed

subsection \<open>The random draws\<close>

lemma dict_get_Inr [simp]: "(dict_get m k = Inr v) = (m k = Some v)"
  by (simp add: dict_get_def split: option.splits)

lemma dict_get_Inl [simp]: "(dict_get m k = Inl e) = (m k = None \<and> e = KeyError)"
  by (auto simp add: dict_get_def split: option.splits)

lemma alist_get_Inr [simp]: "(alist_get al k = Inr v) = (map_of al k = Some v)"
  by (simp add: alist_get_def)

lemma alist_get_Inl [simp]: "(alist_get al k = Inl e) = (map_of al k = None \<and> e = KeyError)"
  by (simp add: alist_get_def)

lemma is_room_name_str_int: "0 \<le> n \<Longrightarrow> is_room_name (''Room '' @ str_int n)"
  by (simp add: is_room_name_def str_int_digits)

lemma is_batch_name_str_int: "0 \<le> n \<Longrightarrow> is_batch_name (''Batch '' @ str_int n)"
  by (simp add: is_batch_name_def str_int_digits)

lemma random_choice_Inr: "random_choice seq g = Inr (x, g') \<Longrightarrow> x \<in> set seq"
  by (auto simp add: random_choice_def next_random_def split: if_splits)

lemma random_choice_total: "seq \<noteq> [] \<Longrightarrow> \<exists>x g'. random_choice seq g = Inr (x, g')"
  by (simp add: random_choice_def next_random_def)

lemma random_randint_Inr: "random_randint a b g = Inr (n, g') \<Longrightarrow> a \<le> n \<and> n \<le> b"
proof -
  assume h: "random_randint a b g = Inr (n, g')"
  then have ab: "a \<le> b" by (auto simp add: random_randint_def split: if_splits)
  from h ab have n: "n = a + int (g 0 mod nat (b - a + 1))"
    by (auto simp add: random_randint_def next_random_def)
  have "g 0 mod nat (b - a + 1) < nat (b - a + 1)" using ab by simp
  with n ab show ?thesis by linarith
qed

lemma random_randint_total: "a \<le> b \<Longrightarrow> \<exists>n g'. random_randint a b g = Inr (n, g')"
  by (simp add: random_randint_def next_random_def)

lemma random_randint_empty: "b < a \<Longrightarrow> random_randint a b g = Inl ValueError"
  by (simp add: random_randint_def)

lemma bind_Inr:
  "(case m of Inl e \<Rightarrow> Inl e | Inr x \<Rightarrow> f x) = Inr y \<Longrightarrow> \<exists>x. m = Inr x \<and> f x = Inr y"
  by (cases m) auto

lemma draw_candidate_Inr:
  assumes "draw_candidate opt g = Inr ((d, s, rn, bn, f), g')"
  shows "d \<in> set (days opt) \<and> s \<in> set (time_slots opt) \<and> f \<in> set (faculty_pool (config opt))
     \<and> is_room_name rn \<and> is_batch_name bn"
proof -
  from bind_Inr [OF assms [unfolded draw_candidate_def]]
  obtain d1 g1 where 1: "random_choice (days opt) g = Inr (d1, g1)"
    and r1: "(case random_choice (time_slots opt) g1 of Inl e \<Rightarrow> Inl e | Inr (slot, g2) \<Rightarrow>
      case random_randint 1 (classrooms (config opt)) g2 of Inl e \<Rightarrow> Inl e | Inr (room_num, g3) \<Rightarrow>
      case random_randint 1 (batches (config opt)) g3 of Inl e \<Rightarrow> Inl e | Inr (batch_num, g4) \<Rightarrow>
      case random_choice (faculty_pool (config opt)) g4 of Inl e \<Rightarrow> Inl e | Inr (fac, g5) \<Rightarrow>
        Inr ((d1, slot, ''Room '' @ str_int room_num, ''Batch '' @ str_int batch_num, fac), g5))
      = Inr ((d, s, rn, bn, f), g')"
    by (auto split: prod.splits)
  from bind_Inr [OF r1]
  obtain s1 g2 where 2: "random_choice (time_slots opt) g1 = Inr (s1, g2)"
    and r2: "(case random_randint 1 (classrooms (config opt)) g2 of Inl e \<Rightarrow> Inl e | Inr (room_num, g3) \<Rightarrow>
      case random_randint 1 (batches (config opt)) g3 of Inl e \<Rightarrow> Inl e | Inr (batch_num, g4) \<Rightarrow>
      case random_choice (faculty_pool (config opt)) g4 of Inl e \<Rightarrow> Inl e | Inr (fac, g5) \<Rightarrow>
        Inr ((d1, s1, ''Room '' @ str_int room_num, ''Batch '' @ str_int batch_num, fac), g5))
      = Inr ((d, s, rn, bn, f), g')"
    by (auto split: prod.splits)
  from bind_Inr [OF r2]
  obtain room_num g3 where 3: "random_randint 1 (classrooms (config opt)) g2 = Inr (room_num, g3)"
    and r3: "(case random_randint 1 (batches (config opt)) g3 of Inl e \<Rightarrow> Inl e | Inr (batch_num, g4) \<Rightarrow>
      case random_choice (faculty_pool (config opt)) g4 of Inl e \<Rightarrow> Inl e | Inr (fac, g5) \<Rightarrow>
        Inr ((d1, s1, ''Room '' @ str_int room_num, ''Batch '' @ str_int batch_num, fac), g5))
      = Inr ((d, s, rn, bn, f), g')"
    by (auto split: prod.splits)
  from bind_Inr [OF r3]
  obtain batch_num g4 where 4: "random_randint 1 (batches (config opt)) g3 = Inr (batch_num, g4)"
    and r4: "(case random_choice (faculty_pool (config opt)) g4 of Inl e \<Rightarrow> Inl e | Inr (fac, g5) \<Rightarrow>
        Inr ((d1, s1, ''Room '' @ str_int room_num, ''Batch '' @ str_int batch_num, fac), g5))
      = Inr ((d, s, rn, bn, f), g')"
    by (auto split: prod.splits)
  from bind_Inr [OF r4]
  obtain f1 g5 where 5: "random_choice (faculty_pool (config opt)) g4 = Inr (f1, g5)"
    and r5: "(d1, s1, ''Room '' @ str_int room_num, ''Batch '' @ str_int batch_num, f1) = (d, s, rn, bn, f)"
    by (auto split: prod.splits)
  from r5 have eqs: "d1 = d" "s1 = s" "f1 = f" and
    6: "rn = ''Room '' @ str_int room_num" "bn = ''Batch '' @ str_int batch_num"
    by simp_all
  from 3 4 have "0 \<le> room_num" "0 \<le> batch_num"
    using random_randint_Inr by fastforce+
  then have "is_room_name rn" "is_batch_name bn"
    unfolding 6 by (simp_all only: is_room_name_str_int is_batch_name_str_int)
  with random_choice_Inr [OF 1] random_choice_Inr [OF 2] random_choice_Inr [OF 5] eqs
  show ?thesis by simp
qed

lemma draw_candidate_total:
  assumes "days opt \<noteq> []" "time_slots opt \<noteq> []" "1 \<le> classrooms (config opt)"
    "1 \<le> batches (config opt)" "faculty_pool (config opt) \<noteq> []"
  shows "\<exists>dr g'. draw_candidate opt g = Inr (dr, g')"
proof -
  obtain d g1 where 1: "random_choice (days opt) g = Inr (d, g1)"
    using random_choice_total [OF assms(1)] by blast
  obtain s g2 where 2: "random_choice (time_slots opt) g1 = Inr (s, g2)"
    using random_choice_total [OF assms(2)] by blast
  obtain r g3 where 3: "random_randint 1 (classrooms (config opt)) g2 = Inr (r, g3)"
    using random_randint_total [OF assms(3)] by blast
  obtain b g4 where 4: "random_randint 1 (batches (config opt)) g3 = Inr (b, g4)"
    using random_randint_total [OF assms(4)] by blast
  obtain f g5 where 5: "random_choice (faculty_pool (config opt)) g4 = Inr (f, g5)"
    using random_choice_total [OF assms(5)] by blast
  show ?thesis by (simp add: draw_candidate_def 1 2 3 4 5)
qed

lemma draw_candidate_no_rooms:
  assumes "classrooms (config opt) < 1"
  shows "\<exists>e. draw_candidate opt g = Inl e"
proof (cases "random_choice (days opt) g")
  case (Inl e)
  then show ?thesis by (simp add: draw_candidate_def)
next
  case (Inr a)
  obtain d g1 where a: "a = (d, g1)" by (cases a)
  show ?thesis
  proof (cases "random_choice (time_slots opt) g1")
    case (Inl e)
    then show ?thesis by (simp add: draw_candidate_def Inr a)
  next
    case b: (Inr b)
    obtain s g2 where bb: "b = (s, g2)" by (cases b)
    show ?thesis
      by (simp add: draw_candidate_def Inr a b bb random_randint_empty [OF assms])
  qed
qed

subsection \<open>The four checks\<close>

lemma check_constraints_Inr:
  assumes "check_constraints opt st (d, s, rn, bn, f) = Inr (b, rs)"
  shows "\<exists>ru_day rooms bs_day bs fl_f load.
     room_usage st d = Some ru_day \<and> ru_day s = Some rooms \<and>
     batch_schedule st d = Some bs_day \<and> bs_day s = Some bs \<and>
     map_of (faculty_load st) f = Some fl_f \<and> map_of fl_f d = Some load \<and>
     rs = (if rn \<in> rooms then [''Room occupied''] else []) @
          (if bn \<in> bs then [''Batch has another class''] else []) @
          (if load \<ge> max_daily_load (config opt) then [''Faculty overloaded''] else []) @
          (if faculty_busy st d s f then [''Faculty conflict''] else []) \<and>
     b = (rn \<notin> rooms \<and> bn \<notin> bs \<and> load < max_daily_load (config opt)
          \<and> \<not> faculty_busy st d s f)"
proof -
  from assms obtain ru_day where 1: "room_usage st d = Some ru_day"
    by (cases "room_usage st d") (auto simp add: check_constraints_def dict_get_def)
  from assms 1 obtain rooms where 2: "ru_day s = Some rooms"
    by (cases "ru_day s") (auto simp add: check_constraints_def dict_get_def)
  from assms 1 2 obtain bs_day where 3: "batch_schedule st d = Some bs_day"
    by (cases "batch_schedule st d") (auto simp add: check_constraints_def dict_get_def)
  from assms 1 2 3 obtain bs where 4: "bs_day s = Some bs"
    by (cases "bs_day s") (auto simp add: check_constraints_def dict_get_def)
  from assms 1 2 3 4 obtain fl_f where 5: "map_of (faculty_load st) f = Some fl_f"
    by (cases "map_of (faculty_load st) f")
      (auto simp add: check_constraints_def dict_get_def alist_get_def)
  from assms 1 2 3 4 5 obtain load where 6: "map_of fl_f d = Some load"
    by (cases "map_of fl_f d")
      (auto simp add: check_constraints_def dict_get_def alist_get_def)
  from assms have "rs = (if rn \<in> rooms then [''Room occupied''] else []) @
          (if bn \<in> bs then [''Batch has another class''] else []) @
          (if load \<ge> max_daily_load (config opt) then [''Faculty overloaded''] else []) @
          (if faculty_busy st d s f then [''Faculty conflict''] else []) \<and>
     b = (rn \<notin> rooms \<and> bn \<notin> bs \<and> load < max_daily_load (config opt)
          \<and> \<not> faculty_busy st d s f)"
    unfolding check_constraints_def dict_get_def alist_get_def
    by (simp add: 1 2 3 4 5 6 Let_def split: if_splits)
  with 1 2 3 4 5 6 show ?thesis by blast
qed

lemma check_constraints_reasons:
  "check_constraints opt st dr = Inr (b, rs) \<Longrightarrow> b = (rs = [])"
proof -
  assume h: "check_constraints opt st dr = Inr (b, rs)"
  obtain d s rn bn f where dr: "dr = (d, s, rn, bn, f)" by (cases dr) auto
  from check_constraints_Inr [OF h [unfolded dr]] show ?thesis
    by (auto split: if_splits)
qed

lemma check_constraints_True:
  assumes "check_constraints opt st (d, s, rn, bn, f) = Inr (True, rs)"
  shows "rn \<notin> set_at (room_usage st) d s \<and> bn \<notin> set_at (batch_schedule st) d s
     \<and> load_at (faculty_load st) f d < max_daily_load (config opt)
     \<and> \<not> faculty_busy st d s f"
  using check_constraints_Inr [OF assms]
  by (auto simp add: set_at_def load_at_def)

subsection \<open>Presence of keys\<close>

lemma map_of_keys_Some: "k \<in> set (map fst al) \<Longrightarrow> \<exists>v. map_of al k = Some v \<and> (k, v) \<in> set al"
  by (induction al) auto

lemma keys_ok_schedule:
  "keys_ok opt st \<Longrightarrow> d \<in> set (days opt) \<Longrightarrow> \<exists>sd. schedule st d = Some sd"
  by (auto simp add: keys_ok_def)

lemma keys_ok_room_usage:
  "keys_ok opt st \<Longrightarrow> d \<in> set (days opt) \<Longrightarrow> s \<in> set (time_slots opt) \<Longrightarrow>
     \<exists>ru_day x. room_usage st d = Some ru_day \<and> ru_day s = Some x"
  unfolding keys_ok_def by (elim conjE) (erule ballE, erule ballE, assumption, simp_all)

lemma keys_ok_batch_schedule:
  "keys_ok opt st \<Longrightarrow> d \<in> set (days opt) \<Longrightarrow> s \<in> set (time_slots opt) \<Longrightarrow>
     \<exists>bs_day x. batch_schedule st d = Some bs_day \<and> bs_day s = Some x"
  unfolding keys_ok_def by (elim conjE) (erule_tac x = d in ballE, erule ballE, erule_tac x = d in ballE, erule_tac x = s in ballE, assumption, simp_all)

lemma keys_ok_load:
  assumes "keys_ok opt st" "f \<in> set (faculty_pool (config opt))" "d \<in> set (days opt)"
  shows "\<exists>fl_f n. map_of (faculty_load st) f = Some fl_f \<and> map_of fl_f d = Some n"
proof -
  from assms(1) have k: "map fst (faculty_load st) = faculty_pool (config opt)"
    and i: "\<forall>(f, fl_f) \<in> set (faculty_load st). map fst fl_f = days opt"
    by (simp_all add: keys_ok_def)
  from k assms(2) have "f \<in> set (map fst (faculty_load st))" by simp
  from map_of_keys_Some [OF this] obtain fl_f where
    1: "map_of (faculty_load st) f = Some fl_f" and 2: "(f, fl_f) \<in> set (faculty_load st)"
    by blast
  from i 2 have "map fst fl_f = days opt" by blast
  with assms(3) have "d \<in> set (map fst fl_f)" by simp
  from map_of_keys_Some [OF this] obtain n where "map_of fl_f d = Some n" by blast
  with 1 show ?thesis by blast
qed

lemma check_constraints_total:
  assumes "keys_ok opt st" "d \<in> set (days opt)" "s \<in> set (time_slots opt)"
    "f \<in> set (faculty_pool (config opt))"
  shows "\<exists>b rs. check_constraints opt st (d, s, rn, bn, f) = Inr (b, rs)"
proof -
  from keys_ok_room_usage [OF assms(1-3)] obtain ru_day x where
    1: "room_usage st d = Some ru_day" "ru_day s = Some x" by blast
  from keys_ok_batch_schedule [OF assms(1-3)] obtain bs_day y where
    2: "batch_schedule st d = Some bs_day" "bs_day s = Some y" by blast
  from keys_ok_load [OF assms(1,4,2)] obtain fl_f n where
    3: "map_of (faculty_load st) f = Some fl_f" "map_of fl_f d = Some n" by blast
  show ?thesis
    unfolding check_constraints_def dict_get_def alist_get_def
    by (simp add: 1 2 3 Let_def)
qed

lemma commit_total:
  assumes "keys_ok opt st" "d \<in> set (days opt)" "s \<in> set (time_slots opt)"
    "f \<in> set (faculty_pool (config opt))"
  shows "\<exists>st'. commit subj (d, s, rn, bn, f) st = Inr st'"
proof -
  from keys_ok_schedule [OF assms(1,2)] obtain sd where 0: "schedule st d = Some sd" by blast
  from keys_ok_room_usage [OF assms(1-3)] obtain ru_day x where
    1: "room_usage st d = Some ru_day" "ru_day s = Some x" by blast
  from keys_ok_batch_schedule [OF assms(1-3)] obtain bs_day y where
    2: "batch_schedule st d = Some bs_day" "bs_day s = Some y" by blast
  from keys_ok_load [OF assms(1,4,2)] obtain fl_f n where
    3: "map_of (faculty_load st) f = Some fl_f" "map_of fl_f d = Some n" by blast
  show ?thesis
    unfolding commit_def dict_get_def alist_get_def
    by (simp add: 0 1 2 3 Let_def)
qed

subsection \<open>The effect of a commit\<close>

lemma commit_Inr:
  assumes "commit subj (d, s, rn, bn, f) st = Inr st'"
  shows "\<exists>sd ru_day rooms bs_day bs fl_f load.
     schedule st d = Some sd \<and>
     room_usage st d = Some ru_day \<and> ru_day s = Some rooms \<and>
     batch_schedule st d = Some bs_day \<and> bs_day s = Some bs \<and>
     map_of (faculty_load st) f = Some fl_f \<and> map_of fl_f d = Some load \<and>
     st' = st\<lparr>schedule := (schedule st)(d \<mapsto> sd(s \<mapsto>
                AList.update (class_id subj bn rn)
                  \<lparr>subject = subj, room = rn, batch = bn, faculty = f\<rparr>
                  (case sd s of None \<Rightarrow> [] | Some c \<Rightarrow> c))),
              room_usage := (room_usage st)(d \<mapsto> ru_day(s \<mapsto> insert rn rooms)),
              batch_schedule := (batch_schedule st)(d \<mapsto> bs_day(s \<mapsto> insert bn bs)),
              faculty_load := AList.update f (AList.update d (load + 1) fl_f) (faculty_load st),
              total_scheduled := total_scheduled st + 1\<rparr>"
proof -
  from assms obtain sd where 0: "schedule st d = Some sd"
    by (cases "schedule st d") (auto simp add: commit_def dict_get_def)
  from assms 0 obtain ru_day where 1: "room_usage st d = Some ru_day"
    by (cases "room_usage st d") (auto simp add: commit_def dict_get_def)
  from assms 0 1 obtain rooms where 2: "ru_day s = Some rooms"
    by (cases "ru_day s") (auto simp add: commit_def dict_get_def)
  from assms 0 1 2 obtain bs_day where 3: "batch_schedule st d = Some bs_day"
    by (cases "batch_schedule st d") (auto simp add: commit_def dict_get_def)
  from assms 0 1 2 3 obtain bs where 4: "bs_day s = Some bs"
    by (cases "bs_day s") (auto simp add: commit_def dict_get_def)
  from assms 0 1 2 3 4 obtain fl_f where 5: "map_of (faculty_load st) f = Some fl_f"
    by (cases "map_of (faculty_load st) f")
      (auto simp add: commit_def dict_get_def alist_get_def)
  from assms 0 1 2 3 4 5 obtain load where 6: "map_of fl_f d = Some load"
    by (cases "map_of fl_f d")
      (auto simp add: commit_def dict_get_def alist_get_def)
  from assms have "st' = st\<lparr>schedule := (schedule st)(d \<mapsto> sd(s \<mapsto>
                AList.update (class_id subj bn rn)
                  \<lparr>subject = subj, room = rn, batch = bn, faculty = f\<rparr>
                  (case sd s of None \<Rightarrow> [] | Some c \<Rightarrow> c))),
              room_usage := (room_usage st)(d \<mapsto> ru_day(s \<mapsto> insert rn rooms)),
              batch_schedule := (batch_schedule st)(d \<mapsto> bs_day(s \<mapsto> insert bn bs)),
              faculty_load := AList.update f (AList.update d (load + 1) fl_f) (faculty_load st),
              total_scheduled := total_scheduled st + 1\<rparr>"
    unfolding commit_def dict_get_def alist_get_def
    by (simp add: 0 1 2 3 4 5 6 Let_def)
  with 0 1 2 3 4 5 6 show ?thesis by blast
qed

lemma commit_fields:
  assumes "commit subj (d, s, rn, bn, f) st = Inr st'"
  obtains sd ru_day rooms bs_day bs fl_f load where
     "schedule st d = Some sd"
     "room_usage st d = Some ru_day" "ru_day s = Some rooms"
     "batch_schedule st d = Some bs_day" "bs_day s = Some bs"
     "map_of (faculty_load st) f = Some fl_f" "map_of fl_f d = Some load"
     "schedule st' = (schedule st)(d \<mapsto> sd(s \<mapsto>
                AList.update (class_id subj bn rn)
                  \<lparr>subject = subj, room = rn, batch = bn, faculty = f\<rparr>
                  (case sd s of None \<Rightarrow> [] | Some c \<Rightarrow> c)))"
     "room_usage st' = (room_usage st)(d \<mapsto> ru_day(s \<mapsto> insert rn rooms))"
     "batch_schedule st' = (batch_schedule st)(d \<mapsto> bs_day(s \<mapsto> insert bn bs))"
     "faculty_load st' = AList.update f (AList.update d (load + 1) fl_f) (faculty_load st)"
     "total_scheduled st' = total_scheduled st + 1"
     "conflicts st' = conflicts st" "rng st' = rng st"
proof -
  from commit_Inr [OF assms] obtain sd ru_day rooms bs_day bs fl_f load where
    l: "schedule st d = Some sd"
     "room_usage st d = Some ru_day" "ru_day s = Some rooms"
     "batch_schedule st d = Some bs_day" "bs_day s = Some bs"
     "map_of (faculty_load st) f = Some fl_f" "map_of fl_f d = Some load"
    and e: "st' = st\<lparr>schedule := (schedule st)(d \<mapsto> sd(s \<mapsto>
                AList.update (class_id subj bn rn)
                  \<lparr>subject = subj, room = rn, batch = bn, faculty = f\<rparr>
                  (case sd s of None \<Rightarrow> [] | Some c \<Rightarrow> c))),
              room_usage := (room_usage st)(d \<mapsto> ru_day(s \<mapsto> insert rn rooms)),
              batch_schedule := (batch_schedule st)(d \<mapsto> bs_day(s \<mapsto> insert bn bs)),
              faculty_load := AList.update f (AList.update d (load + 1) fl_f) (faculty_load st),
              total_scheduled := total_scheduled st + 1\<rparr>"
    by blast
  show thesis
    by (rule that [OF l]) (simp_all add: e)
qed

lemma commit_cell_at:
  assumes "commit subj (d, s, rn, bn, f) st = Inr st'"
  shows "cell_at (schedule st') d' s' =
     (if d' = d \<and> s' = s
      then AList.update (class_id subj bn rn)
             \<lparr>subject = subj, room = rn, batch = bn, faculty = f\<rparr> (cell_at (schedule st) d s)
      else cell_at (schedule st) d' s')"
proof -
  from assms obtain sd where
    1: "schedule st d = Some sd" and
    2: "schedule st' = (schedule st)(d \<mapsto> sd(s \<mapsto>
                AList.update (class_id subj bn rn)
                  \<lparr>subject = subj, room = rn, batch = bn, faculty = f\<rparr>
                  (case sd s of None \<Rightarrow> [] | Some c \<Rightarrow> c)))"
    by (rule commit_fields)
  show ?thesis
  proof (cases "d' = d")
    case True
    then show ?thesis by (cases "s' = s") (simp_all add: cell_at_def 1 2)
  next
    case False
    then show ?thesis by (simp add: cell_at_def 2)
  qed
qed

lemma commit_room_usage:
  assumes "commit subj (d, s, rn, bn, f) st = Inr st'"
  shows "set_at (room_usage st') d' s' =
     (if d' = d \<and> s' = s then insert rn (set_at (room_usage st) d s)
      else set_at (room_usage st) d' s')"
proof -
  from assms obtain ru_day rooms where
    1: "room_usage st d = Some ru_day" "ru_day s = Some rooms" and
    2: "room_usage st' = (room_usage st)(d \<mapsto> ru_day(s \<mapsto> insert rn rooms))"
    by (rule commit_fields)
  show ?thesis
  proof (cases "d' = d")
    case True
    then show ?thesis by (cases "s' = s") (simp_all add: set_at_def 1 2)
  next
    case False
    then show ?thesis by (simp add: set_at_def 2)
  qed
qed

lemma commit_batch_schedule:
  assumes "commit subj (d, s, rn, bn, f) st = Inr st'"
  shows "set_at (batch_schedule st') d' s' =
     (if d' = d \<and> s' = s then insert bn (set_at (batch_schedule st) d s)
      else set_at (batch_schedule st) d' s')"
proof -
  from assms obtain bs_day bs where
    1: "batch_schedule st d = Some bs_day" "bs_day s = Some bs" and
    2: "batch_schedule st' = (batch_schedule st)(d \<mapsto> bs_day(s \<mapsto> insert bn bs))"
    by (rule commit_fields)
  show ?thesis
  proof (cases "d' = d")
    case True
    then show ?thesis by (cases "s' = s") (simp_all add: set_at_def 1 2)
  next
    case False
    then show ?thesis by (simp add: set_at_def 2)
  qed
qed

lemma commit_load_at:
  assumes "commit subj (d, s, rn, bn, f) st = Inr st'"
  shows "load_at (faculty_load st') f' d' =
     (if f' = f \<and> d' = d then load_at (faculty_load st) f d + 1
      else load_at (faculty_load st) f' d')"
proof -
  from assms obtain fl_f load where
    1: "map_of (faculty_load st) f = Some fl_f" "map_of fl_f d = Some load" and
    2: "faculty_load st' = AList.update f (AList.update d (load + 1) fl_f) (faculty_load st)"
    by (rule commit_fields)
  show ?thesis
  proof (cases "f' = f")
    case True
    then show ?thesis by (cases "d' = d") (simp_all add: load_at_def 1 2 update_conv')
  next
    case False
    then show ?thesis by (simp add: load_at_def 2 update_conv')
  qed
qed

lemma commit_other:
  assumes "commit subj (d, s, rn, bn, f) st = Inr st'"
  shows "total_scheduled st' = total_scheduled st + 1 \<and> conflicts st' = conflicts st
     \<and> rng st' = rng st"
  using assms by (rule commit_fields) simp

lemma set_update_cases:
  "(k', v') \<in> set (AList.update k v al) \<Longrightarrow> (k', v') \<in> set al \<or> (k' = k \<and> v' = v)"
  by (induction al) (auto split: if_splits)

lemma map_of_in_keys: "map_of al k = Some v \<Longrightarrow> k \<in> set (map fst al)"
  by (induction al) (auto split: if_splits)

lemma commit_keys_ok:
  assumes c: "commit subj (d, s, rn, bn, f) st = Inr st'" and k: "keys_ok opt st"
  shows "keys_ok opt st'"
proof -
  from c obtain sd ru_day rooms bs_day bs fl_f load where
    l: "schedule st d = Some sd" "room_usage st d = Some ru_day" "ru_day s = Some rooms"
       "batch_schedule st d = Some bs_day" "bs_day s = Some bs"
       "map_of (faculty_load st) f = Some fl_f" "map_of fl_f d = Some load"
    and st': "schedule st' = (schedule st)(d \<mapsto> sd(s \<mapsto>
                AList.update (class_id subj bn rn)
                  \<lparr>subject = subj, room = rn, batch = bn, faculty = f\<rparr>
                  (case sd s of None \<Rightarrow> [] | Some c \<Rightarrow> c)))"
      "room_usage st' = (room_usage st)(d \<mapsto> ru_day(s \<mapsto> insert rn rooms))"
      "batch_schedule st' = (batch_schedule st)(d \<mapsto> bs_day(s \<mapsto> insert bn bs))"
      "faculty_load st' = AList.update f (AList.update d (load + 1) fl_f) (faculty_load st)"
    by (rule commit_fields)
  have 1: "\<forall>d' \<in> set (days opt). schedule st' d' \<noteq> None"
    using k by (simp add: keys_ok_def st')
  have 2: "\<forall>d' \<in> set (days opt). \<forall>s' \<in> set (time_slots opt).
          \<exists>ru_day x. room_usage st' d' = Some ru_day \<and> ru_day s' = Some x"
  proof (intro ballI)
    fix d' s' assume "d' \<in> set (days opt)" "s' \<in> set (time_slots opt)"
    from keys_ok_room_usage [OF k this] l(2,3) show
      "\<exists>ru_day x. room_usage st' d' = Some ru_day \<and> ru_day s' = Some x"
      by (auto simp add: st')
  qed
  have 3: "\<forall>d' \<in> set (days opt). \<forall>s' \<in> set (time_slots opt).
          \<exists>bs_day x. batch_schedule st' d' = Some bs_day \<and> bs_day s' = Some x"
  proof (intro ballI)
    fix d' s' assume "d' \<in> set (days opt)" "s' \<in> set (time_slots opt)"
    from keys_ok_batch_schedule [OF k this] l(4,5) show
      "\<exists>bs_day x. batch_schedule st' d' = Some bs_day \<and> bs_day s' = Some x"
      by (auto simp add: st')
  qed
  from k have kf: "map fst (faculty_load st) = faculty_pool (config opt)"
    and ki: "\<forall>(f, fl_f) \<in> set (faculty_load st). map fst fl_f = days opt"
    by (simp_all add: keys_ok_def)
  have 4: "map fst (faculty_load st') = faculty_pool (config opt)"
    using kf map_of_in_keys [OF l(6)] by (simp add: st' update_keys)
  have "(f, fl_f) \<in> set (faculty_load st)" using l(6) by (rule map_of_SomeD)
  with ki have fk: "map fst fl_f = days opt" by blast
  have 5: "\<forall>(f', fl') \<in> set (faculty_load st'). map fst fl' = days opt"
  proof (clarify)
    fix f' fl' assume "(f', fl') \<in> set (faculty_load st')"
    then have "(f', fl') \<in> set (faculty_load st) \<or> fl' = AList.update d (load + 1) fl_f"
      unfolding st' using set_update_cases by fastforce
    then show "map fst fl' = days opt"
    proof
      assume "(f', fl') \<in> set (faculty_load st)"
      with ki show ?thesis by blast
    next
      assume "fl' = AList.update d (load + 1) fl_f"
      then show ?thesis using fk map_of_in_keys [OF l(7)] by (simp add: update_keys)
    qed
  qed
  from 1 2 3 4 5 show ?thesis unfolding keys_ok_def by blast
qed

subsection \<open>Cells and composite keys\<close>

lemma class_id_names_inject:
  assumes "is_batch_name b" "is_room_name r" "is_batch_name b'" "is_room_name r'"
    and "class_id s b r = class_id s' b' r'"
  shows "s = s' \<and> b = b' \<and> r = r'"
proof -
  from assms(1) have b: "b = ''Batch '' @ drop 6 b" and db: "set (drop 6 b) \<subseteq> digits"
    unfolding is_batch_name_def by (metis append_take_drop_id, simp)
  from assms(3) have b': "b' = ''Batch '' @ drop 6 b'" and db': "set (drop 6 b') \<subseteq> digits"
    unfolding is_batch_name_def by (metis append_take_drop_id, simp)
  from assms(2) have r: "r = ''Room '' @ drop 5 r" and dr: "set (drop 5 r) \<subseteq> digits"
    unfolding is_room_name_def by (metis append_take_drop_id, simp)
  from assms(4) have r': "r' = ''Room '' @ drop 5 r'" and dr': "set (drop 5 r') \<subseteq> digits"
    unfolding is_room_name_def by (metis append_take_drop_id, simp)
  from assms(5) have "class_id s (''Batch '' @ drop 6 b) (''Room '' @ drop 5 r)
      = class_id s' (''Batch '' @ drop 6 b') (''Room '' @ drop 5 r')"
    using b b' r r' by simp
  from class_id_inject [OF db dr db' dr' this]
  have "s = s'" "drop 6 b = drop 6 b'" "drop 5 r = drop 5 r'" by simp_all
  with b b' r r' show ?thesis by metis
qed

lemma cell_ok_fresh_key:
  assumes "cell_ok rooms bs c" "bn \<notin> bs" "is_room_name rn" "is_batch_name bn"
  shows "class_id subj bn rn \<notin> fst ` set c"
proof
  assume "class_id subj bn rn \<in> fst ` set c"
  then obtain kv where kv: "kv \<in> set c" "fst kv = class_id subj bn rn" by auto
  with assms(1) have "fst kv = class_id (subject (snd kv)) (batch (snd kv)) (room (snd kv))"
    "is_batch_name (batch (snd kv))" "is_room_name (room (snd kv))"
    unfolding cell_ok_def by blast+
  with kv(2) assms(3,4) have "bn = batch (snd kv)"
    using class_id_names_inject by metis
  with kv(1) have "bn \<in> set (map (batch \<circ> snd) c)" by auto
  with assms(1,2) show False unfolding cell_ok_def by simp
qed

lemma cell_ok_add:
  assumes "cell_ok rooms bs c" "rn \<notin> rooms" "bn \<notin> bs" "is_room_name rn" "is_batch_name bn"
  shows "cell_ok (insert rn rooms) (insert bn bs)
           (c @ [(class_id subj bn rn, \<lparr>subject = subj, room = rn, batch = bn, faculty = f\<rparr>)])"
  using assms unfolding cell_ok_def by auto

lemma cell_ok_empty: "cell_ok {} {} []"
  by (simp add: cell_ok_def)

lemma cell_ok_card: "cell_ok rooms bs c \<Longrightarrow> int (card rooms) = int (length c)"
  unfolding cell_ok_def using distinct_card by fastforce

subsection \<open>Counting sessions\<close>

lemma sum_list_map_point:
  "distinct xs \<Longrightarrow>
     sum_list (map (\<lambda>x. if x = a then h x + c else h x) xs)
       = sum_list (map h xs) + (if a \<in> set xs then c else (0::int))"
  by (induction xs) auto

lemma taught_by_append:
  "taught_by f' (c @ [(k, v)]) = taught_by f' c + (if faculty v = f' then 1 else 0)"
  by (simp add: taught_by_def)

lemma faculty_day_count_add:
  assumes "distinct slots" "s \<in> set slots"
    and upd: "\<And>d' s'. cell_at sched' d' s' =
       (if d' = d \<and> s' = s then cell_at sched d s @ [(k, v)] else cell_at sched d' s')"
  shows "faculty_day_count sched' slots f' d' =
     faculty_day_count sched slots f' d' + (if faculty v = f' \<and> d' = d then 1 else 0)"
proof (cases "d' = d")
  case False
  then have "\<And>s'. cell_at sched' d' s' = cell_at sched d' s'" by (simp add: upd)
  with False show ?thesis by (simp add: faculty_day_count_def)
next
  case True
  have "(\<lambda>s'. taught_by f' (cell_at sched' d s')) =
      (\<lambda>s'. if s' = s then taught_by f' (cell_at sched d s') + (if faculty v = f' then 1 else 0)
             else taught_by f' (cell_at sched d s'))"
    by (rule ext) (simp add: upd taught_by_append)
  then show ?thesis
    using assms(1,2) True by (simp add: faculty_day_count_def sum_list_map_point)
qed

lemma grid_size_add:
  assumes "distinct ds" "distinct slots" "d \<in> set ds" "s \<in> set slots"
    and upd: "\<And>d' s'. cell_at sched' d' s' =
       (if d' = d \<and> s' = s then cell_at sched d s @ [(k, v)] else cell_at sched d' s')"
  shows "grid_size sched' ds slots = grid_size sched ds slots + 1"
proof -
  let ?row = "\<lambda>sc d'. sum_list (map (\<lambda>s'. int (length (cell_at sc d' s'))) slots)"
  have "(\<lambda>s'. int (length (cell_at sched' d s'))) =
      (\<lambda>s'. if s' = s then int (length (cell_at sched d s')) + 1
             else int (length (cell_at sched d s')))"
    by (rule ext) (simp add: upd)
  then have same: "?row sched' d = ?row sched d + 1"
    using assms(2,4) by (simp add: sum_list_map_point)
  have other: "?row sched' d' = ?row sched d'" if "d' \<noteq> d" for d'
    using that by (simp add: upd)
  have "?row sched' = (\<lambda>d'. if d' = d then ?row sched d' + 1 else ?row sched d')"
    by (rule ext) (simp add: same other)
  then show ?thesis
    using assms(1,3) by (simp add: grid_size_def sum_list_map_point)
qed

lemma sum_values_update:
  "distinct (map fst al) \<Longrightarrow> map_of al k = Some v \<Longrightarrow>
     sum_list (map (\<lambda>kv. h (snd kv)) (AList.update k v' al))
       = sum_list (map (\<lambda>kv. h (snd kv)) al) - h v + (h v' :: int)"
proof (induction al)
  case Nil
  then show ?case by simp
next
  case (Cons a al)
  show ?case
  proof (cases "fst a = k")
    case True
    with Cons.prems show ?thesis by (cases a) auto
  next
    case False
    with Cons show ?thesis by (cases a) auto
  qed
qed

lemma faculty_loads_commit:
  fixes fl :: "(string \<times> (string \<times> int) list) list"
  assumes "distinct (map fst fl)" "map_of fl f = Some fl_f" "distinct (map fst fl_f)"
    "map_of fl_f d = Some load"
  shows "sum_list (map (\<lambda>(f, fl_f). sum_list (map snd fl_f))
            (AList.update f (AList.update d (load + 1) fl_f) fl))
       = sum_list (map (\<lambda>(f, fl_f). sum_list (map snd fl_f)) fl) + 1"
proof -
  have inner: "sum_list (map snd (AList.update d (load + 1) fl_f)) = sum_list (map snd fl_f) + 1"
    using sum_values_update [OF assms(3,4), where h = "\<lambda>x. x" and v' = "load + 1"] by simp
  have "sum_list (map (\<lambda>kv. sum_list (map snd (snd kv)))
            (AList.update f (AList.update d (load + 1) fl_f) fl))
       = sum_list (map (\<lambda>kv. sum_list (map snd (snd kv))) fl) - sum_list (map snd fl_f)
          + sum_list (map snd (AList.update d (load + 1) fl_f))"
    by (rule sum_values_update [OF assms(1,2)])
  with inner show ?thesis by (simp add: case_prod_unfold)
qed

subsection \<open>A commit preserves the invariant\<close>

lemma commit_appends:
  assumes c: "commit subj (d, s, rn, bn, f) st = Inr st'" and g: "grid_ok opt st"
    and fresh: "bn \<notin> set_at (batch_schedule st) d s"
    and names: "is_room_name rn" "is_batch_name bn"
  shows "cell_at (schedule st') d' s' =
     (if d' = d \<and> s' = s
      then cell_at (schedule st) d s @
        [(class_id subj bn rn, \<lparr>subject = subj, room = rn, batch = bn, faculty = f\<rparr>)]
      else cell_at (schedule st) d' s')"
proof -
  from g have "cell_ok (set_at (room_usage st) d s) (set_at (batch_schedule st) d s)
      (cell_at (schedule st) d s)"
    unfolding grid_ok_def by blast
  from cell_ok_fresh_key [OF this fresh names]
  have "class_id subj bn rn \<notin> fst ` set (cell_at (schedule st) d s)" .
  from update_fresh [OF this] show ?thesis
    by (simp add: commit_cell_at [OF c])
qed

lemma commit_grid_ok:
  assumes c: "commit subj (d, s, rn, bn, f) st = Inr st'" and g: "grid_ok opt st"
    and fresh: "rn \<notin> set_at (room_usage st) d s" "bn \<notin> set_at (batch_schedule st) d s"
    and names: "is_room_name rn" "is_batch_name bn"
    and mem: "d \<in> set (days opt)" "s \<in> set (time_slots opt)"
  shows "grid_ok opt st'"
  unfolding grid_ok_def
proof (intro allI)
  fix d' s'
  from g have old: "cell_ok (set_at (room_usage st) d' s') (set_at (batch_schedule st) d' s')
      (cell_at (schedule st) d' s')"
    and dom: "cell_at (schedule st) d' s' \<noteq> [] \<longrightarrow>
       d' \<in> set (days opt) \<and> s' \<in> set (time_slots opt)"
    unfolding grid_ok_def by blast+
  show "cell_ok (set_at (room_usage st') d' s') (set_at (batch_schedule st') d' s')
          (cell_at (schedule st') d' s') \<and>
        (cell_at (schedule st') d' s' \<noteq> [] \<longrightarrow>
           d' \<in> set (days opt) \<and> s' \<in> set (time_slots opt))"
  proof (cases "d' = d \<and> s' = s")
    case True
    with old have "cell_ok (set_at (room_usage st) d s) (set_at (batch_schedule st) d s)
      (cell_at (schedule st) d s)" by simp
    from cell_ok_add [OF this fresh names]
    show ?thesis
      using True mem
      by (simp add: commit_appends [OF c g fresh(2) names] commit_room_usage [OF c]
          commit_batch_schedule [OF c])
  next
    case False
    have "cell_at (schedule st') d' s' = cell_at (schedule st) d' s'"
      "set_at (room_usage st') d' s' = set_at (room_usage st) d' s'"
      "set_at (batch_schedule st') d' s' = set_at (batch_schedule st) d' s'"
      unfolding commit_appends [OF c g fresh(2) names] commit_room_usage [OF c]
        commit_batch_schedule [OF c]
      using False by (simp_all only: if_False)
    with old dom show ?thesis by simp
  qed
qed

lemma commit_load_ok:
  assumes c: "commit subj (d, s, rn, bn, f) st = Inr st'" and g: "grid_ok opt st"
    and l: "load_ok opt st"
    and fresh: "bn \<notin> set_at (batch_schedule st) d s"
    and names: "is_room_name rn" "is_batch_name bn"
    and lt: "load_at (faculty_load st) f d < max_daily_load (config opt)"
    and slots: "distinct (time_slots opt)" "s \<in> set (time_slots opt)"
  shows "load_ok opt st'"
  unfolding load_ok_def
proof (intro allI)
  fix f' d'
  from l have old: "load_at (faculty_load st) f' d' =
       faculty_day_count (schedule st) (time_slots opt) f' d'"
    and bound: "load_at (faculty_load st) f' d' \<le> max 0 (max_daily_load (config opt))"
    unfolding load_ok_def by blast+
  have cnt: "faculty_day_count (schedule st') (time_slots opt) f' d' =
     faculty_day_count (schedule st) (time_slots opt) f' d' + (if f = f' \<and> d' = d then 1 else 0)"
    using faculty_day_count_add [OF slots, of "schedule st'" d "schedule st"
        "class_id subj bn rn" "\<lparr>subject = subj, room = rn, batch = bn, faculty = f\<rparr>" f' d']
      commit_appends [OF c g fresh names]
    by simp
  show "load_at (faculty_load st') f' d' =
          faculty_day_count (schedule st') (time_slots opt) f' d' \<and>
        load_at (faculty_load st') f' d' \<le> max 0 (max_daily_load (config opt))"
  proof (cases "f' = f \<and> d' = d")
    case True
    with old lt cnt show ?thesis by (simp add: commit_load_at [OF c])
  next
    case False
    have "load_at (faculty_load st') f' d' = load_at (faculty_load st) f' d'"
      unfolding commit_load_at [OF c] using False by (simp only: if_False)
    moreover have "faculty_day_count (schedule st') (time_slots opt) f' d' =
        faculty_day_count (schedule st) (time_slots opt) f' d'"
      using cnt False by auto
    ultimately show ?thesis using old bound by simp
  qed
qed

lemma commit_counts_ok:
  assumes c: "commit subj (d, s, rn, bn, f) st = Inr st'" and g: "grid_ok opt st"
    and k: "keys_ok opt st" and n: "counts_ok opt st"
    and fresh: "bn \<notin> set_at (batch_schedule st) d s"
    and names: "is_room_name rn" "is_batch_name bn"
    and dist: "distinct (days opt)" "distinct (time_slots opt)"
    and mem: "d \<in> set (days opt)" "s \<in> set (time_slots opt)"
  shows "counts_ok opt st'"
proof -
  from c obtain fl_f load where
    1: "map_of (faculty_load st) f = Some fl_f" "map_of fl_f d = Some load" and
    2: "faculty_load st' = AList.update f (AList.update d (load + 1) fl_f) (faculty_load st)"
    and 3: "total_scheduled st' = total_scheduled st + 1"
    by (rule commit_fields)
  from k have kf: "map fst (faculty_load st) = faculty_pool (config opt)"
    and ki: "\<forall>(f, fl_f) \<in> set (faculty_load st). map fst fl_f = days opt"
    by (simp_all add: keys_ok_def)
  have d1: "distinct (map fst (faculty_load st))" by (simp add: kf distinct_faculty_pool)
  have "(f, fl_f) \<in> set (faculty_load st)" using 1(1) by (rule map_of_SomeD)
  with ki have "map fst fl_f = days opt" by blast
  then have d2: "distinct (map fst fl_f)" using dist(1) by simp
  have a: "sum_list (faculty_loads st') = sum_list (faculty_loads st) + 1"
    unfolding faculty_loads_def 2 by (rule faculty_loads_commit [OF d1 1(1) d2 1(2)])
  have b: "grid_size (schedule st') (days opt) (time_slots opt) =
      grid_size (schedule st) (days opt) (time_slots opt) + 1"
    using grid_size_add [OF dist mem, of "schedule st'" "schedule st"
        "class_id subj bn rn" "\<lparr>subject = subj, room = rn, batch = bn, faculty = f\<rparr>"]
      commit_appends [OF c g fresh names]
    by simp
  from n a b 3 show ?thesis by (simp add: counts_ok_def)
qed

subsection \<open>An attempt preserves the invariant\<close>

lemma inv_rng [simp]: "run_inv opt (st\<lparr>rng := g\<rparr>) = run_inv opt st"
  by (simp add: run_inv_def keys_ok_def grid_ok_def load_ok_def counts_ok_def faculty_loads_def)

lemma inv_conflicts [simp]: "run_inv opt (st\<lparr>conflicts := cs\<rparr>) = run_inv opt st"
  by (simp add: run_inv_def keys_ok_def grid_ok_def load_ok_def counts_ok_def faculty_loads_def)

lemma attempt_Inr:
  assumes "attempt opt subj st = Inr (placed, st')"
  obtains (place) d s rn bn f g' rs where "placed"
      "draw_candidate opt (rng st) = Inr ((d, s, rn, bn, f), g')"
      "check_constraints opt (st\<lparr>rng := g'\<rparr>) (d, s, rn, bn, f) = Inr (True, rs)"
      "commit subj (d, s, rn, bn, f) (st\<lparr>rng := g'\<rparr>) = Inr st'"
  | (reject) d s rn bn f g' rs where "\<not> placed"
      "draw_candidate opt (rng st) = Inr ((d, s, rn, bn, f), g')"
      "check_constraints opt (st\<lparr>rng := g'\<rparr>) (d, s, rn, bn, f) = Inr (False, rs)"
      "st' = st\<lparr>rng := g', conflicts := conflicts st @
                   [\<lparr>conflict_subject = subj, conflict_day = d,
                     conflict_slot = s, reasons = rs\<rparr>]\<rparr>"
proof (cases "draw_candidate opt (rng st)")
  case (Inl e)
  with assms show thesis by (simp add: attempt_def)
next
  case (Inr x)
  obtain d s rn bn f g' where x: "x = ((d, s, rn, bn, f), g')" by (cases x) auto
  note dr = Inr [unfolded x]
  show thesis
  proof (cases "check_constraints opt (st\<lparr>rng := g'\<rparr>) (d, s, rn, bn, f)")
    case (Inl e)
    with assms dr show thesis by (simp add: attempt_def)
  next
    case ck: (Inr y)
    obtain b rs where y: "y = (b, rs)" by (cases y)
    note ck = ck [unfolded y]
    show thesis
    proof (cases b)
      case True
      show thesis
      proof (cases "commit subj (d, s, rn, bn, f) (st\<lparr>rng := g'\<rparr>)")
        case (Inl e)
        with assms dr ck True show thesis by (simp add: attempt_def)
      next
        case cm: (Inr st2)
        with assms dr ck True have "placed" "st2 = st'" by (simp_all add: attempt_def)
        with dr ck True cm show thesis by (auto intro: place)
      qed
    next
      case False
      with assms dr ck have "\<not> placed"
        "st' = st\<lparr>rng := g', conflicts := conflicts st @
                   [\<lparr>conflict_subject = subj, conflict_day = d,
                     conflict_slot = s, reasons = rs\<rparr>]\<rparr>"
        by (auto simp add: attempt_def)
      with dr ck False show thesis by (auto intro: reject)
    qed
  qed
qed

lemma attempt_inv:
  assumes a: "attempt opt subj st = Inr (placed, st')" and i: "run_inv opt st"
    and dist: "distinct (days opt)" "distinct (time_slots opt)"
  shows "run_inv opt st' \<and>
     total_scheduled st' = total_scheduled st + (if placed then 1 else 0) \<and>
     int (length (conflicts st')) = int (length (conflicts st)) + (if placed then 0 else 1)"
  using a
proof (cases rule: attempt_Inr)
  case (place d s rn bn f g' rs)
  let ?st = "st\<lparr>rng := g'\<rparr>"
  from i have "run_inv opt ?st" by simp
  then have i': "keys_ok opt ?st" "grid_ok opt ?st" "load_ok opt ?st" "counts_ok opt ?st"
    unfolding run_inv_def by blast+
  from draw_candidate_Inr [OF place(2)] have
    mem: "d \<in> set (days opt)" "s \<in> set (time_slots opt)" and
    names: "is_room_name rn" "is_batch_name bn" by simp_all
  from check_constraints_True [OF place(3)] have
    fresh: "rn \<notin> set_at (room_usage ?st) d s" "bn \<notin> set_at (batch_schedule ?st) d s" and
    lt: "load_at (faculty_load ?st) f d < max_daily_load (config opt)" by simp_all
  have "keys_ok opt st'" by (rule commit_keys_ok [OF place(4) i'(1)])
  moreover have "grid_ok opt st'" by (rule commit_grid_ok [OF place(4) i'(2) fresh names mem])
  moreover have "load_ok opt st'"
    by (rule commit_load_ok [OF place(4) i'(2,3) fresh(2) names lt dist(2) mem(2)])
  moreover have "counts_ok opt st'"
    by (rule commit_counts_ok [OF place(4) i'(2,1,4) fresh(2) names dist mem])
  ultimately have "run_inv opt st'" by (simp add: run_inv_def)
  moreover from commit_other [OF place(4)] have
    "total_scheduled st' = total_scheduled st + 1" "conflicts st' = conflicts st" by simp_all
  ultimately show ?thesis using place(1) by simp
next
  case (reject d s rn bn f g' rs)
  with i show ?thesis by simp
qed

lemma attempt_total:
  assumes i: "run_inv opt st"
    and ne: "days opt \<noteq> []" "time_slots opt \<noteq> []" "1 \<le> classrooms (config opt)"
      "1 \<le> batches (config opt)" "faculty_pool (config opt) \<noteq> []"
  shows "\<exists>placed st'. attempt opt subj st = Inr (placed, st')"
proof -
  from draw_candidate_total [OF ne] obtain dr g' where
    dr: "draw_candidate opt (rng st) = Inr (dr, g')" by blast
  obtain d s rn bn f where x: "dr = (d, s, rn, bn, f)" by (cases dr) auto
  let ?st = "st\<lparr>rng := g'\<rparr>"
  from i have "run_inv opt ?st" by simp
  then have k: "keys_ok opt ?st" unfolding run_inv_def by blast
  from draw_candidate_Inr [OF dr [unfolded x]] have
    mem: "d \<in> set (days opt)" "s \<in> set (time_slots opt)" "f \<in> set (faculty_pool (config opt))"
    by simp_all
  from check_constraints_total [OF k mem] obtain b rs where
    ck: "check_constraints opt ?st (d, s, rn, bn, f) = Inr (b, rs)" by blast
  from commit_total [OF k mem] obtain st2 where
    cm: "commit subj (d, s, rn, bn, f) ?st = Inr st2" by blast
  show ?thesis
    by (cases b) (auto simp add: attempt_def dr x ck cm)
qed

subsection \<open>The loops\<close>

lemma place_subject_inv:
  assumes "place_subject opt subj c a st = Inr (c', a', st')" "run_inv opt st"
    "distinct (days opt)" "distinct (time_slots opt)"
  shows "run_inv opt st' \<and> a \<le> a' \<and> (a \<le> 100 \<longrightarrow> a' \<le> 100) \<and> c \<le> c'
     \<and> \<not> (c' < classes_per_week (config opt) \<and> a' < 100)
     \<and> (c \<le> classes_per_week (config opt) \<longrightarrow> c' \<le> classes_per_week (config opt))
     \<and> (a < a' \<longrightarrow> c < classes_per_week (config opt))
     \<and> c' - c \<le> int a' - int a
     \<and> total_scheduled st' = total_scheduled st + (c' - c)
     \<and> int (length (conflicts st')) = int (length (conflicts st)) + (int a' - int a) - (c' - c)"
  using assms
proof (induction opt subj c a st arbitrary: c' a' st' rule: place_subject.induct)
  case (1 opt subj c a st)
  show ?case
  proof (cases "c < classes_per_week (config opt) \<and> a < 100")
    case False
    with "1.prems"(1) have "c' = c" "a' = a" "st' = st"
      by (simp_all add: place_subject.simps [of opt subj c a st])
    with False "1.prems"(2) show ?thesis by auto
  next
    case True
    from "1.prems"(1) True obtain x where
      at0: "attempt opt subj st = Inr x" by (cases "attempt opt subj st")
        (simp_all add: place_subject.simps [of opt subj c a st])
    obtain placed st1 where x: "x = (placed, st1)" by (cases x)
    note at = at0 [unfolded x]
    from "1.prems"(1) True at have
      rec: "place_subject opt subj (if placed then c + 1 else c) (a + 1) st1 = Inr (c', a', st')"
      by (simp add: place_subject.simps [of opt subj c a st])
    from attempt_inv [OF at "1.prems"(2,3,4)] have
      i1: "run_inv opt st1" and
      t1: "total_scheduled st1 = total_scheduled st + (if placed then 1 else 0)" and
      c1: "int (length (conflicts st1)) = int (length (conflicts st)) + (if placed then 0 else 1)"
      by simp_all
    from "1.IH" [OF True at0 x [symmetric] rec i1 "1.prems"(3,4)]
    have ih: "run_inv opt st'" "a + 1 \<le> a'" "a + 1 \<le> 100 \<longrightarrow> a' \<le> 100"
      "(if placed then c + 1 else c) \<le> c'"
      "\<not> (c' < classes_per_week (config opt) \<and> a' < 100)"
      "(if placed then c + 1 else c) \<le> classes_per_week (config opt) \<longrightarrow>
         c' \<le> classes_per_week (config opt)"
      "c' - (if placed then c + 1 else c) \<le> int a' - int (a + 1)"
      "total_scheduled st' = total_scheduled st1 + (c' - (if placed then c + 1 else c))"
      "int (length (conflicts st')) = int (length (conflicts st1)) + (int a' - int (a + 1))
         - (c' - (if placed then c + 1 else c))"
      by simp_all
    show ?thesis
    proof (cases placed)
      case True
      with ih t1 c1 \<open>c < classes_per_week (config opt) \<and> a < 100\<close> show ?thesis by auto
    next
      case False
      with ih t1 c1 \<open>c < classes_per_week (config opt) \<and> a < 100\<close> show ?thesis by auto
    qed
  qed
qed

lemma place_subject_total:
  assumes "run_inv opt st" "distinct (days opt)" "distinct (time_slots opt)"
    "days opt \<noteq> []" "time_slots opt \<noteq> []" "1 \<le> classrooms (config opt)"
    "1 \<le> batches (config opt)" "faculty_pool (config opt) \<noteq> []"
  shows "\<exists>r. place_subject opt subj c a st = Inr r"
  using assms
proof (induction opt subj c a st rule: place_subject.induct)
  case (1 opt subj c a st)
  show ?case
  proof (cases "c < classes_per_week (config opt) \<and> a < 100")
    case False
    then show ?thesis by (auto simp add: place_subject.simps [of opt subj c a st])
  next
    case True
    from attempt_total [OF "1.prems"(1,4-8)] obtain placed st1 where
      at: "attempt opt subj st = Inr (placed, st1)" by blast
    from attempt_inv [OF at "1.prems"(1,2,3)] have i1: "run_inv opt st1" by simp
    from "1.IH" [OF True at refl i1 "1.prems"(2-8)] obtain r where
      "place_subject opt subj (if placed then c + 1 else c) (a + 1) st1 = Inr r" by blast
    with True at have "place_subject opt subj c a st = Inr r"
      by (simp add: place_subject.simps [of opt subj c a st])
    then show ?thesis by blast
  qed
qed

lemma schedule_subjects_inv:
  assumes "schedule_subjects opt subjs st = Inr st'" "run_inv opt st"
    "distinct (days opt)" "distinct (time_slots opt)"
  shows "run_inv opt st' \<and>
     int (length (conflicts st')) + total_scheduled st'
       \<le> int (length (conflicts st)) + total_scheduled st + 100 * int (length subjs)
     \<and> total_scheduled st \<le> total_scheduled st'
     \<and> total_scheduled st' \<le> total_scheduled st +
          max 0 (classes_per_week (config opt)) * int (length subjs)
     \<and> length (conflicts st) \<le> length (conflicts st')"
  using assms
proof (induction subjs arbitrary: st)
  case Nil
  then show ?case by simp
next
  case (Cons subj rest)
  from Cons.prems(1) obtain r where p0: "place_subject opt subj 0 0 st = Inr r"
    by (cases "place_subject opt subj 0 0 st") simp_all
  obtain c a st1 where r: "r = (c, a, st1)" by (cases r)
  note p = p0 [unfolded r]
  from Cons.prems(1) p have rec: "schedule_subjects opt rest st1 = Inr st'" by simp
  from place_subject_inv [OF p Cons.prems(2,3,4)] have
    i1: "run_inv opt st1" and a: "a \<le> 100" and c0: "0 \<le> c"
    and cmax: "0 \<le> classes_per_week (config opt) \<longrightarrow> c \<le> classes_per_week (config opt)"
    and grow: "0 < a \<longrightarrow> 0 < classes_per_week (config opt)"
    and cle: "c \<le> int a"
    and t: "total_scheduled st1 = total_scheduled st + c"
    and cf: "int (length (conflicts st1)) = int (length (conflicts st)) + int a - c"
    by simp_all
  have cb: "c \<le> max 0 (classes_per_week (config opt))"
  proof (cases "0 \<le> classes_per_week (config opt)")
    case True
    with cmax show ?thesis by simp
  next
    case False
    with grow have "a = 0" by auto
    with cle c0 show ?thesis by simp
  qed
  from Cons.IH [OF rec i1 Cons.prems(3,4)] have
    ih: "run_inv opt st'"
      "int (length (conflicts st')) + total_scheduled st'
       \<le> int (length (conflicts st1)) + total_scheduled st1 + 100 * int (length rest)"
      "total_scheduled st1 \<le> total_scheduled st'"
      "total_scheduled st' \<le> total_scheduled st1 +
          max 0 (classes_per_week (config opt)) * int (length rest)"
      "length (conflicts st1) \<le> length (conflicts st')"
    by simp_all
  have "int (length (conflicts st)) \<le> int (length (conflicts st1))" using cf cle by linarith
  with ih a c0 t cf cb show ?case by (auto simp add: algebra_simps)
qed

lemma schedule_subjects_total:
  assumes "run_inv opt st" "distinct (days opt)" "distinct (time_slots opt)"
    "days opt \<noteq> []" "time_slots opt \<noteq> []" "1 \<le> classrooms (config opt)"
    "1 \<le> batches (config opt)" "faculty_pool (config opt) \<noteq> []"
  shows "\<exists>st'. schedule_subjects opt subjs st = Inr st'"
  using assms
proof (induction subjs arbitrary: st)
  case Nil
  then show ?case by simp
next
  case (Cons subj rest)
  from place_subject_total [OF Cons.prems] obtain r where
    p0: "place_subject opt subj 0 0 st = Inr r" by blast
  obtain c a st1 where r: "r = (c, a, st1)" by (cases r)
  from place_subject_inv [OF p0 [unfolded r] Cons.prems(1,2,3)] have i1: "run_inv opt st1" by simp
  from Cons.IH [OF i1 Cons.prems(2-8)] obtain st' where
    "schedule_subjects opt rest st1 = Inr st'" by blast
  with p0 r show ?case by simp
qed

subsection \<open>The initial state\<close>

lemma map_of_const_keys:
  "map_of (map (\<lambda>k. (k, h k)) ks) k = (if k \<in> set ks then Some (h k) else None)"
  by (induction ks) auto

lemma initial_faculty_load:
  assumes "distinct (days opt)"
  shows "faculty_load (initial_state opt g) =
     map (\<lambda>f. (f, map (\<lambda>d. (d, 0)) (days opt))) (faculty_pool (config opt))"
proof -
  have "distinct (map fst (map (\<lambda>d. (d, 0::int)) (days opt)))"
    using assms by (simp add: comp_def)
  then have 1: "dict_of_list (map (\<lambda>d. (d, 0::int)) (days opt)) = map (\<lambda>d. (d, 0)) (days opt)"
    by (rule dict_of_list_distinct)
  have "distinct (map fst (map (\<lambda>f. (f, map (\<lambda>d. (d, 0::int)) (days opt)))
      (faculty_pool (config opt))))"
    using distinct_faculty_pool by (simp add: comp_def)
  then have "dict_of_list (map (\<lambda>f. (f, map (\<lambda>d. (d, 0::int)) (days opt)))
      (faculty_pool (config opt))) =
      map (\<lambda>f. (f, map (\<lambda>d. (d, 0)) (days opt))) (faculty_pool (config opt))"
    by (rule dict_of_list_distinct)
  with 1 show ?thesis by (simp add: initial_state_def)
qed

lemma initial_cell_at: "cell_at (schedule (initial_state opt g)) d s = []"
  by (simp add: initial_state_def cell_at_def map_of_const_keys)

lemma initial_room_usage: "set_at (room_usage (initial_state opt g)) d s = {}"
  by (simp add: initial_state_def set_at_def map_of_const_keys)

lemma initial_batch_schedule: "set_at (batch_schedule (initial_state opt g)) d s = {}"
  by (simp add: initial_state_def set_at_def map_of_const_keys)

lemma initial_load_at:
  assumes "distinct (days opt)"
  shows "load_at (faculty_load (initial_state opt g)) f d = 0"
  by (simp add: initial_faculty_load [OF assms] load_at_def map_of_const_keys)

lemma sum_list_zero: "sum_list (map (\<lambda>x. 0::int) xs) = 0"
  by (induction xs) auto

lemma initial_keys_ok:
  assumes "distinct (days opt)"
  shows "keys_ok opt (initial_state opt g)"
proof -
  have 1: "\<forall>d \<in> set (days opt). schedule (initial_state opt g) d \<noteq> None"
    by (simp add: initial_state_def map_of_const_keys)
  have 2: "\<forall>d \<in> set (days opt). \<forall>s \<in> set (time_slots opt).
      \<exists>ru_day x. room_usage (initial_state opt g) d = Some ru_day \<and> ru_day s = Some x"
    by (simp add: initial_state_def map_of_const_keys)
  have 3: "\<forall>d \<in> set (days opt). \<forall>s \<in> set (time_slots opt).
      \<exists>bs_day x. batch_schedule (initial_state opt g) d = Some bs_day \<and> bs_day s = Some x"
    by (simp add: initial_state_def map_of_const_keys)
  have 4: "map fst (faculty_load (initial_state opt g)) = faculty_pool (config opt)"
    by (simp add: initial_faculty_load [OF assms] comp_def)
  have 5: "\<forall>(f, fl_f) \<in> set (faculty_load (initial_state opt g)). map fst fl_f = days opt"
    by (auto simp add: initial_faculty_load [OF assms] comp_def)
  from 1 2 3 4 5 show ?thesis unfolding keys_ok_def by blast
qed

lemma initial_inv:
  assumes "distinct (days opt)"
  shows "run_inv opt (initial_state opt g)"
proof -
  have g: "grid_ok opt (initial_state opt g)"
    by (simp add: grid_ok_def initial_cell_at initial_room_usage initial_batch_schedule
        cell_ok_empty)
  have l: "load_ok opt (initial_state opt g)"
    by (simp add: load_ok_def initial_load_at [OF assms] faculty_day_count_def initial_cell_at
        taught_by_def sum_list_zero)
  have "sum_list (faculty_loads (initial_state opt g)) = 0"
    by (simp add: faculty_loads_def initial_faculty_load [OF assms] comp_def sum_list_zero)
  moreover have "total_scheduled (initial_state opt g) = 0" by (simp add: initial_state_def)
  moreover have "grid_size (schedule (initial_state opt g)) (days opt) (time_slots opt) = 0"
    by (simp add: grid_size_def initial_cell_at sum_list_zero)
  ultimately have c: "counts_ok opt (initial_state opt g)" by (simp add: counts_ok_def)
  from initial_keys_ok [OF assms] g l c show ?thesis by (simp add: run_inv_def)
qed

lemma initial_conflicts: "conflicts (initial_state opt g) = []"
  "total_scheduled (initial_state opt g) = 0"
  by (simp_all add: initial_state_def)

subsection \<open>Utilization and loads\<close>

lemma sum_room_usage_Inr:
  assumes "\<forall>(d, s) \<in> set ps. \<exists>ru_day x. ru d = Some ru_day \<and> ru_day s = Some x"
  shows "sum_room_usage ru ps = Inr (sum_list (map (\<lambda>(d, s). int (card (set_at ru d s))) ps))"
  using assms
proof (induction ps)
  case Nil
  then show ?case by simp
next
  case (Cons p ps)
  obtain d s where p: "p = (d, s)" by (cases p)
  from Cons.prems p obtain ru_day x where 1: "ru d = Some ru_day" "ru_day s = Some x" by auto
  from Cons.prems have "\<forall>(d, s) \<in> set ps. \<exists>ru_day x. ru d = Some ru_day \<and> ru_day s = Some x"
    by simp
  from Cons.IH [OF this] show ?case
    by (simp add: p 1 dict_get_def set_at_def)
qed

lemma sum_list_product:
  "sum_list (map (\<lambda>(d, s). h d s) (List.product ds ss))
     = sum_list (map (\<lambda>d. sum_list (map (h d) ss)) ds)"
  by (induction ds) (simp_all add: comp_def)

lemma inv_sum_room_usage:
  assumes "run_inv opt st"
  shows "sum_room_usage (room_usage st) (List.product (days opt) (time_slots opt))
     = Inr (grid_size (schedule st) (days opt) (time_slots opt))"
proof -
  from assms have k: "keys_ok opt st" and g: "grid_ok opt st" by (simp_all add: run_inv_def)
  have "\<forall>(d, s) \<in> set (List.product (days opt) (time_slots opt)).
      \<exists>ru_day x. room_usage st d = Some ru_day \<and> ru_day s = Some x"
    using keys_ok_room_usage [OF k] by auto
  from sum_room_usage_Inr [OF this]
  have 1: "sum_room_usage (room_usage st) (List.product (days opt) (time_slots opt)) =
     Inr (sum_list (map (\<lambda>(d, s). int (card (set_at (room_usage st) d s)))
        (List.product (days opt) (time_slots opt))))" .
  have "\<And>d s. int (card (set_at (room_usage st) d s)) = int (length (cell_at (schedule st) d s))"
    using g cell_ok_card unfolding grid_ok_def by blast
  then have "(\<lambda>(d, s). int (card (set_at (room_usage st) d s))) =
      (\<lambda>(d, s). int (length (cell_at (schedule st) d s)))" by simp
  with 1 show ?thesis by (simp add: sum_list_product grid_size_def)
qed

lemma total_possible_slots_zero:
  assumes "days opt \<noteq> []" "time_slots opt \<noteq> []"
  shows "(total_possible_slots opt = 0) = (classrooms (config opt) = 0)"
  using assms by (simp add: total_possible_slots_def)

lemma inv_classroom_utilization:
  assumes "run_inv opt st" "days opt \<noteq> []" "time_slots opt \<noteq> []"
  shows "classroom_utilization_raw opt st =
     (if classrooms (config opt) = 0 then Inl ZeroDivisionError
      else Inr (fmul (nearest_float
                  (of_int (grid_size (schedule st) (days opt) (time_slots opt))
                   / of_int (total_possible_slots opt))) 100))"
  using total_possible_slots_zero [OF assms(2,3)]
  by (simp add: classroom_utilization_raw_def inv_sum_room_usage [OF assms(1)] true_div_def)

lemma faculty_utilization_raw_Inr:
  "faculty_utilization_raw st =
     Inr (if faculty_loads st = [] then 0
          else nearest_float (of_int (sum_list (faculty_loads st))
                 / of_nat (length (faculty_loads st))))"
  by (simp add: faculty_utilization_raw_def true_div_def)

lemma max_list_Max: "xs \<noteq> [] \<Longrightarrow> max_list xs = Max (set xs)"
proof -
  assume "xs \<noteq> []"
  then obtain y ys where xs: "xs = y # ys" by (cases xs) auto
  have "foldl max y ys = fold max ys y"
    by (simp add: foldl_conv_fold max.commute)
  also have "\<dots> = Max (set (y # ys))" by (rule Max.set_eq_fold [symmetric])
  finally show ?thesis by (simp only: xs max_list_def list.sel)
qed

lemma min_list_Min: "xs \<noteq> [] \<Longrightarrow> min_list xs = Min (set xs)"
proof -
  assume "xs \<noteq> []"
  then obtain y ys where xs: "xs = y # ys" by (cases xs) auto
  have "foldl min y ys = fold min ys y"
    by (simp add: foldl_conv_fold min.commute)
  also have "\<dots> = Min (set (y # ys))" by (rule Min.set_eq_fold [symmetric])
  finally show ?thesis by (simp only: xs min_list_def list.sel)
qed

lemma sum_values_keys:
  fixes al :: "('k \<times> int) list"
  assumes "distinct (map fst al)"
  shows "sum_list (map snd al) =
     sum_list (map (\<lambda>k. case map_of al k of None \<Rightarrow> 0 | Some n \<Rightarrow> n) (map fst al))"
proof -
  have e: "map (\<lambda>kv. case map_of al (fst kv) of None \<Rightarrow> 0 | Some n \<Rightarrow> n) al = map snd al"
  proof (rule map_cong [OF refl])
    fix kv assume "kv \<in> set al"
    then have "map_of al (fst kv) = Some (snd kv)"
      using map_of_is_SomeI [OF assms, of "fst kv" "snd kv"] by simp
    then show "(case map_of al (fst kv) of None \<Rightarrow> 0 | Some n \<Rightarrow> n) = snd kv" by simp
  qed
  have "map (\<lambda>k. case map_of al k of None \<Rightarrow> 0 | Some n \<Rightarrow> n) (map fst al) =
      map (\<lambda>kv. case map_of al (fst kv) of None \<Rightarrow> 0 | Some n \<Rightarrow> n) al"
    by (simp only: map_map comp_def)
  with e show ?thesis by (simp only:)
qed

lemma faculty_loads_eq:
  assumes k: "keys_ok opt st" and dd: "distinct (days opt)"
  shows "faculty_loads st =
     map (\<lambda>f. sum_list (map (\<lambda>d. load_at (faculty_load st) f d) (days opt)))
       (faculty_pool (config opt))"
proof -
  from k have kf: "map fst (faculty_load st) = faculty_pool (config opt)"
    and ki: "\<forall>(f, fl_f) \<in> set (faculty_load st). map fst fl_f = days opt"
    by (simp_all add: keys_ok_def)
  have d1: "distinct (map fst (faculty_load st))" by (simp add: kf distinct_faculty_pool)
  have "map (\<lambda>(f, fl_f). sum_list (map snd fl_f)) (faculty_load st)
     = map (\<lambda>kv. sum_list (map (\<lambda>d. load_at (faculty_load st) (fst kv) d) (days opt)))
         (faculty_load st)"
  proof (rule map_cong [OF refl])
    fix kv assume m: "kv \<in> set (faculty_load st)"
    obtain f fl_f where kv: "kv = (f, fl_f)" by (cases kv)
    from m kv d1 have look: "map_of (faculty_load st) f = Some fl_f" by simp
    from m kv ki have keys: "map fst fl_f = days opt" by blast
    show "(case kv of (f, fl_f) \<Rightarrow> sum_list (map snd fl_f)) =
        sum_list (map (\<lambda>d. load_at (faculty_load st) (fst kv) d) (days opt))"
    proof -
      from dd keys have "distinct (map fst fl_f)" by simp
      from sum_values_keys [OF this] show ?thesis
        by (simp add: kv keys load_at_def look)
    qed
  qed
  also have "\<dots> = map (\<lambda>f. sum_list (map (\<lambda>d. load_at (faculty_load st) f d) (days opt)))
       (map fst (faculty_load st))"
    by (simp add: comp_def)
  finally show ?thesis by (simp add: faculty_loads_def kf)
qed

subsection \<open>The whole run\<close>

lemma final_state_inv:
  assumes "final_state opt g = Inr st" "distinct (days opt)" "distinct (time_slots opt)"
  shows "run_inv opt st \<and>
     int (length (conflicts st)) + total_scheduled st \<le> 100 * int (length (subjects (config opt)))
     \<and> 0 \<le> total_scheduled st
     \<and> total_scheduled st \<le>
          max 0 (classes_per_week (config opt)) * int (length (subjects (config opt)))"
  using schedule_subjects_inv [OF assms(1) [unfolded final_state_def]
      initial_inv [OF assms(2)] assms(2,3)]
  by (simp add: initial_conflicts)

lemma faculty_pool_nonempty: "1 \<le> faculty_count c \<Longrightarrow> faculty_pool c \<noteq> []"
  by (simp add: faculty_pool_def slice_to_def faculty_names_def)

lemma final_state_total:
  assumes "distinct (days opt)" "distinct (time_slots opt)"
    "days opt \<noteq> []" "time_slots opt \<noteq> []" "1 \<le> classrooms (config opt)"
    "1 \<le> batches (config opt)" "faculty_pool (config opt) \<noteq> []"
  shows "\<exists>st. final_state opt g = Inr st"
  unfolding final_state_def
  by (rule schedule_subjects_total [OF initial_inv [OF assms(1)] assms])

lemma generate_Inr:
  assumes "generate_optimized_schedule opt n g = Inr tt"
  obtains st U where "final_state opt g = Inr st" "classroom_utilization_raw opt st = Inr U"
    "\<not> cfg_academic_not_dict (config opt)"
    "tt_schedule tt = schedule st" "tt_conflicts tt = conflicts st"
    "tt_metrics tt =
       \<lparr>classroom_utilization = round1 U,
        faculty_load_balance = of_int (faculty_balance st),
        conflict_count = conflict_count_raw st,
        optimization_score = round1 (optimization_score_raw U
                  (faculty_balance st) (conflict_count_raw st)),
        total_classes_scheduled = total_scheduled st,
        faculty_utilization = round1 (if faculty_loads st = [] then 0
          else nearest_float (of_int (sum_list (faculty_loads st))
                 / of_nat (length (faculty_loads st))))\<rparr>"
proof (cases "final_state opt g")
  case (Inl e)
  with assms show thesis by (simp add: generate_optimized_schedule_def split: if_splits)
next
  case (Inr st)
  from assms have a: "\<not> cfg_academic_not_dict (config opt)"
    by (simp add: generate_optimized_schedule_def split: if_splits)
  show thesis
  proof (cases "classroom_utilization_raw opt st")
    case (Inl e)
    with assms Inr a show thesis
      by (simp add: generate_optimized_schedule_def compute_metrics_def)
  next
    case u: (Inr U)
    from assms Inr u a have "tt = \<lparr>tt_id = n,
                          tt_name = ''Timetable Option '' @ str_int n,
                          tt_schedule = schedule st,
                          tt_metrics = \<lparr>classroom_utilization = round1 U,
        faculty_load_balance = of_int (faculty_balance st),
        conflict_count = conflict_count_raw st,
        optimization_score = round1 (optimization_score_raw U
                  (faculty_balance st) (conflict_count_raw st)),
        total_classes_scheduled = total_scheduled st,
        faculty_utilization = round1 (if faculty_loads st = [] then 0
          else nearest_float (of_int (sum_list (faculty_loads st))
                 / of_nat (length (faculty_loads st))))\<rparr>,
                          tt_conflicts = conflicts st\<rparr>"
      by (simp add: generate_optimized_schedule_def compute_metrics_def
          faculty_utilization_raw_Inr round1_int_def)
    then have "tt_schedule tt = schedule st" "tt_conflicts tt = conflicts st"
      "tt_metrics tt = \<lparr>classroom_utilization = round1 U,
        faculty_load_balance = of_int (faculty_balance st),
        conflict_count = conflict_count_raw st,
        optimization_score = round1 (optimization_score_raw U
                  (faculty_balance st) (conflict_count_raw st)),
        total_classes_scheduled = total_scheduled st,
        faculty_utilization = round1 (if faculty_loads st = [] then 0
          else nearest_float (of_int (sum_list (faculty_loads st))
                 / of_nat (length (faculty_loads st))))\<rparr>"
      by simp_all
    with Inr u a show thesis by (rule that)
  qed
qed

lemma generate_total:
  assumes "final_state opt g = Inr st" "run_inv opt st" "days opt \<noteq> []" "time_slots opt \<noteq> []"
    "classrooms (config opt) \<noteq> 0" "\<not> cfg_academic_not_dict (config opt)"
  shows "\<exists>tt. generate_optimized_schedule opt n g = Inr tt"
  using assms(5,6)
  by (simp add: generate_optimized_schedule_def assms(1) compute_metrics_def
      inv_classroom_utilization [OF assms(2,3,4)] faculty_utilization_raw_Inr)

lemma generate_no_rooms:
  assumes "classrooms (config opt) = 0" "distinct (days opt)" "distinct (time_slots opt)"
    "days opt \<noteq> []" "time_slots opt \<noteq> []"
  shows "\<exists>e. generate_optimized_schedule opt n g = Inl e"
proof (cases "final_state opt g")
  case (Inl e)
  then show ?thesis by (simp add: generate_optimized_schedule_def)
next
  case (Inr st)
  from final_state_inv [OF Inr assms(2,3)] have "run_inv opt st" by simp
  from inv_classroom_utilization [OF this assms(4,5)] assms(1) Inr show ?thesis
    by (simp add: generate_optimized_schedule_def compute_metrics_def)
qed

subsection \<open>Completion and bounds of the loop\<close>

lemma example_optimizer_init: "optimizer_init example_config = Inr example_optimizer"
  by (simp add: optimizer_init_def example_optimizer_def example_config_def)

lemma example_config_values:
  "classrooms example_config = 1" "batches example_config = 1"
  "faculty_count example_config = 1" "max_daily_load example_config = 6"
  "classes_per_week example_config = 1" "subjects example_config = [''Math'']"
  by (simp_all add: example_config_def classrooms_def batches_def faculty_count_def
      max_daily_load_def classes_per_week_def subjects_def get_default_def)

lemma generate_completes:
  assumes "optimizer_init c = Inr opt"
    and "1 \<le> classrooms c" and "1 \<le> batches c" and "1 \<le> faculty_count c"
  shows "\<exists>tt st. generate_optimized_schedule opt n g = Inr tt \<and> final_state opt g = Inr st"
proof -
  from optimizer_init_days [OF assms(1)] have
    o: "config opt = c" "distinct (days opt)" "days opt \<noteq> []"
       "distinct (time_slots opt)" "time_slots opt \<noteq> []"
       "\<not> cfg_academic_not_dict (config opt)" by blast+
  from assms(2,3) o(1) have r: "1 \<le> classrooms (config opt)" "1 \<le> batches (config opt)"
    by simp_all
  from faculty_pool_nonempty [OF assms(4)] o(1) have p: "faculty_pool (config opt) \<noteq> []"
    by simp
  from final_state_total [OF o(2,4,3,5) r p] obtain st where
    fs: "final_state opt g = Inr st" by blast
  from final_state_inv [OF fs o(2,4)] have i: "run_inv opt st" by simp
  from r(1) have "classrooms (config opt) \<noteq> 0" by simp
  from generate_total [OF fs i o(3,5) this o(6)] fs show ?thesis by blast
qed

lemma generate_inv:
  assumes "optimizer_init c = Inr opt" "generate_optimized_schedule opt n g = Inr tt"
  obtains st U where "final_state opt g = Inr st" "run_inv opt st"
    "classroom_utilization_raw opt st = Inr U"
    "tt_schedule tt = schedule st" "tt_conflicts tt = conflicts st"
    "tt_metrics tt =
       \<lparr>classroom_utilization = round1 U,
        faculty_load_balance = of_int (faculty_balance st),
        conflict_count = conflict_count_raw st,
        optimization_score = round1 (optimization_score_raw U
                  (faculty_balance st) (conflict_count_raw st)),
        total_classes_scheduled = total_scheduled st,
        faculty_utilization = round1 (if faculty_loads st = [] then 0
          else nearest_float (of_int (sum_list (faculty_loads st))
                 / of_nat (length (faculty_loads st))))\<rparr>"
proof -
  from optimizer_init_days [OF assms(1)] have
    o: "distinct (days opt)" "distinct (time_slots opt)" by blast+
  from assms(2) obtain st U where g: "final_state opt g = Inr st"
    "classroom_utilization_raw opt st = Inr U"
    "\<not> cfg_academic_not_dict (config opt)"
    "tt_schedule tt = schedule st" "tt_conflicts tt = conflicts st"
    "tt_metrics tt =
       \<lparr>classroom_utilization = round1 U,
        faculty_load_balance = of_int (faculty_balance st),
        conflict_count = conflict_count_raw st,
        optimization_score = round1 (optimization_score_raw U
                  (faculty_balance st) (conflict_count_raw st)),
        total_classes_scheduled = total_scheduled st,
        faculty_utilization = round1 (if faculty_loads st = [] then 0
          else nearest_float (of_int (sum_list (faculty_loads st))
                 / of_nat (length (faculty_loads st))))\<rparr>"
    by (rule generate_Inr)
  from final_state_inv [OF g(1) o] have i: "run_inv opt st" by simp
  show thesis by (rule that [OF g(1) i g(2) g(4-6)])
qed

lemma place_subject_bounds:
  assumes "place_subject opt subj c a st = Inr (c', a', st')"
  shows "a \<le> a' \<and> (a \<le> 100 \<longrightarrow> a' \<le> 100) \<and> c \<le> c'
     \<and> \<not> (c' < classes_per_week (config opt) \<and> a' < 100)
     \<and> (c \<le> classes_per_week (config opt) \<longrightarrow> c' \<le> classes_per_week (config opt))
     \<and> (a < a' \<longrightarrow> c < classes_per_week (config opt))
     \<and> c' - c \<le> int a' - int a"
  using assms
proof (induction opt subj c a st arbitrary: c' a' st' rule: place_subject.induct)
  case (1 opt subj c a st)
  show ?case
  proof (cases "c < classes_per_week (config opt) \<and> a < 100")
    case False
    with "1.prems"(1) have "c' = c" "a' = a"
      by (simp_all add: place_subject.simps [of opt subj c a st])
    with False show ?thesis by auto
  next
    case True
    from "1.prems"(1) True obtain x where
      at0: "attempt opt subj st = Inr x" by (cases "attempt opt subj st")
        (simp_all add: place_subject.simps [of opt subj c a st])
    obtain placed st1 where x: "x = (placed, st1)" by (cases x)
    from "1.prems"(1) True at0 x have
      rec: "place_subject opt subj (if placed then c + 1 else c) (a + 1) st1 = Inr (c', a', st')"
      by (simp add: place_subject.simps [of opt subj c a st])
    from "1.IH" [OF True at0 x [symmetric] rec]
    have ih: "a + 1 \<le> a'" "a + 1 \<le> 100 \<longrightarrow> a' \<le> 100"
      "(if placed then c + 1 else c) \<le> c'"
      "\<not> (c' < classes_per_week (config opt) \<and> a' < 100)"
      "(if placed then c + 1 else c) \<le> classes_per_week (config opt) \<longrightarrow>
         c' \<le> classes_per_week (config opt)"
      "c' - (if placed then c + 1 else c) \<le> int a' - int (a + 1)"
      by simp_all
    show ?thesis
    proof (cases placed)
      case True
      with ih \<open>c < classes_per_week (config opt) \<and> a < 100\<close> show ?thesis by auto
    next
      case False
      with ih \<open>c < classes_per_week (config opt) \<and> a < 100\<close> show ?thesis by auto
    qed
  qed
qed

lemma cell_ok_distinct_keys:
  assumes "cell_ok rooms bs c"
  shows "distinct (map fst c)"
proof -
  from assms have d: "distinct (map (batch \<circ> snd) c)"
    and k: "\<forall>kv \<in> set c. fst kv = class_id (subject (snd kv)) (batch (snd kv)) (room (snd kv))
          \<and> is_batch_name (batch (snd kv)) \<and> is_room_name (room (snd kv))"
    by (simp_all add: cell_ok_def)
  from d have dc: "distinct c" and inj: "inj_on (batch \<circ> snd) (set c)"
    by (simp_all add: distinct_map)
  have "inj_on fst (set c)"
  proof (rule inj_onI)
    fix x y assume x: "x \<in> set c" and y: "y \<in> set c" and e: "fst x = fst y"
    from k x y e have "class_id (subject (snd x)) (batch (snd x)) (room (snd x)) =
        class_id (subject (snd y)) (batch (snd y)) (room (snd y))"
      "is_batch_name (batch (snd x))" "is_room_name (room (snd x))"
      "is_batch_name (batch (snd y))" "is_room_name (room (snd y))" by auto
    from class_id_names_inject [OF this(2,3,4,5,1)] have "(batch \<circ> snd) x = (batch \<circ> snd) y"
      by simp
    with inj x y show "x = y" by (simp add: inj_on_def)
  qed
  with dc show ?thesis by (simp add: distinct_map)
qed

subsection \<open>Rounding and the reported metrics\<close>

lemma round_half_even_cases:
  "round_half_even x = \<lfloor>x\<rfloor> \<and> x - of_int \<lfloor>x\<rfloor> \<le> 1 / 2 \<or>
   round_half_even x = \<lfloor>x\<rfloor> + 1 \<and> 1 / 2 \<le> x - of_int \<lfloor>x\<rfloor>"
  by (auto simp add: round_half_even_def Let_def)

lemma round_half_even_near: "\<bar>of_int (round_half_even x) - x\<bar> \<le> 1 / 2"
proof -
  have f: "of_int \<lfloor>x\<rfloor> \<le> x" "x < of_int \<lfloor>x\<rfloor> + 1" by linarith+
  from round_half_even_cases [of x] f show ?thesis by auto
qed

lemma round1_decimal:
  "\<exists>k. round1 x = nearest_float (of_int k / 10) \<and> \<bar>of_int k / 10 - x\<bar> \<le> 1 / 20"
proof -
  have "\<bar>of_int (round_half_even (x * 10)) - x * 10\<bar> \<le> 1 / 2"
    by (rule round_half_even_near)
  then have "\<bar>of_int (round_half_even (x * 10)) / 10 - x\<bar> \<le> 1 / 20"
    by (simp add: abs_le_iff field_simps)
  then show ?thesis unfolding round1_def by blast
qed

lemma round_half_even_of_int: "round_half_even (of_int n) = n"
  by (simp add: round_half_even_def)

lemma nearest_float_0: "nearest_float 0 = 0"
  by (simp add: nearest_float_def)

lemma round1_0: "round1 0 = 0"
  using round_half_even_of_int [of 0] by (simp add: round1_def nearest_float_0)

lemma fmul_0: "fmul 0 y = 0"
  by (simp add: fmul_def nearest_float_0)

lemma faculty_loads_weekly:
  assumes "run_inv opt st" "distinct (days opt)"
  shows "faculty_loads st =
     weekly_totals (schedule st) (days opt) (time_slots opt) (faculty_pool (config opt))"
proof -
  from assms(1) have k: "keys_ok opt st" and l: "load_ok opt st" by (simp_all add: run_inv_def)
  from l have "\<And>f d. load_at (faculty_load st) f d =
      faculty_day_count (schedule st) (time_slots opt) f d"
    unfolding load_ok_def by blast
  then show ?thesis
    by (simp add: faculty_loads_eq [OF k assms(2)] weekly_totals_def)
qed

lemma generate_metrics:
  assumes "optimizer_init c = Inr opt" and "generate_optimized_schedule opt n g = Inr tt"
  shows "classrooms c \<noteq> 0 \<and>
     sum_list (weekly_totals (tt_schedule tt) (days opt) (time_slots opt) (faculty_pool c))
       = grid_size (tt_schedule tt) (days opt) (time_slots opt) \<and>
     tt_metrics tt =
       \<lparr>classroom_utilization =
          round1 (fmul (nearest_float
            (of_int (grid_size (tt_schedule tt) (days opt) (time_slots opt))
                   / of_int (total_possible_slots opt))) 100),
        faculty_load_balance =
          of_int
            (if faculty_pool c = [] then 100
             else max 0 (100 -
               (Max (set (weekly_totals (tt_schedule tt) (days opt) (time_slots opt)
                      (faculty_pool c)))
                - Min (set (weekly_totals (tt_schedule tt) (days opt) (time_slots opt)
                      (faculty_pool c)))) * 5)),
        conflict_count = int (length (tt_conflicts tt)),
        optimization_score =
          round1 (optimization_score_raw
            (fmul (nearest_float
              (of_int (grid_size (tt_schedule tt) (days opt) (time_slots opt))
                   / of_int (total_possible_slots opt))) 100)
            (if faculty_pool c = [] then 100
             else max 0 (100 -
               (Max (set (weekly_totals (tt_schedule tt) (days opt) (time_slots opt)
                      (faculty_pool c)))
                - Min (set (weekly_totals (tt_schedule tt) (days opt) (time_slots opt)
                      (faculty_pool c)))) * 5))
            (int (length (tt_conflicts tt)))),
        total_classes_scheduled = grid_size (tt_schedule tt) (days opt) (time_slots opt),
        faculty_utilization =
          round1 (if faculty_pool c = [] then 0
                  else nearest_float
                    (of_int (grid_size (tt_schedule tt) (days opt) (time_slots opt))
                       / of_nat (length (faculty_pool c))))\<rparr>"
proof -
  from optimizer_init_days [OF assms(1)] have
    o: "config opt = c" "distinct (days opt)" "days opt \<noteq> []" "time_slots opt \<noteq> []"
    by blast+
  from assms obtain st U where i: "run_inv opt st"
    and u: "classroom_utilization_raw opt st = Inr U"
    and sch: "tt_schedule tt = schedule st" and cf: "tt_conflicts tt = conflicts st"
    and m: "tt_metrics tt =
       \<lparr>classroom_utilization = round1 U,
        faculty_load_balance = of_int (faculty_balance st),
        conflict_count = conflict_count_raw st,
        optimization_score = round1 (optimization_score_raw U
                  (faculty_balance st) (conflict_count_raw st)),
        total_classes_scheduled = total_scheduled st,
        faculty_utilization = round1 (if faculty_loads st = [] then 0
          else nearest_float (of_int (sum_list (faculty_loads st))
                 / of_nat (length (faculty_loads st))))\<rparr>"
    by (rule generate_inv)
  let ?G = "grid_size (schedule st) (days opt) (time_slots opt)"
  let ?W = "weekly_totals (schedule st) (days opt) (time_slots opt) (faculty_pool c)"
  from i have co: "counts_ok opt st" by (simp add: run_inv_def)
  from co have tot: "total_scheduled st = ?G" and sm: "sum_list (faculty_loads st) = ?G"
    by (simp_all add: counts_ok_def)
  have fl: "faculty_loads st = ?W" using faculty_loads_weekly [OF i o(2)] by (simp add: o(1))
  have len: "length ?W = length (faculty_pool c)" by (simp add: weekly_totals_def)
  have emp: "(?W = []) = (faculty_pool c = [])" by (simp add: weekly_totals_def)
  from u inv_classroom_utilization [OF i o(3,4)] have
    r0: "classrooms c \<noteq> 0" and
    U: "U = fmul (nearest_float (of_int ?G / of_int (total_possible_slots opt))) 100"
    by (auto simp add: o(1) split: if_splits)
  have B: "faculty_balance st =
      (if faculty_pool c = [] then 100
       else max 0 (100 - (Max (set ?W) - Min (set ?W)) * 5))"
    using emp by (simp add: faculty_balance_def fl max_list_Max min_list_Min Let_def)
  have FU: "(if faculty_loads st = [] then 0
       else nearest_float (of_int (sum_list (faculty_loads st))
              / of_nat (length (faculty_loads st)))) =
      (if faculty_pool c = [] then 0
       else nearest_float (of_int ?G / of_nat (length (faculty_pool c))))"
    using emp sm by (simp add: fl len)
  have CC: "conflict_count_raw st = int (length (conflicts st))"
    by (simp add: conflict_count_raw_def)
  from sm fl have s: "sum_list ?W = ?G" by simp
  show ?thesis
    unfolding sch cf m U B FU CC tot using r0 s by simp
qed

subsection \<open>Concrete runs and failing draws\<close>

lemma two_faculty_optimizer_init: "optimizer_init two_faculty_config = Inr two_faculty_optimizer"
  by (simp add: optimizer_init_def two_faculty_optimizer_def two_faculty_config_def)

lemma two_faculty_run:
  "(case generate_optimized_schedule two_faculty_optimizer 1 (\<lambda>_. 0) of
     Inl e \<Rightarrow> None | Inr tt \<Rightarrow> Some (tt_metrics tt)) =
   Some \<lparr>classroom_utilization = nearest_float (28 / 10), faculty_load_balance = 95,
      conflict_count = 0, optimization_score = nearest_float (693 / 10),
      total_classes_scheduled = 1, faculty_utilization = 1 / 2\<rparr>"
  by code_simp

lemma two_faculty_tt:
  obtains tt where "generate_optimized_schedule two_faculty_optimizer 1 (\<lambda>_. 0) = Inr tt"
    "tt_metrics tt = \<lparr>classroom_utilization = nearest_float (28 / 10),
      faculty_load_balance = 95, conflict_count = 0,
      optimization_score = nearest_float (693 / 10), total_classes_scheduled = 1,
      faculty_utilization = 1 / 2\<rparr>"
  using two_faculty_run
  by (cases "generate_optimized_schedule two_faculty_optimizer 1 (\<lambda>_. 0)") simp_all

lemma exhausted_run:
  "(case generate_optimized_schedule
       (example_optimizer\<lparr>config := example_config\<lparr>cfg_classes_per_week := Some 2\<rparr>\<rparr>)
       1 (\<lambda>_. 0) of
     Inl e \<Rightarrow> None | Inr tt \<Rightarrow> Some (tt_metrics tt)) =
   Some \<lparr>classroom_utilization = nearest_float (28 / 10), faculty_load_balance = 100,
      conflict_count = 99, optimization_score = nearest_float (308 / 10),
      total_classes_scheduled = 1, faculty_utilization = 1\<rparr>"
  by code_simp

lemma five_day_optimizer_init:
  "optimizer_init (five_day_config n_rooms target) = Inr (five_day_optimizer n_rooms target)"
  by (simp add: optimizer_init_def five_day_optimizer_def five_day_config_def)

lemma five_day_run_20:
  "(case generate_optimized_schedule (five_day_optimizer 20 1) 1 (\<lambda>_. 0) of
     Inl e \<Rightarrow> None | Inr tt \<Rightarrow> Some (tt_metrics tt)) =
   Some \<lparr>classroom_utilization = nearest_float (2 / 10), faculty_load_balance = 95,
      conflict_count = 0, optimization_score = 685 / 10,
      total_classes_scheduled = 1, faculty_utilization = 1 / 2\<rparr>"
  by code_simp

lemma five_day_run_200:
  "(case generate_optimized_schedule (five_day_optimizer 200 3) 1 (\<lambda>n. n) of
     Inl e \<Rightarrow> None | Inr tt \<Rightarrow> Some (tt_metrics tt)) =
   Some \<lparr>classroom_utilization = nearest_float (1 / 10), faculty_load_balance = 95,
      conflict_count = 0, optimization_score = 685 / 10,
      total_classes_scheduled = 3, faculty_utilization = 3 / 2\<rparr>"
  by code_simp

lemma early_stop_run:
  "(case place_subject example_optimizer ''Math'' 0 0
           (initial_state example_optimizer (\<lambda>_. 0)) of
     Inl e \<Rightarrow> None | Inr (placed, attempts, st) \<Rightarrow> Some (placed, attempts)) = Some (1, 1)"
  by code_simp

lemma no_target_schedule_subjects:
  "classes_per_week (config opt) \<le> 0 \<Longrightarrow> schedule_subjects opt subjs st = Inr st"
  by (induction subjs) (simp_all add: place_subject.simps)

lemma no_target_final_state:
  assumes "classes_per_week (config opt) \<le> 0"
  shows "final_state opt g = Inr (initial_state opt g)"
  by (simp add: final_state_def no_target_schedule_subjects [OF assms])

lemma no_target_no_rooms:
  assumes "classes_per_week (config opt) \<le> 0" "classrooms (config opt) = 0"
    "distinct (days opt)" "days opt \<noteq> []" "time_slots opt \<noteq> []"
    "\<not> cfg_academic_not_dict (config opt)"
  shows "generate_optimized_schedule opt n g = Inl ZeroDivisionError"
  using assms(2,6)
  by (simp add: generate_optimized_schedule_def no_target_final_state [OF assms(1)]
      compute_metrics_def inv_classroom_utilization [OF initial_inv [OF assms(3)] assms(4,5)])

lemma attempt_no_rooms:
  assumes "classrooms (config opt) < 1" "days opt \<noteq> []" "time_slots opt \<noteq> []"
  shows "attempt opt subj st = Inl ValueError"
proof -
  from random_choice_total [OF assms(2)] obtain d g1 where
    1: "random_choice (days opt) (rng st) = Inr (d, g1)" by blast
  from random_choice_total [OF assms(3)] obtain s g2 where
    2: "random_choice (time_slots opt) g1 = Inr (s, g2)" by blast
  show ?thesis
    by (simp add: attempt_def draw_candidate_def 1 2 random_randint_empty [OF assms(1)])
qed

lemma attempt_no_batches:
  assumes "1 \<le> classrooms (config opt)" "batches (config opt) < 1"
    "days opt \<noteq> []" "time_slots opt \<noteq> []"
  shows "attempt opt subj st = Inl ValueError"
proof -
  from random_choice_total [OF assms(3)] obtain d g1 where
    1: "random_choice (days opt) (rng st) = Inr (d, g1)" by blast
  from random_choice_total [OF assms(4)] obtain s g2 where
    2: "random_choice (time_slots opt) g1 = Inr (s, g2)" by blast
  from random_randint_total [OF assms(1)] obtain r g3 where
    3: "random_randint 1 (classrooms (config opt)) g2 = Inr (r, g3)" by blast
  show ?thesis
    by (simp add: attempt_def draw_candidate_def 1 2 3 random_randint_empty [OF assms(2)])
qed

lemma attempt_no_faculty:
  assumes "1 \<le> classrooms (config opt)" "1 \<le> batches (config opt)"
    "faculty_pool (config opt) = []" "days opt \<noteq> []" "time_slots opt \<noteq> []"
  shows "attempt opt subj st = Inl IndexError"
proof -
  from random_choice_total [OF assms(4)] obtain d g1 where
    1: "random_choice (days opt) (rng st) = Inr (d, g1)" by blast
  from random_choice_total [OF assms(5)] obtain s g2 where
    2: "random_choice (time_slots opt) g1 = Inr (s, g2)" by blast
  from random_randint_total [OF assms(1)] obtain r g3 where
    3: "random_randint 1 (classrooms (config opt)) g2 = Inr (r, g3)" by blast
  from random_randint_total [OF assms(2)] obtain b g4 where
    4: "random_randint 1 (batches (config opt)) g3 = Inr (b, g4)" by blast
  have 5: "random_choice (faculty_pool (config opt)) g4 = Inl IndexError"
    by (simp add: random_choice_def assms(3))
  show ?thesis
    by (simp add: attempt_def draw_candidate_def 1 2 3 4 5)
qed

lemma first_attempt_raises:
  assumes "attempt opt subj (initial_state opt g) = Inl e"
    "subjects (config opt) = subj # rest" "0 < classes_per_week (config opt)"
    "\<not> cfg_academic_not_dict (config opt)"
  shows "generate_optimized_schedule opt n g = Inl e"
  using assms
  by (simp add: generate_optimized_schedule_def final_state_def
      place_subject.simps [of opt subj 0 0])

subsection \<open>Rounding to the nearest float\<close>

lemma pow2_powi: "pow2 k = 2 powi k"
proof (cases "0 \<le> k")
  case True
  then show ?thesis by (simp add: pow2_def power_int_def)
next
  case False
  then have "pow2 k = 1 / 2 ^ nat (- k)" by (simp add: pow2_def)
  also have "\<dots> = inverse 2 ^ nat (- k)" by (simp add: inverse_eq_divide power_one_over)
  also have "\<dots> = 2 powi k" using False by (simp only: power_int_def if_False)
  finally show ?thesis .
qed

lemma pow2_pos: "0 < pow2 k"
  by (simp add: pow2_def)

lemma pow2_diff: "pow2 (a - b) = pow2 a / pow2 b"
  by (simp add: pow2_powi power_int_diff)

lemma pow2_nat: "0 \<le> k \<Longrightarrow> pow2 k = 2 ^ nat k"
  by (simp add: pow2_def)

lemma floor_log2_le:
  assumes "0 < x"
  shows "pow2 (floor_log2 x) \<le> x"
proof -
  obtain p q where pq: "quotient_of x = (p, q)" by (cases "quotient_of x")
  from quotient_of_denom_pos [OF pq] have q: "0 < q" .
  from quotient_of_div [OF pq] have x: "x = of_int p / of_int q" .
  from assms x q have p: "0 < p" by (simp add: zero_less_divide_iff)
  let ?d = "bitlen p - bitlen q"
  show ?thesis
  proof (cases "pow2 ?d \<le> x")
    case True
    then show ?thesis by (simp add: floor_log2_def pq)
  next
    case False
    from bitlen_bounds [OF p] have lo: "2 ^ nat (bitlen p - 1) \<le> p" by simp
    from bitlen_bounds [OF q] have hi: "q < 2 ^ nat (bitlen q)" by simp
    from p have bp: "1 \<le> bitlen p" by (simp add: bitlen_alt_def)
    have bq: "0 \<le> bitlen q" by (rule bitlen_nonneg)
    have "pow2 (?d - 1) = pow2 (bitlen p - 1) / pow2 (bitlen q)"
      using pow2_diff [of "bitlen p - 1" "bitlen q"] by (simp add: algebra_simps)
    also have "\<dots> = 2 ^ nat (bitlen p - 1) / 2 ^ nat (bitlen q)"
      using bp bq by (simp add: pow2_nat)
    also have "\<dots> \<le> of_int p / of_int q"
    proof (rule frac_le)
      from lo have "(of_int (2 ^ nat (bitlen p - 1)) :: rat) \<le> of_int p"
        by (simp only: of_int_le_iff)
      then show "(2::rat) ^ nat (bitlen p - 1) \<le> of_int p" by simp
      from hi have "(of_int q :: rat) \<le> of_int (2 ^ nat (bitlen q))"
        by (simp only: of_int_le_iff)
      then show "(of_int q :: rat) \<le> 2 ^ nat (bitlen q)" by simp
      from p show "(0::rat) \<le> of_int p" by simp
      from q show "(0::rat) < of_int q" by simp
    qed
    finally have "pow2 (?d - 1) \<le> x" by (simp add: x)
    with False show ?thesis by (simp add: floor_log2_def pq)
  qed
qed

lemma floor_log2_less:
  assumes "0 < x"
  shows "x < pow2 (floor_log2 x + 1)"
proof -
  obtain p q where pq: "quotient_of x = (p, q)" by (cases "quotient_of x")
  from quotient_of_denom_pos [OF pq] have q: "0 < q" .
  from quotient_of_div [OF pq] have x: "x = of_int p / of_int q" .
  from assms x q have p: "0 < p" by (simp add: zero_less_divide_iff)
  let ?d = "bitlen p - bitlen q"
  show ?thesis
  proof (cases "pow2 ?d \<le> x")
    case False
    then show ?thesis by (simp add: floor_log2_def pq)
  next
    case True
    from bitlen_bounds [OF p] have hi: "p < 2 ^ nat (bitlen p)" by simp
    from bitlen_bounds [OF q] have lo: "2 ^ nat (bitlen q - 1) \<le> q" by simp
    from q have bq: "1 \<le> bitlen q" by (simp add: bitlen_alt_def)
    have bp: "0 \<le> bitlen p" by (rule bitlen_nonneg)
    have "of_int p / of_int q < (2::rat) ^ nat (bitlen p) / 2 ^ nat (bitlen q - 1)"
    proof (rule frac_less)
      from p show "(0::rat) \<le> of_int p" by simp
      from hi have "(of_int p :: rat) < of_int (2 ^ nat (bitlen p))"
        by (simp only: of_int_less_iff)
      then show "(of_int p :: rat) < 2 ^ nat (bitlen p)" by simp
      show "(0::rat) < 2 ^ nat (bitlen q - 1)" by simp
      from lo have "(of_int (2 ^ nat (bitlen q - 1)) :: rat) \<le> of_int q"
        by (simp only: of_int_le_iff)
      then show "(2::rat) ^ nat (bitlen q - 1) \<le> of_int q" by simp
    qed
    also have "(2::rat) ^ nat (bitlen p) / 2 ^ nat (bitlen q - 1)
        = pow2 (bitlen p) / pow2 (bitlen q - 1)"
      using bp bq by (simp add: pow2_nat)
    also have "\<dots> = pow2 (?d + 1)"
      using pow2_diff [of "bitlen p" "bitlen q - 1"] by (simp add: algebra_simps)
    finally have "x < pow2 (?d + 1)" by (simp add: x)
    with True show ?thesis by (simp add: floor_log2_def pq)
  qed
qed

lemma nearest_float_error:
  "\<bar>nearest_float x - x\<bar> \<le> \<bar>x\<bar> / 2 ^ 53 + 1 / 2 ^ 1075"
proof (cases "x = 0")
  case True
  then show ?thesis by (simp add: nearest_float_def)
next
  case False
  let ?e = "floor_log2 \<bar>x\<bar>"
  let ?u = "pow2 (max (?e - 52) (- 1074))"
  have u: "0 < ?u" by (rule pow2_pos)
  have nf: "nearest_float x = of_int (round_half_even (x / ?u)) * ?u"
    using False by (simp add: nearest_float_def Let_def)
  have "\<bar>of_int (round_half_even (x / ?u)) - x / ?u\<bar> \<le> 1 / 2"
    by (rule round_half_even_near)
  then have "\<bar>of_int (round_half_even (x / ?u)) - x / ?u\<bar> * ?u \<le> 1 / 2 * ?u"
    using u by (simp only: mult_le_cancel_right_pos)
  moreover have "\<bar>of_int (round_half_even (x / ?u)) - x / ?u\<bar> * ?u
      = \<bar>of_int (round_half_even (x / ?u)) * ?u - x\<bar>"
  proof -
    have "\<bar>of_int (round_half_even (x / ?u)) - x / ?u\<bar> * ?u
        = \<bar>(of_int (round_half_even (x / ?u)) - x / ?u) * ?u\<bar>"
      using u by (simp add: abs_mult)
    also have "(of_int (round_half_even (x / ?u)) - x / ?u) * ?u
        = of_int (round_half_even (x / ?u)) * ?u - x"
      using u by (simp add: algebra_simps)
    finally show ?thesis .
  qed
  ultimately have half: "\<bar>nearest_float x - x\<bar> \<le> ?u / 2" by (simp add: nf)
  from False have "0 < \<bar>x\<bar>" by simp
  from floor_log2_le [OF this] have e: "pow2 ?e \<le> \<bar>x\<bar>" .
  have "pow2 (?e - 52) = pow2 ?e / 2 ^ 52"
    using pow2_diff [of ?e 52] by (simp add: pow2_nat)
  with e have 1: "pow2 (?e - 52) \<le> \<bar>x\<bar> / 2 ^ 52" by (simp add: divide_right_mono)
  have 2: "pow2 (- 1074) = 1 / 2 ^ 1074" by (simp add: pow2_def)
  have "?u \<le> \<bar>x\<bar> / 2 ^ 52 + 1 / 2 ^ 1074"
  proof (cases "?e - 52 \<le> - 1074")
    case True
    then have "?u = pow2 (- 1074)" by (simp add: max_def)
    with 2 show ?thesis by simp
  next
    case False
    then have "?u = pow2 (?e - 52)" by (simp add: max_def)
    with 1 show ?thesis by simp
  qed
  then have "?u / 2 \<le> (\<bar>x\<bar> / 2 ^ 52 + 1 / 2 ^ 1074) / 2" by (simp add: divide_right_mono)
  also have "\<dots> = \<bar>x\<bar> / 2 ^ 53 + 1 / 2 ^ 1075" by simp
  finally show ?thesis using half by simp
qed

subsection \<open>The float score and the sum of the formula\<close>

lemma nearest_float_error_53: "\<bar>nearest_float x - x\<bar> \<le> (\<bar>x\<bar> + 1) / 2 ^ 53"
proof -
  have "(1::rat) / 2 ^ 1075 \<le> 1 / 2 ^ 53"
    by (rule divide_left_mono) (simp_all add: power_increasing)
  with nearest_float_error [of x] have "\<bar>nearest_float x - x\<bar> \<le> \<bar>x\<bar> / 2 ^ 53 + 1 / 2 ^ 53"
    by linarith
  then show ?thesis by (simp add: add_divide_distrib)
qed

lemma float_three_tenths: "nearest_float (3 / 10) = 5404319552844595 / 18014398509481984"
  by code_simp

lemma float_four_tenths: "nearest_float (4 / 10) = 3602879701896397 / 9007199254740992"
  by code_simp

lemma optimization_score_raw_close:
  assumes "0 \<le> B" "B \<le> 100" "0 \<le> M" "M \<le> 100"
  shows "\<bar>fadd (fadd (fmul U (nearest_float (3 / 10)))
                   (fmul (float_of_int B) (nearest_float (3 / 10))))
             (fmul (float_of_int M) (nearest_float (4 / 10)))
         - (3 / 10 * U + 3 / 10 * of_int B + 4 / 10 * of_int M)\<bar>
     \<le> (\<bar>U\<bar> + 100) / 2 ^ 50"
proof -
  let ?c3 = "5404319552844595 / 18014398509481984 :: rat"
  let ?c4 = "3602879701896397 / 9007199254740992 :: rat"
  define b :: rat where "b = of_int B"
  define m :: rat where "m = of_int M"
  define b' where "b' = nearest_float b"
  define m' where "m' = nearest_float m"
  define x1 where "x1 = nearest_float (U * ?c3)"
  define x2 where "x2 = nearest_float (b' * ?c3)"
  define x3 where "x3 = nearest_float (m' * ?c4)"
  define s1 where "s1 = nearest_float (x1 + x2)"
  define s2 where "s2 = nearest_float (s1 + x3)"
  have e: "(2::rat) ^ 53 = 9007199254740992" "(2::rat) ^ 50 = 1125899906842624" by simp_all
  from assms have bb: "0 \<le> b" "b \<le> 100" "0 \<le> m" "m \<le> 100"
    by (simp_all add: b_def m_def)
  have 1: "\<bar>x1 - 3 / 10 * U\<bar> \<le> (\<bar>U\<bar> + 1) / 2 ^ 53"
    using nearest_float_error_53 [of "U * ?c3"] unfolding x1_def e
    by (simp add: abs_mult abs_le_iff field_simps abs_if split: if_splits)
  have 2: "\<bar>b' - b\<bar> \<le> 101 / 2 ^ 53"
    using nearest_float_error_53 [of b] bb unfolding b'_def e
    by (simp add: abs_mult abs_le_iff field_simps abs_if split: if_splits)
  have 3: "\<bar>m' - m\<bar> \<le> 101 / 2 ^ 53"
    using nearest_float_error_53 [of m] bb unfolding m'_def e
    by (simp add: abs_mult abs_le_iff field_simps abs_if split: if_splits)
  have 4: "\<bar>x2 - 3 / 10 * b\<bar> \<le> 75 / 2 ^ 53"
    using nearest_float_error_53 [of "b' * ?c3"] 2 bb unfolding x2_def e
    by (simp add: abs_mult abs_le_iff field_simps abs_if split: if_splits)
  have 5: "\<bar>x3 - 4 / 10 * m\<bar> \<le> 110 / 2 ^ 53"
    using nearest_float_error_53 [of "m' * ?c4"] 3 bb unfolding x3_def e
    by (simp add: abs_mult abs_le_iff field_simps abs_if split: if_splits)
  have 6: "\<bar>s1 - (3 / 10 * U + 3 / 10 * b)\<bar> \<le> (3 * \<bar>U\<bar> + 109) / 2 ^ 53"
    using nearest_float_error_53 [of "x1 + x2"] 1 4 bb unfolding s1_def e
    by (simp add: abs_mult abs_le_iff field_simps abs_if split: if_splits)
  have 7: "\<bar>s2 - (3 / 10 * U + 3 / 10 * b + 4 / 10 * m)\<bar> \<le> (\<bar>U\<bar> + 100) / 2 ^ 50"
    using nearest_float_error_53 [of "s1 + x3"] 6 5 bb unfolding s2_def e
    by (simp add: abs_mult abs_le_iff field_simps abs_if split: if_splits)
  have "fadd (fadd (fmul U (nearest_float (3 / 10)))
                   (fmul (float_of_int B) (nearest_float (3 / 10))))
             (fmul (float_of_int M) (nearest_float (4 / 10))) = s2"
    by (simp only: fadd_def fmul_def float_of_int_def float_three_tenths float_four_tenths
        s2_def s1_def x1_def x2_def x3_def b'_def m'_def b_def m_def)
  with 7 show ?thesis by (simp only: b_def m_def)
qed

subsection \<open>Exclusivity of rooms and batches, daily load\<close>

text \<open>
  Claim C1. For every configuration with at least one room, one batch and one faculty
  member, a candidate-generation run completes, and in the grid it returns no two
  sessions of a (day, slot) cell have the same room, no two have the same batch, and no
  faculty member has more sessions on one day than the configured maximum daily load.
  The sessions of a faculty member on a day are counted over the slots of the time grid;
  the grid has no session outside the configured days and slots. The bound is stated
  twice: as \<open>max 0\<close> of the maximum for any integer, and as the maximum itself when it
  is not negative, as the specification requires of every field of a Configuration.
\<close>

theorem generated_schedule_exclusive:
  assumes "optimizer_init c = Inr opt"
    and "1 \<le> classrooms c" and "1 \<le> batches c" and "1 \<le> faculty_count c"
  shows "\<exists>tt. generate_optimized_schedule opt n g = Inr tt \<and>
     (\<forall>d s. distinct (map (room \<circ> snd) (cell_at (tt_schedule tt) d s))) \<and>
     (\<forall>d s. distinct (map (batch \<circ> snd) (cell_at (tt_schedule tt) d s))) \<and>
     (\<forall>d s. cell_at (tt_schedule tt) d s \<noteq> [] \<longrightarrow>
        d \<in> set (days opt) \<and> s \<in> set (time_slots opt)) \<and>
     (\<forall>f d. faculty_day_count (tt_schedule tt) (time_slots opt) f d
        \<le> max 0 (max_daily_load c)) \<and>
     (0 \<le> max_daily_load c \<longrightarrow>
        (\<forall>f d. faculty_day_count (tt_schedule tt) (time_slots opt) f d \<le> max_daily_load c))"
proof -
  from optimizer_init_days [OF assms(1)] have
    o: "config opt = c" "distinct (days opt)" "days opt \<noteq> []"
       "distinct (time_slots opt)" "time_slots opt \<noteq> []"
       "\<not> cfg_academic_not_dict (config opt)" by blast+
  from assms(2,3) o(1) have r: "1 \<le> classrooms (config opt)" "1 \<le> batches (config opt)"
    by simp_all
  from faculty_pool_nonempty [OF assms(4)] o(1) have p: "faculty_pool (config opt) \<noteq> []"
    by simp
  from final_state_total [OF o(2,4,3,5) r p] obtain st where
    fs: "final_state opt g = Inr st" by blast
  from final_state_inv [OF fs o(2,4)] have i: "run_inv opt st" by simp
  from r(1) have "classrooms (config opt) \<noteq> 0" by simp
  from generate_total [OF fs i o(3,5) this o(6)] obtain tt where
    tt: "generate_optimized_schedule opt n g = Inr tt" by blast
  from tt obtain st' where "final_state opt g = Inr st'" "tt_schedule tt = schedule st'"
    by (rule generate_Inr)
  with fs have sch: "tt_schedule tt = schedule st" by simp
  from i have gr: "grid_ok opt st" and lo: "load_ok opt st" by (simp_all add: run_inv_def)
  have 1: "\<forall>d s. distinct (map (room \<circ> snd) (cell_at (tt_schedule tt) d s))"
    using gr unfolding grid_ok_def cell_ok_def sch by blast
  have 2: "\<forall>d s. distinct (map (batch \<circ> snd) (cell_at (tt_schedule tt) d s))"
    using gr unfolding grid_ok_def cell_ok_def sch by blast
  have 3: "\<forall>d s. cell_at (tt_schedule tt) d s \<noteq> [] \<longrightarrow>
        d \<in> set (days opt) \<and> s \<in> set (time_slots opt)"
    using gr unfolding grid_ok_def sch by blast
  have 4: "\<forall>f d. faculty_day_count (tt_schedule tt) (time_slots opt) f d
        \<le> max 0 (max_daily_load c)"
    using lo unfolding load_ok_def sch o(1) by metis
  from 4 have 5: "0 \<le> max_daily_load c \<longrightarrow>
        (\<forall>f d. faculty_day_count (tt_schedule tt) (time_slots opt) f d \<le> max_daily_load c)"
    by (auto simp add: max_def)
  from tt 1 2 3 4 5 show ?thesis by blast
qed

theorem generated_schedule_exclusive_witness:
  "\<exists>tt. generate_optimized_schedule
      \<lparr>config = \<lparr>cfg_subject_list = Some [''Math''], cfg_classrooms = Some 1,
          cfg_batches = Some 1, cfg_count = Some 1, cfg_max_load = Some 6,
          cfg_max_classes_day = None, cfg_classes_per_week = Some 1, cfg_days_week = None,
          cfg_academic_not_dict = False\<rparr>,
        time_slots = all_time_slots, days = all_days\<rparr> 1 (\<lambda>_. 0) = Inr tt \<and>
     (\<forall>d s. distinct (map (room \<circ> snd) (cell_at (tt_schedule tt) d s))) \<and>
     (\<forall>f d. faculty_day_count (tt_schedule tt) all_time_slots f d \<le> 6)"
proof -
  let ?c = "\<lparr>cfg_subject_list = Some [''Math''], cfg_classrooms = Some 1,
          cfg_batches = Some 1, cfg_count = Some 1, cfg_max_load = Some 6,
          cfg_max_classes_day = None, cfg_classes_per_week = Some 1, cfg_days_week = None,
          cfg_academic_not_dict = False\<rparr>"
  let ?opt = "\<lparr>config = ?c, time_slots = all_time_slots, days = all_days\<rparr>"
  have 0: "optimizer_init ?c = Inr ?opt" by (simp add: optimizer_init_def)
  have 1: "1 \<le> classrooms ?c" "1 \<le> batches ?c" "1 \<le> faculty_count ?c"
    by (simp_all add: classrooms_def batches_def faculty_count_def get_default_def)
  have m: "max_daily_load ?c = 6" by (simp add: max_daily_load_def get_default_def)
  from generated_schedule_exclusive [OF 0 1, of 1 "\<lambda>_. 0"] m show ?thesis
    by auto
qed

subsection \<open>Building the optimizer from a raw configuration\<close>

text \<open>
  Claim C2 says that an empty subject list or a negative numeric field makes the
  construction fail with \<open>InvalidConfigError\<close>. The constructor validates nothing: on the
  default record with an empty subject list, and on the default record with \<open>-1\<close>
  classrooms, the validation of the specification answers \<open>InvalidConfigError\<close> while
  \<open>optimizer_init\<close> returns an optimizer that holds the record as it is.
\<close>

theorem invalid_config_accepted:
  "spec_build_configuration (default_config\<lparr>cfg_subject_list := Some []\<rparr>)
     = Inl InvalidConfigError \<and>
   optimizer_init (default_config\<lparr>cfg_subject_list := Some []\<rparr>)
     = Inr \<lparr>config = default_config\<lparr>cfg_subject_list := Some []\<rparr>,
            time_slots = all_time_slots, days = all_days\<rparr> \<and>
   subjects (default_config\<lparr>cfg_subject_list := Some []\<rparr>) = [] \<and>
   spec_build_configuration (default_config\<lparr>cfg_classrooms := Some (- 1)\<rparr>)
     = Inl InvalidConfigError \<and>
   optimizer_init (default_config\<lparr>cfg_classrooms := Some (- 1)\<rparr>)
     = Inr \<lparr>config = default_config\<lparr>cfg_classrooms := Some (- 1)\<rparr>,
            time_slots = all_time_slots, days = all_days\<rparr> \<and>
   classrooms (default_config\<lparr>cfg_classrooms := Some (- 1)\<rparr>) = - 1"
  by (simp add: spec_build_configuration_def spec_negative_def optimizer_init_def
      default_config_def subjects_def classrooms_def get_default_def)

text \<open>
  Claim C2, as amended. The constructor tests no field and never raises
  \<open>InvalidConfigError\<close>. Its one failure is the \<open>AttributeError\<close> of the chained \<open>get\<close>: on
  a configuration that is not a dict, and on a dict whose entry \<open>'academic'\<close> is not a
  dict. On every other record, also one with an empty subject list or negative numbers,
  it returns an optimizer that holds the record unchanged, with the six fixed slots and
  six days, or the first five days when \<open>days_week\<close> is 5. The documented defaults are
  applied where a field is absent: five generic subjects, 10 rooms, 15 batches, a
  faculty count of 30 that the pool of generated names caps at 18, a maximum daily load
  of 6, and 4 sessions per week; a field that is present is taken as it is.
\<close>

theorem constructor_validates_nothing:
  "new_optimizer Not_A_Dict = Inl AttributeError \<and>
   new_optimizer (Dict raw) = optimizer_init raw \<and>
   optimizer_init raw =
     (if cfg_academic_not_dict raw then Inl AttributeError
      else Inr \<lparr>config = raw, time_slots = all_time_slots,
             days = (if cfg_days_week raw = Some 5 then take 5 all_days else all_days)\<rparr>) \<and>
   new_optimizer v \<noteq> Inl InvalidConfigError \<and>
   (\<exists>opt. optimizer_init (raw\<lparr>cfg_subject_list := Some [], cfg_classrooms := Some (- 1),
              cfg_academic_not_dict := False\<rparr>) = Inr opt \<and>
      subjects (config opt) = [] \<and> classrooms (config opt) = - 1) \<and>
   length all_time_slots = 6 \<and> length all_days = 6 \<and>
   subjects (raw\<lparr>cfg_subject_list := None\<rparr>)
     = [''Math'', ''Physics'', ''Chemistry'', ''CS'', ''English''] \<and>
   classrooms (raw\<lparr>cfg_classrooms := None\<rparr>) = 10 \<and>
   batches (raw\<lparr>cfg_batches := None\<rparr>) = 15 \<and>
   faculty_count (raw\<lparr>cfg_count := None\<rparr>) = 30 \<and>
   length (faculty_pool (raw\<lparr>cfg_count := None\<rparr>)) = 18 \<and>
   max_daily_load (raw\<lparr>cfg_max_load := None\<rparr>) = 6 \<and>
   classes_per_week (raw\<lparr>cfg_classes_per_week := None\<rparr>) = 4 \<and>
   subjects (raw\<lparr>cfg_subject_list := Some xs\<rparr>) = xs \<and>
   classrooms (raw\<lparr>cfg_classrooms := Some k\<rparr>) = k \<and>
   batches (raw\<lparr>cfg_batches := Some k\<rparr>) = k \<and>
   faculty_count (raw\<lparr>cfg_count := Some k\<rparr>) = k \<and>
   max_daily_load (raw\<lparr>cfg_max_load := Some k\<rparr>) = k \<and>
   classes_per_week (raw\<lparr>cfg_classes_per_week := Some k\<rparr>) = k"
proof -
  have 1: "new_optimizer v \<noteq> Inl InvalidConfigError"
    by (cases v) (simp_all add: new_optimizer_def optimizer_init_def)
  have 2: "\<exists>opt. optimizer_init (raw\<lparr>cfg_subject_list := Some [], cfg_classrooms := Some (- 1),
              cfg_academic_not_dict := False\<rparr>) = Inr opt \<and>
      subjects (config opt) = [] \<and> classrooms (config opt) = - 1"
    by (simp add: optimizer_init_def subjects_def classrooms_def get_default_def)
  have 3: "length (faculty_pool (raw\<lparr>cfg_count := None\<rparr>)) = 18"
    by (simp add: faculty_count_def faculty_pool_def slice_to_def faculty_names_def
        get_default_def)
  from 1 2 3 show ?thesis
    by (simp add: new_optimizer_def optimizer_init_def all_time_slots_def all_days_def
        subjects_def classrooms_def batches_def faculty_count_def
        max_daily_load_def classes_per_week_def get_default_def)
qed

subsection \<open>Configurations without rooms, batches or faculty\<close>

text \<open>
  Claim C3 says that a run with no room raises no error and records 100 rejected
  attempts for the subject. The code does otherwise: with the default configuration and
  \<open>classrooms = 0\<close>, the first attempt of the first subject raises \<open>ValueError\<close> at
  \<open>random.randint(1, 0)\<close>, for every random source, and no conflict is ever recorded; when
  no attempt is made at all (a target of 0 classes) the division by
  \<open>total_possible_slots = 0\<close> raises \<open>ZeroDivisionError\<close>. No batch gives the same
  \<open>ValueError\<close> at the batch draw, and no faculty an \<open>IndexError\<close> at \<open>random.choice\<close>
  of the empty pool.
\<close>

theorem zero_rooms_run_raises:
  "run (default_config\<lparr>cfg_classrooms := Some 0\<rparr>) n g = Inl ValueError \<and>
   run (default_config\<lparr>cfg_classrooms := Some 0, cfg_classes_per_week := Some 0\<rparr>) n g
     = Inl ZeroDivisionError \<and>
   run (default_config\<lparr>cfg_batches := Some 0\<rparr>) n g = Inl ValueError \<and>
   run (default_config\<lparr>cfg_count := Some 0\<rparr>) n g = Inl IndexError"
proof -
  let ?opt = "\<lambda>c. \<lparr>config = c, time_slots = all_time_slots, days = all_days\<rparr>"
  have r: "\<And>c. cfg_days_week c = None \<Longrightarrow> \<not> cfg_academic_not_dict c \<Longrightarrow>
      run c n g = generate_optimized_schedule (?opt c) n g"
    by (simp add: run_def optimizer_init_def)
  have ne: "all_days \<noteq> []" "all_time_slots \<noteq> []" "distinct all_days"
    by (simp_all add: all_days_def all_time_slots_def)
  let ?c1 = "default_config\<lparr>cfg_classrooms := Some 0\<rparr>"
  have "attempt (?opt ?c1) ''Math'' (initial_state (?opt ?c1) g) = Inl ValueError"
    by (rule attempt_no_rooms) (simp_all add: ne classrooms_def get_default_def)
  then have 1: "generate_optimized_schedule (?opt ?c1) n g = Inl ValueError"
    by (rule first_attempt_raises)
      (simp_all add: default_config_def subjects_def classes_per_week_def get_default_def)
  let ?c2 = "default_config\<lparr>cfg_classrooms := Some 0, cfg_classes_per_week := Some 0\<rparr>"
  have 2: "generate_optimized_schedule (?opt ?c2) n g = Inl ZeroDivisionError"
    by (rule no_target_no_rooms)
      (simp_all add: ne default_config_def classrooms_def classes_per_week_def
        get_default_def)
  let ?c3 = "default_config\<lparr>cfg_batches := Some 0\<rparr>"
  have "attempt (?opt ?c3) ''Math'' (initial_state (?opt ?c3) g) = Inl ValueError"
    by (rule attempt_no_batches)
      (simp_all add: ne default_config_def classrooms_def batches_def get_default_def)
  then have 3: "generate_optimized_schedule (?opt ?c3) n g = Inl ValueError"
    by (rule first_attempt_raises)
      (simp_all add: default_config_def subjects_def classes_per_week_def get_default_def)
  let ?c4 = "default_config\<lparr>cfg_count := Some 0\<rparr>"
  have "attempt (?opt ?c4) ''Math'' (initial_state (?opt ?c4) g) = Inl IndexError"
    by (rule attempt_no_faculty)
      (simp_all add: ne default_config_def classrooms_def batches_def get_default_def
        faculty_pool_def faculty_count_def slice_to_def)
  then have 4: "generate_optimized_schedule (?opt ?c4) n g = Inl IndexError"
    by (rule first_attempt_raises)
      (simp_all add: default_config_def subjects_def classes_per_week_def get_default_def)
  from 1 2 3 4 show ?thesis by (simp add: r default_config_def)
qed

subsection \<open>The optimization score\<close>

text \<open>
  Claim C4. For every run that returns, the optimization score is 0.3 times the classroom
  utilization plus 0.3 times the faculty load balance plus 0.4 times
  \<open>max(0, 100 - 5 * conflict_count)\<close>, where the load balance is
  \<open>max(0, 100 - 5 * (max - min))\<close> of the weekly totals of the faculty pool, and 100 when
  the pool is empty or no faculty member has any load. The utilization is the number of
  sessions of the grid over \<open>days * slots * rooms\<close>, times 100; the weekly total of a
  faculty member is the number of sessions of the grid that name them.

  The sum is a sum of floats: the three products and the two additions are those of
  the float arithmetic, on the utilization and the balance as they are, before any
  rounding for the output. It differs from the sum of the formula in exact arithmetic
  by the rounding of these operations only, at most \<open>(U + 100) / 2 ^ 50\<close> for a
  utilization \<open>U\<close>. The metrics report the float sum to one decimal place (see C10).
\<close>

theorem optimization_score_formula:
  assumes "optimizer_init c = Inr opt" and "generate_optimized_schedule opt n g = Inr tt"
  shows "\<exists>U B S.
     U = fmul (nearest_float
           (of_int (grid_size (tt_schedule tt) (days opt) (time_slots opt))
            / of_int (total_possible_slots opt))) 100 \<and>
     B = (if faculty_pool c = [] then 100
          else max 0 (100 - 5 *
            (Max (set (weekly_totals (tt_schedule tt) (days opt) (time_slots opt)
                        (faculty_pool c)))
             - Min (set (weekly_totals (tt_schedule tt) (days opt) (time_slots opt)
                        (faculty_pool c)))))) \<and>
     ((\<forall>w \<in> set (weekly_totals (tt_schedule tt) (days opt) (time_slots opt)
          (faculty_pool c)). w = 0) \<longrightarrow> B = 100) \<and>
     S = fadd (fadd (fmul U (nearest_float (3 / 10)))
                    (fmul (float_of_int B) (nearest_float (3 / 10))))
              (fmul (float_of_int (max 0 (100 - 5 * conflict_count (tt_metrics tt))))
                    (nearest_float (4 / 10))) \<and>
     \<bar>S - (3 / 10 * U + 3 / 10 * of_int B
            + 4 / 10 * of_int (max 0 (100 - 5 * conflict_count (tt_metrics tt))))\<bar>
       \<le> (\<bar>U\<bar> + 100) / 2 ^ 50 \<and>
     classroom_utilization (tt_metrics tt) = round1 U \<and>
     faculty_load_balance (tt_metrics tt) = of_int B \<and>
     conflict_count (tt_metrics tt) = int (length (tt_conflicts tt)) \<and>
     optimization_score (tt_metrics tt) = round1 S"
proof -
  let ?W = "weekly_totals (tt_schedule tt) (days opt) (time_slots opt) (faculty_pool c)"
  let ?U = "fmul (nearest_float
           (of_int (grid_size (tt_schedule tt) (days opt) (time_slots opt))
            / of_int (total_possible_slots opt))) 100"
  let ?B = "if faculty_pool c = [] then 100 else max 0 (100 - 5 * (Max (set ?W) - Min (set ?W)))"
  let ?M = "max 0 (100 - 5 * int (length (tt_conflicts tt)))"
  let ?S = "fadd (fadd (fmul ?U (nearest_float (3 / 10)))
                    (fmul (float_of_int ?B) (nearest_float (3 / 10))))
              (fmul (float_of_int ?M) (nearest_float (4 / 10)))"
  have B': "?B = (if faculty_pool c = [] then 100
      else max 0 (100 - (Max (set ?W) - Min (set ?W)) * 5))"
    by (simp add: mult.commute)
  have S': "optimization_score_raw ?U ?B (int (length (tt_conflicts tt))) = ?S"
    by (simp add: optimization_score_raw_def mult.commute)
  from generate_metrics [OF assms] have m: "classroom_utilization (tt_metrics tt) = round1 ?U"
    "faculty_load_balance (tt_metrics tt) = of_int ?B"
    "conflict_count (tt_metrics tt) = int (length (tt_conflicts tt))"
    "optimization_score (tt_metrics tt)
       = round1 (optimization_score_raw ?U ?B (int (length (tt_conflicts tt))))"
    unfolding B' by simp_all
  have z: "(\<forall>w \<in> set ?W. w = 0) \<longrightarrow> ?B = 100"
  proof
    assume a: "\<forall>w \<in> set ?W. w = 0"
    show "?B = 100"
    proof (cases "faculty_pool c = []")
      case True
      then show ?thesis by simp
    next
      case False
      then have "?W \<noteq> []" by (simp add: weekly_totals_def)
      with a have "set ?W = {0}" by (cases ?W) auto
      with False show ?thesis by simp
    qed
  qed
  have b: "0 \<le> ?B" "?B \<le> 100"
  proof -
    show "0 \<le> ?B" by simp
    show "?B \<le> 100"
    proof (cases "faculty_pool c = []")
      case True
      then show ?thesis by simp
    next
      case False
      then have "?W \<noteq> []" by (simp add: weekly_totals_def)
      then have "Min (set ?W) \<le> Max (set ?W)" by simp
      with False show ?thesis by simp
    qed
  qed
  have mm: "0 \<le> ?M" "?M \<le> 100" by simp_all
  have near: "\<bar>?S - (3 / 10 * ?U + 3 / 10 * of_int ?B + 4 / 10 * of_int ?M)\<bar>
      \<le> (\<bar>?U\<bar> + 100) / 2 ^ 50"
    by (rule optimization_score_raw_close [OF b mm])
  have sc: "optimization_score (tt_metrics tt) = round1 ?S" using m(4) S' by simp
  from m(1,2,3) sc near z show ?thesis
    unfolding m(3) by blast
qed

theorem optimization_score_formula_witness:
  "\<exists>tt U S. generate_optimized_schedule (five_day_optimizer 20 1) 1 (\<lambda>_. 0) = Inr tt \<and>
     U = fmul (nearest_float (1 / 600)) 100 \<and>
     S = fadd (fadd (fmul U (nearest_float (3 / 10)))
                    (fmul (float_of_int 95) (nearest_float (3 / 10))))
              (fmul (float_of_int 100) (nearest_float (4 / 10))) \<and>
     S < 1371 / 20 \<and>
     \<bar>S - (3 / 10 * U + 3 / 10 * 95 + 4 / 10 * 100)\<bar> \<le> (\<bar>U\<bar> + 100) / 2 ^ 50 \<and>
     faculty_load_balance (tt_metrics tt) = 95 \<and>
     conflict_count (tt_metrics tt) = 0 \<and>
     optimization_score (tt_metrics tt) = round1 S \<and>
     optimization_score (tt_metrics tt) = 685 / 10"
proof -
  let ?opt = "five_day_optimizer 20 1"
  from five_day_run_20 obtain tt where
    tt: "generate_optimized_schedule ?opt 1 (\<lambda>_. 0) = Inr tt"
    and m: "tt_metrics tt = \<lparr>classroom_utilization = nearest_float (2 / 10),
      faculty_load_balance = 95, conflict_count = 0, optimization_score = 685 / 10,
      total_classes_scheduled = 1, faculty_utilization = 1 / 2\<rparr>"
    by (cases "generate_optimized_schedule ?opt 1 (\<lambda>_. 0)") simp_all
  have tp: "total_possible_slots ?opt = 600"
    by (simp add: total_possible_slots_def five_day_optimizer_def all_days_def
        all_time_slots_def five_day_config_def classrooms_def get_default_def)
  from generate_metrics [OF five_day_optimizer_init tt] m have
    gs: "grid_size (tt_schedule tt) (days ?opt) (time_slots ?opt) = 1" by simp
  let ?U = "fmul (nearest_float (1 / 600)) 100"
  let ?S = "fadd (fadd (fmul ?U (nearest_float (3 / 10)))
                    (fmul (float_of_int 95) (nearest_float (3 / 10))))
              (fmul (float_of_int 100) (nearest_float (4 / 10)))"
  from optimization_score_formula [OF five_day_optimizer_init tt] obtain U B S where
    r: "U = fmul (nearest_float
           (of_int (grid_size (tt_schedule tt) (days ?opt) (time_slots ?opt))
            / of_int (total_possible_slots ?opt))) 100"
    "S = fadd (fadd (fmul U (nearest_float (3 / 10)))
                    (fmul (float_of_int B) (nearest_float (3 / 10))))
              (fmul (float_of_int (max 0 (100 - 5 * conflict_count (tt_metrics tt))))
                    (nearest_float (4 / 10)))"
    "\<bar>S - (3 / 10 * U + 3 / 10 * of_int B
            + 4 / 10 * of_int (max 0 (100 - 5 * conflict_count (tt_metrics tt))))\<bar>
       \<le> (\<bar>U\<bar> + 100) / 2 ^ 50"
    "faculty_load_balance (tt_metrics tt) = of_int B"
    "optimization_score (tt_metrics tt) = round1 S"
    by blast
  from r(1) gs tp have U: "U = ?U" by simp
  from r(4) m have "of_int B = (95::rat)" by simp
  then have B: "B = 95" by (metis of_int_eq_iff of_int_numeral)
  from m have cc: "conflict_count (tt_metrics tt) = 0" by simp
  from r(2) U B cc have S: "S = ?S" by simp
  have lt: "?S < 1371 / 20" by code_simp
  from r(3) have cl: "\<bar>?S - (3 / 10 * ?U + 3 / 10 * 95 + 4 / 10 * 100)\<bar>
      \<le> (\<bar>?U\<bar> + 100) / 2 ^ 50"
    unfolding S U B cc by simp
  from m have a: "faculty_load_balance (tt_metrics tt) = 95"
    and b: "optimization_score (tt_metrics tt) = 685 / 10" by simp_all
  from r(5) S have c: "optimization_score (tt_metrics tt) = round1 ?S" by simp
  from tt lt cl a cc c b show ?thesis by blast
qed

subsection \<open>The attempt budget\<close>

text \<open>
  Claim C5 says that the placement loop of a subject makes at most 100 attempts, stops
  once the target is reached, and that exhausting the budget raises no error, so that
  the run always completes and returns a schedule. The loop is as the claim says. Once
  the number of classes placed has reached the target, the loop returns at once,
  without another attempt and with the state as it is; so it does with 100 attempts
  made, whatever the number of classes placed. Started with no class placed and no
  attempt made, it makes at most 100 attempts and places at most the target number of
  classes, and when it stops before the hundredth attempt the target is met exactly.
  For a configuration with at least one room, one batch and one faculty member the run
  completes, and its attempts, rejected or placed, are at most 100 per subject.

  The run does not always complete. With a room count of 0, which the specification
  calls valid, the first attempt of the first subject raises \<open>ValueError\<close> at the draw of
  the room number, for every random source, before any of the budget is used.
\<close>

theorem attempt_budget:
  "(\<forall>subj k a st. classes_per_week (config opt) \<le> k \<longrightarrow>
        place_subject opt subj k a st = Inr (k, a, st)) \<and>
   (\<forall>subj k st. place_subject opt subj k 100 st = Inr (k, 100, st)) \<and>
   (\<forall>subj st placed attempts st'.
        place_subject opt subj 0 0 st = Inr (placed, attempts, st') \<longrightarrow>
          attempts \<le> 100 \<and> 0 \<le> placed \<and> placed \<le> int attempts \<and>
          placed \<le> max 0 (classes_per_week (config opt)) \<and>
          (attempts < 100 \<longrightarrow> placed = max 0 (classes_per_week (config opt)))) \<and>
   (optimizer_init c = Inr opt \<and> 1 \<le> classrooms c \<and> 1 \<le> batches c
      \<and> 1 \<le> faculty_count c \<longrightarrow>
      (\<exists>tt. generate_optimized_schedule opt n g = Inr tt \<and>
         int (length (tt_conflicts tt)) + total_classes_scheduled (tt_metrics tt)
           \<le> 100 * int (length (subjects c)))) \<and>
   run (example_config\<lparr>cfg_classrooms := Some 0\<rparr>) n g = Inl ValueError"
proof -
  have 0: "\<forall>subj k a st. classes_per_week (config opt) \<le> k \<longrightarrow>
        place_subject opt subj k a st = Inr (k, a, st)"
    by (simp add: place_subject.simps)
  have 1: "\<forall>subj st placed attempts st'.
        place_subject opt subj 0 0 st = Inr (placed, attempts, st') \<longrightarrow>
          attempts \<le> 100 \<and> 0 \<le> placed \<and> placed \<le> int attempts \<and>
          placed \<le> max 0 (classes_per_week (config opt)) \<and>
          (attempts < 100 \<longrightarrow> placed = max 0 (classes_per_week (config opt)))"
  proof (intro allI impI)
    fix subj st placed attempts st'
    assume "place_subject opt subj 0 0 st = Inr (placed, attempts, st')"
    from place_subject_bounds [OF this] have
      b: "attempts \<le> 100" "0 \<le> placed"
      "\<not> (placed < classes_per_week (config opt) \<and> attempts < 100)"
      "0 \<le> classes_per_week (config opt) \<longrightarrow> placed \<le> classes_per_week (config opt)"
      "0 < attempts \<longrightarrow> 0 < classes_per_week (config opt)"
      "placed \<le> int attempts"
      by simp_all
    have m: "placed \<le> max 0 (classes_per_week (config opt))"
    proof (cases "0 \<le> classes_per_week (config opt)")
      case True
      with b(4) show ?thesis by simp
    next
      case False
      with b(5) have "attempts = 0" by auto
      with b(6) show ?thesis by simp
    qed
    have "attempts < 100 \<longrightarrow> placed = max 0 (classes_per_week (config opt))"
      using b(2,3) m by auto
    with b m show "attempts \<le> 100 \<and> 0 \<le> placed \<and> placed \<le> int attempts \<and>
          placed \<le> max 0 (classes_per_week (config opt)) \<and>
          (attempts < 100 \<longrightarrow> placed = max 0 (classes_per_week (config opt)))"
      by blast
  qed
  have 2: "\<forall>subj k st. place_subject opt subj k 100 st = Inr (k, 100, st)"
    by (simp add: place_subject.simps)
  have 3: "optimizer_init c = Inr opt \<and> 1 \<le> classrooms c \<and> 1 \<le> batches c
      \<and> 1 \<le> faculty_count c \<longrightarrow>
      (\<exists>tt. generate_optimized_schedule opt n g = Inr tt \<and>
         int (length (tt_conflicts tt)) + total_classes_scheduled (tt_metrics tt)
           \<le> 100 * int (length (subjects c)))"
  proof
    assume a: "optimizer_init c = Inr opt \<and> 1 \<le> classrooms c \<and> 1 \<le> batches c
      \<and> 1 \<le> faculty_count c"
    then have a1: "optimizer_init c = Inr opt" and a2: "1 \<le> classrooms c"
      and a3: "1 \<le> batches c" and a4: "1 \<le> faculty_count c" by simp_all
    from optimizer_init_days [OF a1] have
      o: "config opt = c" "distinct (days opt)" "distinct (time_slots opt)" by blast+
    from generate_completes [OF a1 a2 a3 a4, of n g] obtain tt where
      tt: "generate_optimized_schedule opt n g = Inr tt" by blast
    from a1 tt obtain st where fs: "final_state opt g = Inr st"
      and cf: "tt_conflicts tt = conflicts st"
      and m: "total_classes_scheduled (tt_metrics tt) = total_scheduled st"
      by (rule generate_inv) simp
    from final_state_inv [OF fs o(2,3)] have
      "int (length (tt_conflicts tt)) + total_classes_scheduled (tt_metrics tt)
          \<le> 100 * int (length (subjects c))"
      by (simp add: cf m o(1))
    with tt show "\<exists>tt. generate_optimized_schedule opt n g = Inr tt \<and>
         int (length (tt_conflicts tt)) + total_classes_scheduled (tt_metrics tt)
           \<le> 100 * int (length (subjects c))" by blast
  qed
  let ?z = "example_config\<lparr>cfg_classrooms := Some 0\<rparr>"
  let ?o = "\<lparr>config = ?z, time_slots = all_time_slots, days = all_days\<rparr>"
  have ne: "all_days \<noteq> []" "all_time_slots \<noteq> []"
    by (simp_all add: all_days_def all_time_slots_def)
  have "attempt ?o ''Math'' (initial_state ?o g) = Inl ValueError"
    by (rule attempt_no_rooms) (simp_all add: ne classrooms_def get_default_def)
  then have "generate_optimized_schedule ?o n g = Inl ValueError"
    by (rule first_attempt_raises)
      (simp_all add: example_config_def subjects_def classes_per_week_def get_default_def)
  then have 4: "run ?z n g = Inl ValueError"
    by (simp add: run_def optimizer_init_def example_config_def)
  from 0 1 2 3 4 show ?thesis by blast
qed

theorem attempt_budget_witness:
  "place_subject example_optimizer ''Math'' 1 0 (initial_state example_optimizer (\<lambda>_. 0))
     = Inr (1, 0, initial_state example_optimizer (\<lambda>_. 0)) \<and>
   (\<exists>st'. place_subject example_optimizer ''Math'' 0 0
            (initial_state example_optimizer (\<lambda>_. 0)) = Inr (1, 1, st') \<and>
      (1::int) = max 0 (classes_per_week (config example_optimizer))) \<and>
   (\<exists>tt. generate_optimized_schedule
       (example_optimizer\<lparr>config := example_config\<lparr>cfg_classes_per_week := Some 2\<rparr>\<rparr>)
       1 (\<lambda>_. 0) = Inr tt \<and>
     total_classes_scheduled (tt_metrics tt) = 1 \<and> conflict_count (tt_metrics tt) = 99 \<and>
     int (length (tt_conflicts tt)) + total_classes_scheduled (tt_metrics tt) \<le> 100)"
proof -
  let ?st = "initial_state example_optimizer (\<lambda>_. 0)"
  let ?c = "example_config\<lparr>cfg_classes_per_week := Some 2\<rparr>"
  let ?opt = "example_optimizer\<lparr>config := ?c\<rparr>"
  have t: "classes_per_week (config example_optimizer) = 1"
    by (simp add: example_optimizer_def example_config_def classes_per_week_def
        get_default_def)
  from attempt_budget [of example_optimizer] t have
    a: "place_subject example_optimizer ''Math'' 1 0 ?st = Inr (1, 0, ?st)" by simp
  from early_stop_run obtain st' where
    e: "place_subject example_optimizer ''Math'' 0 0 ?st = Inr (1, 1, st')"
    by (cases "place_subject example_optimizer ''Math'' 0 0 ?st") auto
  from attempt_budget [of example_optimizer] e have
    "(1::nat) < 100 \<longrightarrow> (1::int) = max 0 (classes_per_week (config example_optimizer))"
    by blast
  then have b: "(1::int) = max 0 (classes_per_week (config example_optimizer))" by simp
  have 0: "optimizer_init ?c = Inr ?opt"
    by (simp add: optimizer_init_def example_optimizer_def example_config_def)
  have 1: "1 \<le> classrooms ?c" "1 \<le> batches ?c" "1 \<le> faculty_count ?c"
    "subjects ?c = [''Math'']"
    by (simp_all add: example_config_def classrooms_def batches_def faculty_count_def
        subjects_def get_default_def)
  from attempt_budget [of ?opt ?c 1 "\<lambda>_. 0"] 0 1(1-3) obtain tt where
    tt: "generate_optimized_schedule ?opt 1 (\<lambda>_. 0) = Inr tt" and
    bd: "int (length (tt_conflicts tt)) + total_classes_scheduled (tt_metrics tt)
          \<le> 100 * int (length (subjects ?c))"
    by blast
  from exhausted_run tt have
    "total_classes_scheduled (tt_metrics tt) = 1" "conflict_count (tt_metrics tt) = 99"
    by simp_all
  with tt bd 1(4) have "\<exists>tt. generate_optimized_schedule ?opt 1 (\<lambda>_. 0) = Inr tt \<and>
     total_classes_scheduled (tt_metrics tt) = 1 \<and> conflict_count (tt_metrics tt) = 99 \<and>
     int (length (tt_conflicts tt)) + total_classes_scheduled (tt_metrics tt) \<le> 100"
    by auto
  with a e b show ?thesis by blast
qed

subsection \<open>Faculty utilization\<close>

text \<open>
  Claim C6. For every run that returns, the faculty utilization of the metrics is the
  arithmetic mean of the weekly session totals taken over the whole faculty pool: the
  sum of the totals, which is the number of sessions scheduled, divided by the size of
  the pool, a faculty member without any session included, and 0 for an empty pool. The
  pool has one weekly total per name; its size is the configured faculty count, at most
  the 18 generated names. The mean is the float quotient of the two integers, which is
  the exact quotient but for the rounding of one float division, and the metrics
  report it to one decimal place (see C10).
\<close>

theorem faculty_utilization_mean:
  assumes "optimizer_init c = Inr opt" and "generate_optimized_schedule opt n g = Inr tt"
  shows "length (weekly_totals (tt_schedule tt) (days opt) (time_slots opt) (faculty_pool c))
       = length (faculty_pool c) \<and>
     sum_list (weekly_totals (tt_schedule tt) (days opt) (time_slots opt) (faculty_pool c))
       = total_classes_scheduled (tt_metrics tt) \<and>
     faculty_utilization (tt_metrics tt) =
       round1 (if faculty_pool c = [] then 0
               else nearest_float
                 (of_int (sum_list (weekly_totals (tt_schedule tt) (days opt)
                                (time_slots opt) (faculty_pool c)))
                    / of_nat (length (faculty_pool c)))) \<and>
     \<bar>nearest_float
         (of_int (sum_list (weekly_totals (tt_schedule tt) (days opt)
                                (time_slots opt) (faculty_pool c)))
            / of_nat (length (faculty_pool c)))
       - of_int (sum_list (weekly_totals (tt_schedule tt) (days opt)
                                (time_slots opt) (faculty_pool c)))
            / of_nat (length (faculty_pool c))\<bar>
       \<le> (\<bar>of_int (sum_list (weekly_totals (tt_schedule tt) (days opt)
                                (time_slots opt) (faculty_pool c)))
            / of_nat (length (faculty_pool c))\<bar> + 1) / 2 ^ 53 \<and>
     (0 \<le> faculty_count c \<longrightarrow> length (faculty_pool c) = min 18 (nat (faculty_count c)))"
proof -
  let ?W = "weekly_totals (tt_schedule tt) (days opt) (time_slots opt) (faculty_pool c)"
  let ?G = "grid_size (tt_schedule tt) (days opt) (time_slots opt)"
  from generate_metrics [OF assms] have s: "sum_list ?W = ?G"
    and t: "total_classes_scheduled (tt_metrics tt) = ?G"
    and f: "faculty_utilization (tt_metrics tt) =
       round1 (if faculty_pool c = [] then 0
               else nearest_float (of_int ?G / of_nat (length (faculty_pool c))))"
    by simp_all
  have l: "length ?W = length (faculty_pool c)" by (simp add: weekly_totals_def)
  have "length faculty_names = 18" by (simp add: faculty_names_def)
  then have p: "0 \<le> faculty_count c \<longrightarrow>
      length (faculty_pool c) = min 18 (nat (faculty_count c))"
    by (simp add: faculty_pool_def slice_to_def)
  have e: "\<bar>nearest_float (of_int (sum_list ?W) / of_nat (length (faculty_pool c)))
       - of_int (sum_list ?W) / of_nat (length (faculty_pool c))\<bar>
       \<le> (\<bar>of_int (sum_list ?W) / of_nat (length (faculty_pool c))\<bar> + 1) / 2 ^ 53"
    by (rule nearest_float_error_53)
  from l s t f p e show ?thesis by (simp only: simp_thms)
qed

theorem faculty_utilization_mean_witness:
  "\<exists>tt. generate_optimized_schedule two_faculty_optimizer 1 (\<lambda>_. 0) = Inr tt \<and>
     length (faculty_pool two_faculty_config) = 2 \<and>
     total_classes_scheduled (tt_metrics tt) = 1 \<and>
     sum_list (weekly_totals (tt_schedule tt) all_days all_time_slots
                 (faculty_pool two_faculty_config)) = 1 \<and>
     faculty_utilization (tt_metrics tt) = 1 / 2"
proof -
  obtain tt where tt: "generate_optimized_schedule two_faculty_optimizer 1 (\<lambda>_. 0) = Inr tt"
    and m: "tt_metrics tt = \<lparr>classroom_utilization = nearest_float (28 / 10),
      faculty_load_balance = 95, conflict_count = 0,
      optimization_score = nearest_float (693 / 10), total_classes_scheduled = 1,
      faculty_utilization = 1 / 2\<rparr>"
    by (rule two_faculty_tt)
  have p: "length (faculty_pool two_faculty_config) = 2"
    by (simp add: faculty_pool_def slice_to_def faculty_names_def two_faculty_config_def
        faculty_count_def get_default_def)
  from faculty_utilization_mean [OF two_faculty_optimizer_init tt] m have
    "sum_list (weekly_totals (tt_schedule tt) all_days all_time_slots
                 (faculty_pool two_faculty_config)) = 1"
    by (simp add: two_faculty_optimizer_def)
  with tt m p show ?thesis by auto
qed

subsection \<open>The suggestion generator\<close>

lemma suggest_improvements_eq:
  "suggest_improvements m =
     (if classroom_utilization m < 70 then [suggestion_utilization] else []) @
     (if faculty_load_balance m < 80 then [suggestion_balance] else []) @
     (if conflict_count m > 5 then [suggestion_conflicts] else []) @
     (if optimization_score m < 85 then [suggestion_score] else [])"
  by (simp add: suggest_improvements_def Let_def)

lemma suggestions_distinct:
  "distinct [suggestion_utilization, suggestion_balance, suggestion_conflicts, suggestion_score]"
  by (simp add: suggestion_utilization_def suggestion_balance_def suggestion_conflicts_def
      suggestion_score_def)

text \<open>
  Claim C7. On metrics with utilization 50, balance 90, conflict count 2 and score 90 the
  suggestion generator returns exactly the low-utilization advisory; on utilization 90,
  balance 60, conflict count 10 and score 70 it returns exactly the balance, conflicts and
  score advisories in that order. In general each advisory is in the result exactly when
  its own threshold test holds, whatever the other three tests say, and every one of the
  sixteen subsets of tests is fired by some metrics, which then yield the advisories of
  that subset in the fixed order.
\<close>

theorem suggest_improvements_independent:
  "suggest_improvements \<lparr>classroom_utilization = 50, faculty_load_balance = 90,
      conflict_count = 2, optimization_score = 90, total_classes_scheduled = t,
      faculty_utilization = fu\<rparr> = [suggestion_utilization]
   \<and> suggest_improvements \<lparr>classroom_utilization = 90, faculty_load_balance = 60,
      conflict_count = 10, optimization_score = 70, total_classes_scheduled = t,
      faculty_utilization = fu\<rparr> = [suggestion_balance, suggestion_conflicts, suggestion_score]
   \<and> (suggestion_utilization \<in> set (suggest_improvements m)) = (classroom_utilization m < 70)
   \<and> (suggestion_balance \<in> set (suggest_improvements m)) = (faculty_load_balance m < 80)
   \<and> (suggestion_conflicts \<in> set (suggest_improvements m)) = (conflict_count m > 5)
   \<and> (suggestion_score \<in> set (suggest_improvements m)) = (optimization_score m < 85)
   \<and> suggest_improvements (metrics_firing u b c s) =
     (if u then [suggestion_utilization] else []) @ (if b then [suggestion_balance] else []) @
     (if c then [suggestion_conflicts] else []) @ (if s then [suggestion_score] else [])"
  using suggestions_distinct
  by (auto simp add: suggest_improvements_eq metrics_firing_def)

subsection \<open>A target of no session\<close>

text \<open>
  Claim C8 says that a configuration whose only subject has a target of 0 sessions per
  week produces an empty grid, a classroom utilization of 0, a conflict count of 0 and
  a score made of the two other terms. With such a configuration no attempt is made,
  and the outcome depends on the room count alone. When it is not 0 the run returns what
  the claim says: an empty grid, no rejected attempt, utilization 0, conflict count 0,
  a load balance of 100 and a score of 0.3 times 100 plus 0.4 times 100, which is 70.
  When it is 0, a count that the specification calls valid, the run returns nothing:
  the division by \<open>total_possible_slots = 0\<close> raises \<open>ZeroDivisionError\<close>.
\<close>

theorem zero_target_run:
  assumes "optimizer_init c = Inr opt" and "subjects c = [subj]"
    and "classes_per_week c = 0"
  shows "(classrooms c = 0 \<longrightarrow>
       generate_optimized_schedule opt n g = Inl ZeroDivisionError) \<and>
     (classrooms c \<noteq> 0 \<longrightarrow>
       (\<exists>tt. generate_optimized_schedule opt n g = Inr tt \<and>
         (\<forall>d s. cell_at (tt_schedule tt) d s = []) \<and>
         tt_conflicts tt = [] \<and>
         classroom_utilization (tt_metrics tt) = 0 \<and>
         conflict_count (tt_metrics tt) = 0 \<and>
         total_classes_scheduled (tt_metrics tt) = 0 \<and>
         faculty_load_balance (tt_metrics tt) = 100 \<and>
         optimization_score (tt_metrics tt)
           = 3 / 10 * faculty_load_balance (tt_metrics tt) + 4 / 10 * 100 \<and>
         optimization_score (tt_metrics tt) = 70))"
proof (intro conjI impI)
  from optimizer_init_days [OF assms(1)] have
    o: "config opt = c" "distinct (days opt)" "days opt \<noteq> []" "time_slots opt \<noteq> []"
    "\<not> cfg_academic_not_dict (config opt)"
    by blast+
  from assms(3) o(1) have t0: "classes_per_week (config opt) \<le> 0" by simp
  {
    assume "classrooms c = 0"
    with o(1) have "classrooms (config opt) = 0" by simp
    from no_target_no_rooms [OF t0 this o(2,3,4,5)]
    show "generate_optimized_schedule opt n g = Inl ZeroDivisionError" .
  }
  assume r: "classrooms c \<noteq> 0"
  from no_target_final_state [OF t0] have
    fs: "final_state opt g = Inr (initial_state opt g)" .
  have i: "run_inv opt (initial_state opt g)" by (rule initial_inv [OF o(2)])
  from r o(1) have "classrooms (config opt) \<noteq> 0" by simp
  from generate_total [OF fs i o(3,4) this o(5)] obtain tt where
    tt: "generate_optimized_schedule opt n g = Inr tt" by blast
  from assms(1) tt obtain st where "final_state opt g = Inr st"
    and sch0: "tt_schedule tt = schedule st" and cf0: "tt_conflicts tt = conflicts st"
    by (rule generate_inv)
  with fs have sch: "tt_schedule tt = schedule (initial_state opt g)"
    and cf: "tt_conflicts tt = []" by (simp_all add: initial_conflicts)
  have cells: "\<forall>d s. cell_at (tt_schedule tt) d s = []" by (simp add: sch initial_cell_at)
  then have gs: "grid_size (tt_schedule tt) (days opt) (time_slots opt) = 0"
    by (simp add: grid_size_def sum_list_zero)
  have fd: "\<And>f d. faculty_day_count (tt_schedule tt) (time_slots opt) f d = 0"
    using cells by (simp add: faculty_day_count_def taught_by_def sum_list_zero)
  have wt: "weekly_totals (tt_schedule tt) (days opt) (time_slots opt) (faculty_pool c)
      = map (\<lambda>f. 0) (faculty_pool c)"
    by (simp add: weekly_totals_def fd sum_list_zero)
  have mm: "faculty_pool c \<noteq> [] \<Longrightarrow> set (map (\<lambda>f. 0::int) (faculty_pool c)) = {0}"
    by (cases "faculty_pool c") auto
  have sc: "round1 (optimization_score_raw 0 100 0) = 70" by code_simp
  from generate_metrics [OF assms(1) tt] have
    "tt_metrics tt = \<lparr>classroom_utilization = 0, faculty_load_balance = 100,
        conflict_count = 0, optimization_score = 70, total_classes_scheduled = 0,
        faculty_utilization = 0\<rparr>"
    by (cases "faculty_pool c = []")
      (simp_all add: gs wt cf mm sc nearest_float_0 fmul_0 round1_0)
  with tt cells cf show "\<exists>tt. generate_optimized_schedule opt n g = Inr tt \<and>
         (\<forall>d s. cell_at (tt_schedule tt) d s = []) \<and>
         tt_conflicts tt = [] \<and>
         classroom_utilization (tt_metrics tt) = 0 \<and>
         conflict_count (tt_metrics tt) = 0 \<and>
         total_classes_scheduled (tt_metrics tt) = 0 \<and>
         faculty_load_balance (tt_metrics tt) = 100 \<and>
         optimization_score (tt_metrics tt)
           = 3 / 10 * faculty_load_balance (tt_metrics tt) + 4 / 10 * 100 \<and>
         optimization_score (tt_metrics tt) = 70" by simp
qed

theorem zero_target_run_witness:
  "generate_optimized_schedule
     (example_optimizer\<lparr>config :=
        example_config\<lparr>cfg_classes_per_week := Some 0, cfg_classrooms := Some 0\<rparr>\<rparr>)
     1 (\<lambda>_. 0) = Inl ZeroDivisionError \<and>
   (\<exists>tt. generate_optimized_schedule
       (example_optimizer\<lparr>config := example_config\<lparr>cfg_classes_per_week := Some 0\<rparr>\<rparr>)
       1 (\<lambda>_. 0) = Inr tt \<and>
     tt_conflicts tt = [] \<and> classroom_utilization (tt_metrics tt) = 0 \<and>
     optimization_score (tt_metrics tt) = 70)"
proof -
  let ?z = "example_config\<lparr>cfg_classes_per_week := Some 0, cfg_classrooms := Some 0\<rparr>"
  let ?c = "example_config\<lparr>cfg_classes_per_week := Some 0\<rparr>"
  have 0: "optimizer_init ?z = Inr (example_optimizer\<lparr>config := ?z\<rparr>)"
    "optimizer_init ?c = Inr (example_optimizer\<lparr>config := ?c\<rparr>)"
    by (simp_all add: optimizer_init_def example_optimizer_def example_config_def)
  have 1: "subjects ?z = [''Math'']" "classes_per_week ?z = 0" "classrooms ?z = 0"
    "subjects ?c = [''Math'']" "classes_per_week ?c = 0" "classrooms ?c \<noteq> 0"
    by (simp_all add: example_config_def subjects_def classes_per_week_def classrooms_def
        get_default_def)
  from zero_target_run [OF 0(1) 1(1,2), of 1 "\<lambda>_. 0"] 1(3)
    zero_target_run [OF 0(2) 1(4,5), of 1 "\<lambda>_. 0"] 1(6)
  show ?thesis by blast
qed

subsection \<open>No placement is overwritten\<close>

text \<open>
  Claim C9. For every run that returns, the number of session entries summed over all
  (day, slot) cells of the returned grid equals \<open>total_classes_scheduled\<close> of the
  metrics: every cell outside the configured days and slots is empty, the keys of a cell
  are pairwise different, and a new composite key (subject, batch, room) is never a key
  of its cell already when the batch is not among the batches of the cell, so that an
  assignment to the cell never replaces an entry.
\<close>

theorem no_placement_overwritten:
  assumes "optimizer_init c = Inr opt" and "generate_optimized_schedule opt n g = Inr tt"
  shows "grid_size (tt_schedule tt) (days opt) (time_slots opt)
       = total_classes_scheduled (tt_metrics tt) \<and>
     (\<forall>d s. cell_at (tt_schedule tt) d s \<noteq> [] \<longrightarrow>
        d \<in> set (days opt) \<and> s \<in> set (time_slots opt)) \<and>
     (\<forall>d s. distinct (map fst (cell_at (tt_schedule tt) d s))) \<and>
     (\<forall>rooms bs cl subj bn rn.
        cell_ok rooms bs cl \<and> bn \<notin> bs \<and> is_room_name rn \<and> is_batch_name bn \<longrightarrow>
        class_id subj bn rn \<notin> fst ` set cl)"
proof -
  from assms obtain st where i: "run_inv opt st" and sch: "tt_schedule tt = schedule st"
    and m: "total_classes_scheduled (tt_metrics tt) = total_scheduled st"
    by (rule generate_inv) simp
  from i have gr: "grid_ok opt st" and co: "counts_ok opt st" by (simp_all add: run_inv_def)
  have 1: "grid_size (tt_schedule tt) (days opt) (time_slots opt)
       = total_classes_scheduled (tt_metrics tt)"
    using co by (simp add: counts_ok_def sch m)
  have 2: "\<forall>d s. cell_at (tt_schedule tt) d s \<noteq> [] \<longrightarrow>
        d \<in> set (days opt) \<and> s \<in> set (time_slots opt)"
    using gr unfolding grid_ok_def sch by blast
  have 3: "\<forall>d s. distinct (map fst (cell_at (tt_schedule tt) d s))"
    using gr cell_ok_distinct_keys unfolding grid_ok_def sch by blast
  have 4: "\<forall>rooms bs cl subj bn rn.
        cell_ok rooms bs cl \<and> bn \<notin> bs \<and> is_room_name rn \<and> is_batch_name bn \<longrightarrow>
        class_id subj bn rn \<notin> fst ` set cl"
    using cell_ok_fresh_key by blast
  from 1 2 3 4 show ?thesis by blast
qed

theorem no_placement_overwritten_witness:
  "\<exists>tt. generate_optimized_schedule example_optimizer 1 (\<lambda>_. 0) = Inr tt \<and>
     grid_size (tt_schedule tt) all_days all_time_slots = total_classes_scheduled (tt_metrics tt)"
proof -
  from generate_completes [OF example_optimizer_init, of 1 "\<lambda>_. 0"] obtain tt where
    tt: "generate_optimized_schedule example_optimizer 1 (\<lambda>_. 0) = Inr tt"
    by (auto simp add: example_config_values)
  from no_placement_overwritten [OF example_optimizer_init tt] have
    "grid_size (tt_schedule tt) all_days all_time_slots = total_classes_scheduled (tt_metrics tt)"
    by (simp add: example_optimizer_def)
  with tt show ?thesis by blast
qed

subsection \<open>Rounding at the output\<close>

text \<open>
  Claim C10. In the metrics of every run that returns, the classroom utilization, the
  optimization score and the faculty utilization are each the float computed by the
  run, rounded to one decimal place by \<open>round\<close>: the float nearest to a decimal of one
  place that lies within 0.05 of the value. The faculty load balance is an integer,
  which the same \<open>round\<close> returns as it is. The conflict count and the number of classes
  scheduled are the integers themselves: the length of the list of rejected attempts
  and the number of sessions in the grid. The rounding comes last: the score that is
  rounded is computed from the utilization and the balance before they are rounded.
\<close>

theorem metrics_rounded_at_output:
  assumes "optimizer_init c = Inr opt" and "generate_optimized_schedule opt n g = Inr tt"
  shows "\<exists>U B S F.
     U = fmul (nearest_float
           (of_int (grid_size (tt_schedule tt) (days opt) (time_slots opt))
            / of_int (total_possible_slots opt))) 100 \<and>
     B = (if faculty_pool c = [] then 100
          else max 0 (100 -
            (Max (set (weekly_totals (tt_schedule tt) (days opt) (time_slots opt)
                        (faculty_pool c)))
             - Min (set (weekly_totals (tt_schedule tt) (days opt) (time_slots opt)
                        (faculty_pool c)))) * 5)) \<and>
     S = optimization_score_raw U B (int (length (tt_conflicts tt))) \<and>
     F = (if faculty_pool c = [] then 0
          else nearest_float
            (of_int (grid_size (tt_schedule tt) (days opt) (time_slots opt))
               / of_nat (length (faculty_pool c)))) \<and>
     classroom_utilization (tt_metrics tt) = round1 U \<and>
     faculty_load_balance (tt_metrics tt) = of_int (round1_int B) \<and>
     round1_int B = B \<and>
     optimization_score (tt_metrics tt) = round1 S \<and>
     faculty_utilization (tt_metrics tt) = round1 F \<and>
     conflict_count (tt_metrics tt) = int (length (tt_conflicts tt)) \<and>
     total_classes_scheduled (tt_metrics tt)
       = grid_size (tt_schedule tt) (days opt) (time_slots opt) \<and>
     (\<exists>k1 k3 k4.
        classroom_utilization (tt_metrics tt) = nearest_float (of_int k1 / 10) \<and>
        \<bar>of_int k1 / 10 - U\<bar> \<le> 1 / 20 \<and>
        optimization_score (tt_metrics tt) = nearest_float (of_int k3 / 10) \<and>
        \<bar>of_int k3 / 10 - S\<bar> \<le> 1 / 20 \<and>
        faculty_utilization (tt_metrics tt) = nearest_float (of_int k4 / 10) \<and>
        \<bar>of_int k4 / 10 - F\<bar> \<le> 1 / 20)"
proof -
  let ?G = "grid_size (tt_schedule tt) (days opt) (time_slots opt)"
  let ?W = "weekly_totals (tt_schedule tt) (days opt) (time_slots opt) (faculty_pool c)"
  let ?U = "fmul (nearest_float (of_int ?G / of_int (total_possible_slots opt))) 100"
  let ?B = "if faculty_pool c = [] then 100
            else max 0 (100 - (Max (set ?W) - Min (set ?W)) * 5)"
  let ?S = "optimization_score_raw ?U ?B (int (length (tt_conflicts tt)))"
  let ?F = "if faculty_pool c = [] then 0
            else nearest_float (of_int ?G / of_nat (length (faculty_pool c)))"
  from generate_metrics [OF assms] have m:
    "classroom_utilization (tt_metrics tt) = round1 ?U"
    "faculty_load_balance (tt_metrics tt) = of_int (round1_int ?B)"
    "round1_int ?B = ?B"
    "optimization_score (tt_metrics tt) = round1 ?S"
    "faculty_utilization (tt_metrics tt) = round1 ?F"
    "conflict_count (tt_metrics tt) = int (length (tt_conflicts tt))"
    "total_classes_scheduled (tt_metrics tt) = ?G"
    by (simp_all add: round1_int_def)
  obtain k1 where k1: "round1 ?U = nearest_float (of_int k1 / 10)"
    "\<bar>of_int k1 / 10 - ?U\<bar> \<le> 1 / 20" using round1_decimal by blast
  obtain k3 where k3: "round1 ?S = nearest_float (of_int k3 / 10)"
    "\<bar>of_int k3 / 10 - ?S\<bar> \<le> 1 / 20" using round1_decimal by blast
  obtain k4 where k4: "round1 ?F = nearest_float (of_int k4 / 10)"
    "\<bar>of_int k4 / 10 - ?F\<bar> \<le> 1 / 20" using round1_decimal by blast
  have t: "\<exists>k1 k3 k4.
        classroom_utilization (tt_metrics tt) = nearest_float (of_int k1 / 10) \<and>
        \<bar>of_int k1 / 10 - ?U\<bar> \<le> 1 / 20 \<and>
        optimization_score (tt_metrics tt) = nearest_float (of_int k3 / 10) \<and>
        \<bar>of_int k3 / 10 - ?S\<bar> \<le> 1 / 20 \<and>
        faculty_utilization (tt_metrics tt) = nearest_float (of_int k4 / 10) \<and>
        \<bar>of_int k4 / 10 - ?F\<bar> \<le> 1 / 20"
    unfolding m(1,4,5) using k1 k3 k4 by blast
  from m t show ?thesis by blast
qed

theorem metrics_rounded_at_output_witness:
  "\<exists>tt U S. generate_optimized_schedule (five_day_optimizer 200 3) 1 (\<lambda>n. n) = Inr tt \<and>
     U = fmul (nearest_float (3 / 6000)) 100 \<and> 1 / 20 < U \<and>
     classroom_utilization (tt_metrics tt) = round1 U \<and>
     classroom_utilization (tt_metrics tt) = nearest_float (1 / 10) \<and>
     S = optimization_score_raw U 95 0 \<and>
     optimization_score (tt_metrics tt) = round1 S \<and>
     optimization_score (tt_metrics tt) = 685 / 10 \<and>
     faculty_load_balance (tt_metrics tt) = 95 \<and>
     faculty_utilization (tt_metrics tt) = 3 / 2 \<and>
     conflict_count (tt_metrics tt) = 0 \<and> total_classes_scheduled (tt_metrics tt) = 3"
proof -
  let ?opt = "five_day_optimizer 200 3"
  from five_day_run_200 obtain tt where
    tt: "generate_optimized_schedule ?opt 1 (\<lambda>n. n) = Inr tt"
    and m: "tt_metrics tt = \<lparr>classroom_utilization = nearest_float (1 / 10),
      faculty_load_balance = 95, conflict_count = 0, optimization_score = 685 / 10,
      total_classes_scheduled = 3, faculty_utilization = 3 / 2\<rparr>"
    by (cases "generate_optimized_schedule ?opt 1 (\<lambda>n. n)") simp_all
  have tp: "total_possible_slots ?opt = 6000"
    by (simp add: total_possible_slots_def five_day_optimizer_def all_days_def
        all_time_slots_def five_day_config_def classrooms_def get_default_def)
  from metrics_rounded_at_output [OF five_day_optimizer_init tt] obtain U B S where
    r: "U = fmul (nearest_float
           (of_int (grid_size (tt_schedule tt) (days ?opt) (time_slots ?opt))
            / of_int (total_possible_slots ?opt))) 100"
    "S = optimization_score_raw U B (int (length (tt_conflicts tt)))"
    "classroom_utilization (tt_metrics tt) = round1 U"
    "faculty_load_balance (tt_metrics tt) = of_int (round1_int B)"
    "round1_int B = B"
    "optimization_score (tt_metrics tt) = round1 S"
    "conflict_count (tt_metrics tt) = int (length (tt_conflicts tt))"
    "total_classes_scheduled (tt_metrics tt) = grid_size (tt_schedule tt)
       (days ?opt) (time_slots ?opt)"
    by blast
  from r(1,8) m tp have U: "U = fmul (nearest_float (3 / 6000)) 100" by simp
  have gt: "1 / 20 < fmul (nearest_float (3 / 6000)) 100" by code_simp
  from r(4,5) m have "of_int B = (95::rat)" by simp
  then have B: "B = 95" by (metis of_int_eq_iff of_int_numeral)
  from r(7) m have "int (length (tt_conflicts tt)) = 0" by simp
  with r(2) B have S: "S = optimization_score_raw U 95 0" by simp
  from m have a: "classroom_utilization (tt_metrics tt) = nearest_float (1 / 10)"
    "optimization_score (tt_metrics tt) = 685 / 10"
    "faculty_load_balance (tt_metrics tt) = 95"
    "faculty_utilization (tt_metrics tt) = 3 / 2"
    "conflict_count (tt_metrics tt) = 0" "total_classes_scheduled (tt_metrics tt) = 3"
    by simp_all
  from gt U have g: "1 / 20 < U" by simp
  from tt U g r(3) a S r(6) show ?thesis by blast
qed

end
